(* ===== verification/Prelude.thy ===== *)
theory Prelude
  imports Main "HOL-Library.Word"
begin

text \<open>
  Shared vocabulary of the development: result types, the error monad on sums, machine
  integer synonyms, and the generic list and option lemmas that several components use.

  A Rust \<open>Result<T, E>\<close> is the sum \<open>'e + 'a\<close> (\<open>Inl\<close> the error). Code that can also
  panic returns \<open>'e failure + 'a\<close>, so that a panic is a value of the model and not
  silently identified with an error return.
\<close>

unbundle bit_operations_syntax

named_theorems result_simps \<open>unfolding of the error monad\<close>
named_theorems eval_simps \<open>equations that evaluate the model on a concrete input\<close>
named_theorems frame_simps \<open>fields an operation leaves alone\<close>

type_synonym u8 = "8 word"
type_synonym u16 = "16 word"
type_synonym u32 = "32 word"
type_synonym u64 = "64 word"
type_synonym u128 = "128 word"

datatype 'e failure = Err 'e | Panic

subsection \<open>The error monad\<close>

definition bindE :: "'e + 'a \<Rightarrow> ('a \<Rightarrow> 'e + 'b) \<Rightarrow> 'e + 'b" where
  "bindE r f = (case r of Inl e \<Rightarrow> Inl e | Inr x \<Rightarrow> f x)"

definition map_err :: "('e \<Rightarrow> 'f) \<Rightarrow> 'e + 'a \<Rightarrow> 'f + 'a" where
  "map_err f r = (case r of Inl e \<Rightarrow> Inl (f e) | Inr x \<Rightarrow> Inr x)"

definition ok_or :: "'e \<Rightarrow> 'a option \<Rightarrow> 'e + 'a" where
  "ok_or e x = (case x of None \<Rightarrow> Inl e | Some y \<Rightarrow> Inr y)"

definition is_ok :: "'e + 'a \<Rightarrow> bool" where
  "is_ok r = (case r of Inl _ \<Rightarrow> False | Inr _ \<Rightarrow> True)"

lemma bindE_Inl [simp, result_simps]: "bindE (Inl e) f = Inl e"
  by (simp add: bindE_def)

lemma bindE_Inr [simp, result_simps]: "bindE (Inr x) f = f x"
  by (simp add: bindE_def)

lemma bindE_eq_Inr: "bindE r f = Inr y \<longleftrightarrow> (\<exists>x. r = Inr x \<and> f x = Inr y)"
  by (cases r) auto

lemma bindE_eq_Inl: "bindE r f = Inl e \<longleftrightarrow> r = Inl e \<or> (\<exists>x. r = Inr x \<and> f x = Inl e)"
  by (cases r) auto

lemma map_err_simps [simp, result_simps]:
  "map_err f (Inl e) = Inl (f e)" "map_err f (Inr x) = Inr x"
  by (simp_all add: map_err_def)

lemma map_err_eq_Inr [simp]: "map_err f r = Inr x \<longleftrightarrow> r = Inr x"
  by (cases r) auto

lemma map_err_eq_Inl: "map_err f r = Inl e \<longleftrightarrow> (\<exists>d. r = Inl d \<and> e = f d)"
  by (cases r) auto

lemma ok_or_simps [simp, result_simps]: "ok_or e None = Inl e" "ok_or e (Some x) = Inr x"
  by (simp_all add: ok_or_def)

lemma ok_or_eq_Inr [simp]: "ok_or e x = Inr y \<longleftrightarrow> x = Some y"
  by (cases x) auto

lemma is_ok_simps [simp, result_simps]: "is_ok (Inl e) = False" "is_ok (Inr x) = True"
  by (simp_all add: is_ok_def)

text \<open>The fallible \<open>collect::<Result<Vec<_>, _>>()\<close>: stops at the first error.\<close>

fun mapE :: "('a \<Rightarrow> 'e + 'b) \<Rightarrow> 'a list \<Rightarrow> 'e + 'b list" where
  "mapE f [] = Inr []"
| "mapE f (x # xs) = bindE (f x) (\<lambda>y. bindE (mapE f xs) (\<lambda>ys. Inr (y # ys)))"

lemma mapE_Inr_iff: "mapE f xs = Inr ys \<longleftrightarrow> list_all2 (\<lambda>x y. f x = Inr y) xs ys"
  by (induction xs arbitrary: ys) (auto simp: bindE_eq_Inr list_all2_Cons1)

lemma mapE_length: "mapE f xs = Inr ys \<Longrightarrow> length ys = length xs"
  by (simp add: mapE_Inr_iff list_all2_lengthD)

subsection \<open>Iterators\<close>

text \<open>
  \<open>dedup_seen\<close> is the loop \<open>if seen.insert(x) { out.push(x) }\<close> over a \<open>HashSet\<close>:
  it keeps the first occurrence of every element, in order.
\<close>

fun dedup_seen :: "'a list \<Rightarrow> 'a list \<Rightarrow> 'a list" where
  "dedup_seen seen [] = []"
| "dedup_seen seen (x # xs) =
     (if x \<in> set seen then dedup_seen seen xs else x # dedup_seen (x # seen) xs)"

lemma set_dedup_seen: "set (dedup_seen seen xs) = set xs - set seen"
  by (induction seen xs rule: dedup_seen.induct) auto

lemma distinct_dedup_seen: "distinct (dedup_seen seen xs)"
  by (induction seen xs rule: dedup_seen.induct) (auto simp: set_dedup_seen)

lemma dedup_seen_id: "distinct xs \<Longrightarrow> set xs \<inter> set seen = {} \<Longrightarrow> dedup_seen seen xs = xs"
  by (induction seen xs rule: dedup_seen.induct) auto

lemma length_dedup_seen: "length (dedup_seen seen xs) \<le> length xs"
  by (induction seen xs rule: dedup_seen.induct) auto

lemma find_Some_iff_split:
  "find P xs = Some x \<longleftrightarrow> (\<exists>ys zs. xs = ys @ x # zs \<and> P x \<and> (\<forall>y \<in> set ys. \<not> P y))"
proof
  assume "find P xs = Some x"
  then obtain i where i: "i < length xs" "P (xs ! i)" "x = xs ! i" "\<forall>j < i. \<not> P (xs ! j)"
    by (auto simp: find_Some_iff)
  then have "xs = take i xs @ x # drop (Suc i) xs"
    by (simp add: id_take_nth_drop)
  moreover have "\<forall>y \<in> set (take i xs). \<not> P y"
    using i by (auto simp: in_set_conv_nth)
  ultimately show "\<exists>ys zs. xs = ys @ x # zs \<and> P x \<and> (\<forall>y \<in> set ys. \<not> P y)"
    using i by blast
next
  assume "\<exists>ys zs. xs = ys @ x # zs \<and> P x \<and> (\<forall>y \<in> set ys. \<not> P y)"
  then obtain ys zs where xs: "xs = ys @ x # zs" and "P x" "\<forall>y \<in> set ys. \<not> P y" by blast
  moreover have "find P (ys @ x # zs) = Some x" if "\<forall>y \<in> set ys. \<not> P y" "P x" for ys
    using that by (induction ys) auto
  ultimately show "find P xs = Some x" by simp
qed

lemma find_SomeD: "find P xs = Some x \<Longrightarrow> P x \<and> x \<in> set xs"
  by (auto simp: find_Some_iff_split)


subsection \<open>Fallible operations on a world\<close>

text \<open>
  An effectful operation takes the world and returns its result and the new world. \<open>bindS\<close>
  is the \<open>?\<close> operator; \<open>withS\<close> hands the whole result on, for code that looks at an error
  or drops it.
\<close>

type_synonym ('w, 'e, 'a) op = "'w \<Rightarrow> ('e + 'a) \<times> 'w"

definition returnS :: "'a \<Rightarrow> ('w, 'e, 'a) op" where
  "returnS x w = (Inr x, w)"

definition throwS :: "'e \<Rightarrow> ('w, 'e, 'a) op" where
  "throwS e w = (Inl e, w)"

definition withS :: "('w, 'e, 'a) op \<Rightarrow> ('e + 'a \<Rightarrow> ('w, 'f, 'b) op) \<Rightarrow> ('w, 'f, 'b) op" where
  "withS m f w = (case m w of (r, w') \<Rightarrow> f r w')"

definition bindS :: "('w, 'e, 'a) op \<Rightarrow> ('a \<Rightarrow> ('w, 'e, 'b) op) \<Rightarrow> ('w, 'e, 'b) op" where
  "bindS m f = withS m (\<lambda>r. case r of Inl e \<Rightarrow> throwS e | Inr x \<Rightarrow> f x)"

definition map_errS :: "('e \<Rightarrow> 'f) \<Rightarrow> ('w, 'e, 'a) op \<Rightarrow> ('w, 'f, 'a) op" where
  "map_errS f m = withS m (\<lambda>r. case r of Inl e \<Rightarrow> throwS (f e) | Inr x \<Rightarrow> returnS x)"

definition liftS :: "'e + 'a \<Rightarrow> ('w, 'e, 'a) op" where
  "liftS r w = (r, w)"

lemma returnS_eq [simp]: "returnS x w = (r, w') \<longleftrightarrow> r = Inr x \<and> w' = w"
  by (auto simp: returnS_def)

lemma throwS_eq [simp]: "throwS e w = (r, w') \<longleftrightarrow> r = Inl e \<and> w' = w"
  by (auto simp: throwS_def)

lemma liftS_eq [simp]: "liftS x w = (r, w') \<longleftrightarrow> x = r \<and> w' = w"
  by (auto simp: liftS_def)

lemma withS_eq: "withS m f w = (r, w'') \<longleftrightarrow> (\<exists>x w'. m w = (x, w') \<and> f x w' = (r, w''))"
  by (cases "m w") (simp add: withS_def)

lemma bindS_Inr_eq:
  "bindS m f w = (Inr y, w'') \<longleftrightarrow> (\<exists>x w'. m w = (Inr x, w') \<and> f x w' = (Inr y, w''))"
  by (cases "m w"; cases "fst (m w)") (auto simp: bindS_def withS_def)

lemma bindS_Inl_eq:
  "bindS m f w = (Inl e, w'') \<longleftrightarrow>
     m w = (Inl e, w'') \<or> (\<exists>x w'. m w = (Inr x, w') \<and> f x w' = (Inl e, w''))"
  by (cases "m w"; cases "fst (m w)") (auto simp: bindS_def withS_def)

lemma map_errS_Inr_eq: "map_errS f m w = (Inr y, w') \<longleftrightarrow> m w = (Inr y, w')"
  by (cases "m w"; cases "fst (m w)") (auto simp: map_errS_def withS_def)

lemma map_errS_Inl_eq: "map_errS f m w = (Inl e, w') \<longleftrightarrow> (\<exists>d. m w = (Inl d, w') \<and> e = f d)"
  by (cases "m w"; cases "fst (m w)") (auto simp: map_errS_def withS_def)

lemmas opS_eqs = withS_eq bindS_Inr_eq bindS_Inl_eq map_errS_Inr_eq map_errS_Inl_eq

lemma withS_step: "m w = (x, w1) \<Longrightarrow> withS m f w = f x w1"
  by (simp add: withS_def)

lemma bindS_step:
  "m w = (Inr x, w1) \<Longrightarrow> bindS m f w = f x w1"
  "m w = (Inl e, w1) \<Longrightarrow> bindS m f w = (Inl e, w1)"
  by (simp_all add: bindS_def withS_def throwS_def)

lemmas opS_defs = returnS_def throwS_def liftS_def withS_def bindS_def map_errS_def

text \<open>Operations that keep a property of the world whatever they return.\<close>

definition keeps :: "('w \<Rightarrow> 'w \<Rightarrow> bool) \<Rightarrow> ('w, 'e, 'a) op \<Rightarrow> bool" where
  "keeps R m = (\<forall>w r w'. m w = (r, w') \<longrightarrow> R w w')"

lemma keepsD: "keeps R m \<Longrightarrow> m w = (r, w') \<Longrightarrow> R w w'"
  by (simp add: keeps_def)

lemma keepsI: "(\<And>w r w'. m w = (r, w') \<Longrightarrow> R w w') \<Longrightarrow> keeps R m"
  by (simp add: keeps_def)

lemma keeps_pure [simp]:
  "reflp R \<Longrightarrow> keeps R (returnS x)" "reflp R \<Longrightarrow> keeps R (throwS e)"
  "reflp R \<Longrightarrow> keeps R (liftS r)"
  by (auto simp: keeps_def reflp_def)

lemma keeps_withS:
  assumes "transp R" "keeps R m" "\<And>r. keeps R (f r)"
  shows "keeps R (withS m f)"
proof (rule keepsI)
  fix w r w'' assume "withS m f w = (r, w'')"
  then obtain x w' where "m w = (x, w')" "f x w' = (r, w'')" by (auto simp: withS_eq)
  then show "R w w''" using assms keepsD by (metis transpD)
qed

lemma keeps_bindS:
  assumes "reflp R" "transp R" "keeps R m" "\<And>x. keeps R (f x)"
  shows "keeps R (bindS m f)"
  unfolding bindS_def using assms
  by (intro keeps_withS) (auto split: sum.split)

lemma keeps_map_errS:
  assumes "reflp R" "transp R" "keeps R m"
  shows "keeps R (map_errS f m)"
  unfolding map_errS_def using assms
  by (intro keeps_withS) (auto split: sum.split)

end
