(* ===== verification/Rust_Str.thy ===== *)
theory Rust_Str
  imports Prelude
begin

text \<open>
  The part of Rust's \<open>str\<close> and integer parsing that the sources use. A Rust string is
  its UTF-8 bytes, so \<open>length\<close> is \<open>str::len\<close> and a \<open>char\<close> of the model is one byte.
  \<open>trim\<close> strips the Unicode \<open>White_Space\<close> characters, matched by their encodings.
\<close>

subsection \<open>Whitespace and trimming\<close>

definition ascii_ws :: "char \<Rightarrow> bool" where
  "ascii_ws c = (c = CHR 0x20 \<or> c = CHR 0x09 \<or> c = CHR 0x0A \<or> c = CHR 0x0B
     \<or> c = CHR 0x0C \<or> c = CHR 0x0D)"

definition ws2 :: "char \<Rightarrow> char \<Rightarrow> bool" where
  "ws2 a b = (a = CHR 0xC2 \<and> (b = CHR 0x85 \<or> b = CHR 0xA0))"

definition ws3 :: "char \<Rightarrow> char \<Rightarrow> char \<Rightarrow> bool" where
  "ws3 a b c =
     ((a = CHR 0xE1 \<and> b = CHR 0x9A \<and> c = CHR 0x80)
    \<or> (a = CHR 0xE2 \<and> b = CHR 0x80
        \<and> (c \<in> set [CHR 0x80, CHR 0x81, CHR 0x82, CHR 0x83, CHR 0x84, CHR 0x85, CHR 0x86,
                 CHR 0x87, CHR 0x88, CHR 0x89, CHR 0x8A, CHR 0xA8, CHR 0xA9, CHR 0xAF]))
    \<or> (a = CHR 0xE2 \<and> b = CHR 0x81 \<and> c = CHR 0x9F)
    \<or> (a = CHR 0xE3 \<and> b = CHR 0x80 \<and> c = CHR 0x80))"

text \<open>Number of bytes of the whitespace character the string starts with, 0 if none.\<close>

fun ws_len :: "string \<Rightarrow> nat" where
  "ws_len [] = 0"
| "ws_len [a] = (if ascii_ws a then 1 else 0)"
| "ws_len [a, b] = (if ascii_ws a then 1 else if ws2 a b then 2 else 0)"
| "ws_len (a # b # c # _) =
     (if ascii_ws a then 1 else if ws2 a b then 2 else if ws3 a b c then 3 else 0)"

text \<open>The same on the reversed string: the whitespace character the string ends with.\<close>

fun ws_len_rev :: "string \<Rightarrow> nat" where
  "ws_len_rev [] = 0"
| "ws_len_rev [a] = (if ascii_ws a then 1 else 0)"
| "ws_len_rev [a, b] = (if ascii_ws a then 1 else if ws2 b a then 2 else 0)"
| "ws_len_rev (a # b # c # _) =
     (if ascii_ws a then 1 else if ws2 b a then 2 else if ws3 c b a then 3 else 0)"

lemma ws_len_le: "ws_len s \<le> length s"
  by (cases s rule: ws_len.cases) auto

lemma ws_len_rev_le: "ws_len_rev s \<le> length s"
  by (cases s rule: ws_len_rev.cases) auto

text \<open>Drop leading characters as long as the measured prefix is not empty.\<close>

function drop_lead :: "(string \<Rightarrow> nat) \<Rightarrow> string \<Rightarrow> string" where
  "drop_lead f s = (if f s = 0 \<or> s = [] then s else drop_lead f (drop (f s) s))"
  by pat_completeness auto
termination
  by (relation "measure (\<lambda>(f, s). length s)") auto

declare drop_lead.simps [simp del]

definition trim_start :: "string \<Rightarrow> string" where
  "trim_start s = drop_lead ws_len s"

definition trim_end :: "string \<Rightarrow> string" where
  "trim_end s = rev (drop_lead ws_len_rev (rev s))"

definition trim :: "string \<Rightarrow> string" where
  "trim s = trim_end (trim_start s)"

lemma drop_lead_suffix: "\<exists>p. s = p @ drop_lead f s"
proof (induction f s rule: drop_lead.induct)
  case (1 f s)
  show ?case
  proof (cases "f s = 0 \<or> s = []")
    case True
    then show ?thesis by (simp add: drop_lead.simps [of f s])
  next
    case False
    with 1 obtain p where "drop (f s) s = p @ drop_lead f (drop (f s) s)" by blast
    then have "s = (take (f s) s @ p) @ drop_lead f (drop (f s) s)"
      by (metis append.assoc append_take_drop_id)
    moreover have "drop_lead f s = drop_lead f (drop (f s) s)"
      using False by (simp add: drop_lead.simps [of f s])
    ultimately show ?thesis by metis
  qed
qed

lemma drop_lead_fixed: "drop_lead f s = [] \<or> f (drop_lead f s) = 0"
proof (induction f s rule: drop_lead.induct)
  case (1 f s)
  then show ?case
    by (cases "f s = 0 \<or> s = []") (auto simp: drop_lead.simps [of f s])
qed

lemma drop_lead_id: "f s = 0 \<Longrightarrow> drop_lead f s = s"
  by (simp add: drop_lead.simps)

lemma drop_lead_idem: "drop_lead f (drop_lead f s) = drop_lead f s"
  using drop_lead_fixed [of f s] by (auto simp: drop_lead.simps [of f "drop_lead f s"])

lemma length_trim_le: "length (trim s) \<le> length s"
proof -
  obtain p q where p: "s = p @ drop_lead ws_len s"
    and q: "rev (trim_start s) = q @ drop_lead ws_len_rev (rev (trim_start s))"
    using drop_lead_suffix by blast
  have "length (trim s) \<le> length (trim_start s)"
    using arg_cong [OF q, of length] by (simp add: trim_def trim_end_def)
  also have "\<dots> \<le> length s"
    using arg_cong [OF p, of length] by (simp add: trim_start_def)
  finally show ?thesis .
qed

subsection \<open>Searching and splitting\<close>

text \<open>\<open>s.split_once(c)\<close>: at the first occurrence.\<close>

fun split_once :: "char \<Rightarrow> string \<Rightarrow> (string \<times> string) option" where
  "split_once c [] = None"
| "split_once c (x # xs) =
     (if x = c then Some ([], xs)
      else map_option (\<lambda>(l, r). (x # l, r)) (split_once c xs))"

text \<open>\<open>s.rsplit_once(c)\<close>: at the last occurrence.\<close>

definition rsplit_once :: "char \<Rightarrow> string \<Rightarrow> (string \<times> string) option" where
  "rsplit_once c s = map_option (\<lambda>(l, r). (rev r, rev l)) (split_once c (rev s))"

text \<open>\<open>s.split(c)\<close>: always at least one piece.\<close>

fun split_on :: "char \<Rightarrow> string \<Rightarrow> string list" where
  "split_on c [] = [[]]"
| "split_on c (x # xs) =
     (if x = c then [] # split_on c xs
      else (case split_on c xs of [] \<Rightarrow> [[x]] | p # ps \<Rightarrow> (x # p) # ps))"

fun strip_prefix :: "string \<Rightarrow> string \<Rightarrow> string option" where
  "strip_prefix [] s = Some s"
| "strip_prefix (p # ps) [] = None"
| "strip_prefix (p # ps) (x # xs) = (if p = x then strip_prefix ps xs else None)"

definition starts_with :: "string \<Rightarrow> string \<Rightarrow> bool" where
  "starts_with p s = (take (length p) s = p)"

fun contains_str :: "string \<Rightarrow> string \<Rightarrow> bool" where
  "contains_str p [] = (p = [])"
| "contains_str p (x # xs) = (starts_with p (x # xs) \<or> contains_str p xs)"

text \<open>
  \<open>s.lines()\<close>: pieces ended by a newline, the newline and one carriage return before it
  removed; a last piece without newline is kept as it is, and no piece follows a
  final newline.
\<close>

definition strip_cr :: "string \<Rightarrow> string" where
  "strip_cr l = (if l \<noteq> [] \<and> last l = CHR 0x0D then butlast l else l)"

fun lines_aux :: "string \<Rightarrow> string \<Rightarrow> string list" where
  "lines_aux acc [] = (if acc = [] then [] else [rev acc])"
| "lines_aux acc (x # xs) =
     (if x = CHR 0x0A then strip_cr (rev acc) # lines_aux [] xs
      else lines_aux (x # acc) xs)"

definition lines :: "string \<Rightarrow> string list" where
  "lines s = lines_aux [] s"

fun join :: "string \<Rightarrow> string list \<Rightarrow> string" where
  "join sep [] = []"
| "join sep [x] = x"
| "join sep (x # y # ys) = x @ sep @ join sep (y # ys)"

lemma split_once_Some:
  "split_once c s = Some (l, r) \<longleftrightarrow> s = l @ c # r \<and> c \<notin> set l"
proof (induction s arbitrary: l)
  case Nil
  then show ?case by simp
next
  case (Cons x xs)
  then show ?case by (cases l) auto
qed

lemma split_once_None: "split_once c s = None \<longleftrightarrow> c \<notin> set s"
  by (induction s) auto

lemma rsplit_once_Some:
  "rsplit_once c s = Some (l, r) \<longleftrightarrow> s = l @ c # r \<and> c \<notin> set r"
proof -
  have "rsplit_once c s = Some (l, r) \<longleftrightarrow> split_once c (rev s) = Some (rev r, rev l)"
    by (auto simp: rsplit_once_def)
  also have "\<dots> \<longleftrightarrow> rev s = rev r @ c # rev l \<and> c \<notin> set r"
    by (simp add: split_once_Some)
  also have "rev s = rev r @ c # rev l \<longleftrightarrow> s = l @ c # r"
  proof -
    have "rev r @ c # rev l = rev (l @ c # r)" by simp
    then show ?thesis by (metis rev_is_rev_conv)
  qed
  finally show ?thesis .
qed

lemma split_on_ne [simp]: "split_on c s \<noteq> []"
  by (induction s) (auto split: list.splits)

lemma split_on_single: "c \<notin> set s \<Longrightarrow> split_on c s = [s]"
  by (induction s) auto

lemma split_on_append: "c \<notin> set a \<Longrightarrow> split_on c (a @ c # s) = a # split_on c s"
  by (induction a) (auto split: list.splits)

lemma strip_prefix_append [simp]: "strip_prefix p (p @ s) = Some s"
  by (induction p) auto

lemma strip_prefix_Some: "strip_prefix p s = Some r \<longleftrightarrow> s = p @ r"
  by (induction p s rule: strip_prefix.induct) auto

lemma starts_with_simps [simp]:
  "starts_with [] s" "\<not> starts_with (p # ps) []"
  "starts_with (p # ps) (x # xs) = (p = x \<and> starts_with ps xs)"
  by (auto simp: starts_with_def)

lemma starts_with_append [simp]: "starts_with p (p @ s)"
  by (simp add: starts_with_def)

lemma starts_with_iff: "starts_with p s \<longleftrightarrow> (\<exists>r. s = p @ r)"
  by (metis append_take_drop_id append_eq_conv_conj starts_with_def)

subsection \<open>ASCII case\<close>

definition to_ascii_lower_char :: "char \<Rightarrow> char" where
  "to_ascii_lower_char c =
     (let n = of_char c :: nat in if 65 \<le> n \<and> n \<le> 90 then char_of (n + 32) else c)"

definition to_ascii_lowercase :: "string \<Rightarrow> string" where
  "to_ascii_lowercase s = List.map to_ascii_lower_char s"

definition eq_ignore_ascii_case :: "string \<Rightarrow> string \<Rightarrow> bool" where
  "eq_ignore_ascii_case a b = (to_ascii_lowercase a = to_ascii_lowercase b)"

lemma to_ascii_lower_char_idem [simp]:
  "to_ascii_lower_char (to_ascii_lower_char c) = to_ascii_lower_char c"
  by (auto simp: to_ascii_lower_char_def Let_def)

lemma to_ascii_lowercase_idem [simp]:
  "to_ascii_lowercase (to_ascii_lowercase s) = to_ascii_lowercase s"
  by (simp add: to_ascii_lowercase_def)

lemma to_ascii_lowercase_append [simp]:
  "to_ascii_lowercase (a @ b) = to_ascii_lowercase a @ to_ascii_lowercase b"
  by (simp add: to_ascii_lowercase_def)

subsection \<open>Numbers\<close>

text \<open>\<open>char::to_digit(radix)\<close> for radix 10 and 16.\<close>

definition to_digit :: "nat \<Rightarrow> char \<Rightarrow> nat option" where
  "to_digit radix c =
     (let n = of_char c;
          v = (if 48 \<le> n \<and> n \<le> 57 then Some (n - 48)
               else if 97 \<le> n \<and> n \<le> 102 then Some (n - 87)
               else if 65 \<le> n \<and> n \<le> 70 then Some (n - 55)
               else None)
      in case v of None \<Rightarrow> None | Some d \<Rightarrow> if d < radix then Some d else None)"

text \<open>The checked digit loop of \<open>from_str_radix\<close>, for an unsigned type with maximum \<open>mx\<close>.\<close>

fun digits_loop :: "nat \<Rightarrow> nat \<Rightarrow> nat \<Rightarrow> string \<Rightarrow> nat option" where
  "digits_loop radix mx acc [] = Some acc"
| "digits_loop radix mx acc (c # cs) =
     (case to_digit radix c of
        None \<Rightarrow> None
      | Some d \<Rightarrow> (let a = acc * radix + d in
                 if mx < a then None else digits_loop radix mx a cs))"

text \<open>
  \<open>from_str_radix\<close> of an unsigned type: no empty string, an optional leading plus sign
  (which alone is an error), no minus sign.
\<close>

definition from_str_radix :: "nat \<Rightarrow> nat \<Rightarrow> string \<Rightarrow> nat option" where
  "from_str_radix radix mx s =
     (case s of
        [] \<Rightarrow> None
      | c # cs \<Rightarrow>
          if c = CHR ''+'' then (if cs = [] then None else digits_loop radix mx 0 cs)
          else digits_loop radix mx 0 (c # cs))"

definition parse_uint :: "nat \<Rightarrow> string \<Rightarrow> nat option" where
  "parse_uint mx s = from_str_radix 10 mx s"

lemma digits_loop_le: "digits_loop radix mx acc s = Some n \<Longrightarrow> acc \<le> mx \<Longrightarrow> n \<le> mx"
  by (induction radix mx acc s rule: digits_loop.induct)
    (auto simp: Let_def split: option.splits if_splits)

lemma from_str_radix_le: "from_str_radix radix mx s = Some n \<Longrightarrow> n \<le> mx"
  by (auto simp: from_str_radix_def simp del: digits_loop.simps
      split: list.splits if_splits dest: digits_loop_le)

lemma parse_uint_le: "parse_uint mx s = Some n \<Longrightarrow> n \<le> mx"
  by (simp add: parse_uint_def from_str_radix_le)

definition digit_char :: "nat \<Rightarrow> char" where
  "digit_char d = (if d < 10 then char_of (48 + d) else char_of (87 + d))"

text \<open>Unpadded lower-case printing in the given radix (\<open>{}\<close> and \<open>{:x}\<close>).\<close>

function show_radix :: "nat \<Rightarrow> nat \<Rightarrow> string" where
  "show_radix radix n =
     (if n < radix \<or> radix < 2 then [digit_char n]
      else show_radix radix (n div radix) @ [digit_char (n mod radix)])"
  by pat_completeness auto
termination
  by (relation "measure snd") auto

declare show_radix.simps [simp del]

definition show_nat :: "nat \<Rightarrow> string" where
  "show_nat n = show_radix 10 n"

definition show_hex :: "nat \<Rightarrow> string" where
  "show_hex n = show_radix 16 n"

lemmas str_eval [eval_simps] =
  trim_def trim_start_def trim_end_def drop_lead.simps ascii_ws_def ws2_def ws3_def
  rsplit_once_def strip_cr_def lines_def to_ascii_lowercase_def
  to_ascii_lower_char_def eq_ignore_ascii_case_def to_digit_def from_str_radix_def
  parse_uint_def show_nat_def show_hex_def show_radix.simps digit_char_def

lemma to_digit_digit_char: "d < radix \<Longrightarrow> radix \<le> 16 \<Longrightarrow> to_digit radix (digit_char d) = Some d"
  by (auto simp: to_digit_def digit_char_def Let_def)

end
