(* ===== verification/Rust_Net.thy ===== *)
theory Rust_Net
  imports Rust_Str
begin

text \<open>
  The part of \<open>std::net\<close> the sources use: \<open>IpAddr\<close> as a 32-bit or 128-bit word, its
  textual form (\<open>Display\<close>) and its parser (\<open>FromStr\<close>, the recursive-descent reader of
  the standard library with its rules on leading zeros, digit counts, the compressed
  run of zeros and the embedded dotted IPv4 tail).
\<close>

datatype ip_addr = V4 u32 | V6 u128

fun is_ipv4 :: "ip_addr \<Rightarrow> bool" where
  "is_ipv4 (V4 _) = True"
| "is_ipv4 (V6 _) = False"

definition is_ipv6 :: "ip_addr \<Rightarrow> bool" where
  "is_ipv6 a = (\<not> is_ipv4 a)"

fun is_unspecified :: "ip_addr \<Rightarrow> bool" where
  "is_unspecified (V4 a) = (a = 0)"
| "is_unspecified (V6 a) = (a = 0)"

lemma is_ipv6_simps [simp]: "is_ipv6 (V4 a) = False" "is_ipv6 (V6 b) = True"
  by (simp_all add: is_ipv6_def)

lemma is_ipv4_iff: "is_ipv4 x \<longleftrightarrow> (\<exists>a. x = V4 a)"
  by (cases x) auto

lemma not_is_ipv4_iff: "\<not> is_ipv4 x \<longleftrightarrow> (\<exists>a. x = V6 a)"
  by (cases x) auto

datatype socket_addr = SocketAddr (sock_ip: ip_addr) (sock_port: u16)

subsection \<open>Display\<close>

definition octet :: "nat \<Rightarrow> u32 \<Rightarrow> nat" where
  "octet i a = unat (drop_bit (8 * (3 - i)) a AND 255)"

definition show_ipv4 :: "u32 \<Rightarrow> string" where
  "show_ipv4 a = show_nat (octet 0 a) @ ''.'' @ show_nat (octet 1 a) @ ''.''
     @ show_nat (octet 2 a) @ ''.'' @ show_nat (octet 3 a)"

definition segment :: "nat \<Rightarrow> u128 \<Rightarrow> nat" where
  "segment i a = unat (drop_bit (16 * (7 - i)) a AND 0xFFFF)"

definition segments :: "u128 \<Rightarrow> nat list" where
  "segments a = List.map (\<lambda>i. segment i a) [0..<8]"

text \<open>The first longest run of zero segments, as (start, length).\<close>

fun zero_run :: "nat \<Rightarrow> nat \<times> nat \<Rightarrow> nat \<times> nat \<Rightarrow> nat list \<Rightarrow> nat \<times> nat" where
  "zero_run i longest cur [] = longest"
| "zero_run i longest cur (x # xs) =
     (if x = 0 then
        let cur' = ((if snd cur = 0 then i else fst cur), snd cur + 1);
            longest' = (if snd longest < snd cur' then cur' else longest)
        in zero_run (Suc i) longest' cur' xs
      else zero_run (Suc i) longest (0, 0) xs)"

definition show_groups :: "nat list \<Rightarrow> string" where
  "show_groups gs = join '':'' (List.map show_hex gs)"

definition show_ipv6 :: "u128 \<Rightarrow> string" where
  "show_ipv6 a =
     (if drop_bit 32 a = 0xFFFF then ''::ffff:'' @ show_ipv4 (ucast a)
      else let gs = segments a; (start, len) = zero_run 0 (0, 0) (0, 0) gs
           in if 1 < len
              then show_groups (take start gs) @ ''::'' @ show_groups (drop (start + len) gs)
              else show_groups gs)"

fun show_ip :: "ip_addr \<Rightarrow> string" where
  "show_ip (V4 a) = show_ipv4 a"
| "show_ip (V6 a) = show_ipv6 a"

subsection \<open>The parser\<close>

type_synonym 'a reader = "string \<Rightarrow> ('a \<times> string) option"

definition read_given_char :: "char \<Rightarrow> unit reader" where
  "read_given_char c s = (case s of [] \<Rightarrow> None | x # xs \<Rightarrow> if x = c then Some ((), xs) else None)"

definition read_separator :: "char \<Rightarrow> nat \<Rightarrow> 'a reader \<Rightarrow> 'a reader" where
  "read_separator sep i inner s =
     (if 0 < i then (case read_given_char sep s of None \<Rightarrow> None | Some (_, r) \<Rightarrow> inner r)
      else inner s)"

text \<open>The digit loop of \<open>read_number\<close>: fails as soon as there are too many digits.\<close>

fun read_digits :: "nat \<Rightarrow> nat \<Rightarrow> nat \<Rightarrow> nat \<Rightarrow> string \<Rightarrow> (nat \<times> nat \<times> string) option" where
  "read_digits radix maxd cnt acc [] = Some (cnt, acc, [])"
| "read_digits radix maxd cnt acc (c # cs) =
     (case to_digit radix c of
        None \<Rightarrow> Some (cnt, acc, c # cs)
      | Some d \<Rightarrow> if maxd < cnt + 1 then None
                  else read_digits radix maxd (cnt + 1) (acc * radix + d) cs)"

definition read_number :: "nat \<Rightarrow> nat \<Rightarrow> bool \<Rightarrow> nat \<Rightarrow> nat reader" where
  "read_number radix maxd allow_zero_prefix mx s =
     (case read_digits radix maxd 0 0 s of
        None \<Rightarrow> None
      | Some (cnt, n, r) \<Rightarrow>
          if cnt = 0 then None
          else if \<not> allow_zero_prefix \<and> s \<noteq> [] \<and> hd s = CHR ''0'' \<and> 1 < cnt then None
          else if n \<le> mx then Some (n, r) else None)"

definition read_octet :: "nat \<Rightarrow> nat reader" where
  "read_octet i = read_separator CHR ''.'' i (read_number 10 3 False 255)"

definition ipv4_of_octets :: "nat \<Rightarrow> nat \<Rightarrow> nat \<Rightarrow> nat \<Rightarrow> u32" where
  "ipv4_of_octets a b c d = of_nat (((a * 256 + b) * 256 + c) * 256 + d)"

definition read_ipv4_octets :: "(nat \<times> nat \<times> nat \<times> nat) reader" where
  "read_ipv4_octets s =
     (case read_octet 0 s of None \<Rightarrow> None | Some (a, s1) \<Rightarrow>
      (case read_octet 1 s1 of None \<Rightarrow> None | Some (b, s2) \<Rightarrow>
       (case read_octet 2 s2 of None \<Rightarrow> None | Some (c, s3) \<Rightarrow>
        (case read_octet 3 s3 of None \<Rightarrow> None | Some (d, s4) \<Rightarrow> Some ((a, b, c, d), s4)))))"

text \<open>
  \<open>read_groups\<close>: up to \<open>k\<close> further groups of a slice, \<open>i\<close> already read. A dotted IPv4
  tail counts as two groups and ends the reading.
\<close>

fun read_groups :: "nat \<Rightarrow> nat \<Rightarrow> string \<Rightarrow> nat list \<times> bool \<times> string" where
  "read_groups 0 i s = ([], False, s)"
| "read_groups (Suc k) i s =
     (case (if 0 < k then read_separator CHR '':'' i read_ipv4_octets s else None) of
        Some ((a, b, c, d), r) \<Rightarrow> ([a * 256 + b, c * 256 + d], True, r)
      | None \<Rightarrow>
          (case read_separator CHR '':'' i (read_number 16 4 True 0xFFFF) s of
             None \<Rightarrow> ([], False, s)
           | Some (g, r) \<Rightarrow>
               (let (gs, v4, r') = read_groups k (Suc i) r in (g # gs, v4, r'))))"

lemmas read_groups_numeral =
  read_groups.simps(2) [of "pred_numeral k" for k, folded numeral_eq_Suc]

definition ipv6_of_groups :: "nat list \<Rightarrow> u128" where
  "ipv6_of_groups gs = of_nat (foldl (\<lambda>acc g. acc * 65536 + g) 0 gs)"

definition read_ipv6_addr :: "u128 reader" where
  "read_ipv6_addr s =
     (let (head, head_ipv4, r) = read_groups 8 0 s in
      if length head = 8 then Some (ipv6_of_groups head, r)
      else if head_ipv4 then None
      else (case read_given_char CHR '':'' r of None \<Rightarrow> None | Some (_, r1) \<Rightarrow>
            (case read_given_char CHR '':'' r1 of None \<Rightarrow> None | Some (_, r2) \<Rightarrow>
             (let (tail, _, r3) = read_groups (8 - (length head + 1)) 0 r2 in
              Some (ipv6_of_groups
                      (head @ replicate (8 - length head - length tail) 0 @ tail), r3)))))"

definition read_ip_addr :: "ip_addr reader" where
  "read_ip_addr s =
     (case read_ipv4_octets s of
        Some ((a, b, c, d), r) \<Rightarrow> Some (V4 (ipv4_of_octets a b c d), r)
      | None \<Rightarrow> (case read_ipv6_addr s of
                   None \<Rightarrow> None | Some (a, r) \<Rightarrow> Some (V6 a, r)))"

text \<open>\<open>IpAddr::from_str\<close>: the whole input must be consumed.\<close>

definition parse_ip :: "string \<Rightarrow> ip_addr option" where
  "parse_ip s =
     (case read_ip_addr s of Some (a, []) \<Rightarrow> Some a | _ \<Rightarrow> None)"

lemmas replicate_numeral_eval =
  replicate.simps(2) [of "pred_numeral k" for k, folded numeral_eq_Suc]

lemmas net_eval [eval_simps] = replicate_numeral_eval
  read_given_char_def read_separator_def read_number_def read_octet_def read_ipv4_octets_def
  ipv4_of_octets_def read_groups_numeral ipv6_of_groups_def read_ipv6_addr_def
  read_ip_addr_def parse_ip_def

subsection \<open>Printing and reading numbers\<close>

lemma show_radix_step:
  "2 \<le> r \<Longrightarrow> \<not> n < r \<Longrightarrow> show_radix r n = show_radix r (n div r) @ [digit_char (n mod r)]"
  by (simp add: show_radix.simps [of r n])

lemma show_radix_small: "n < r \<Longrightarrow> show_radix r n = [digit_char n]"
  by (simp add: show_radix.simps)

lemma show_radix_ne [simp]: "show_radix r n \<noteq> []"
  by (simp add: show_radix.simps)

lemma read_digits_show:
  assumes "2 \<le> r" "r \<le> 16" "cnt + length (show_radix r n) \<le> maxd"
  shows "read_digits r maxd cnt acc (show_radix r n @ s)
       = read_digits r maxd (cnt + length (show_radix r n))
           (acc * r ^ length (show_radix r n) + n) s"
  using assms
proof (induction r n arbitrary: s rule: show_radix.induct)
  case (1 r n)
  show ?case
  proof (cases "n < r")
    case True
    with "1.prems" show ?thesis by (simp add: show_radix_small to_digit_digit_char)
  next
    case False
    let ?m = "n div r" and ?d = "n mod r"
    let ?L = "length (show_radix r ?m)"
    have sh: "show_radix r n = show_radix r ?m @ [digit_char ?d]"
      using False "1.prems" by (simp add: show_radix_step)
    then have len: "length (show_radix r n) = Suc ?L" by simp
    have "read_digits r maxd cnt acc (show_radix r n @ s)
        = read_digits r maxd (cnt + ?L) (acc * r ^ ?L + ?m) (digit_char ?d # s)"
      using "1.IH" [of "digit_char ?d # s"] False "1.prems" sh len by simp
    also have "\<dots> = read_digits r maxd (Suc (cnt + ?L)) ((acc * r ^ ?L + ?m) * r + ?d) s"
      using "1.prems" len by (simp add: to_digit_digit_char)
    also have "(acc * r ^ ?L + ?m) * r + ?d = acc * r ^ Suc ?L + n"
      by (simp add: algebra_simps)
    finally show ?thesis using len by simp
  qed
qed

lemma digits_loop_show:
  assumes "2 \<le> r" "r \<le> 16" "acc * r ^ length (show_radix r n) + n \<le> mx"
  shows "digits_loop r mx acc (show_radix r n @ s)
       = digits_loop r mx (acc * r ^ length (show_radix r n) + n) s"
  using assms
proof (induction r n arbitrary: s rule: show_radix.induct)
  case (1 r n)
  show ?case
  proof (cases "n < r")
    case True
    with "1.prems" show ?thesis by (simp add: show_radix_small to_digit_digit_char)
  next
    case False
    let ?m = "n div r" and ?d = "n mod r"
    let ?L = "length (show_radix r ?m)"
    let ?a = "acc * r ^ ?L + ?m"
    have sh: "show_radix r n = show_radix r ?m @ [digit_char ?d]"
      using False "1.prems" by (simp add: show_radix_step)
    then have len: "length (show_radix r n) = Suc ?L" by simp
    have eq: "?a * r + ?d = acc * r ^ Suc ?L + n" by (simp add: algebra_simps)
    have "?a \<le> ?a * r" using "1.prems" by simp
    moreover have "acc * r ^ Suc ?L + n \<le> mx" using "1.prems"(3) by (simp only: len)
    ultimately have le: "?a \<le> mx" using eq by linarith
    have "digits_loop r mx acc (show_radix r n @ s)
        = digits_loop r mx ?a (digit_char ?d # s)"
      using "1.IH" [of "digit_char ?d # s"] False "1.prems"(1,2) le sh by simp
    also have "\<dots> = digits_loop r mx (?a * r + ?d) s"
      using "1.prems" len eq by (simp add: to_digit_digit_char Let_def)
    finally show ?thesis using eq len by simp
  qed
qed

lemma length_show_radix: "n < r ^ k \<Longrightarrow> 0 < k \<Longrightarrow> length (show_radix r n) \<le> k"
proof (induction r n arbitrary: k rule: show_radix.induct)
  case (1 r n)
  show ?case
  proof (cases "n < r \<or> r < 2")
    case True
    with "1.prems" show ?thesis by (simp add: show_radix.simps [of r n])
  next
    case False
    then obtain j where k: "k = Suc j" "0 < j"
      using "1.prems" by (cases k; cases "k - 1") auto
    then have "n div r < r ^ j"
      using "1.prems" by (simp add: less_mult_imp_div_less mult.commute)
    then have "length (show_radix r (n div r)) \<le> j"
      using "1.IH" False k by simp
    with False k show ?thesis by (simp add: show_radix.simps [of r n])
  qed
qed

lemma digit_char_zero: "digit_char 0 = CHR ''0''"
  by code_simp

lemma hd_show_radix_zero:
  assumes "2 \<le> r" "r \<le> 16" "hd (show_radix r n) = CHR ''0''"
  shows "n = 0"
  using assms
proof (induction r n rule: show_radix.induct)
  case (1 r n)
  show ?case
  proof (cases "n < r")
    case True
    then have "digit_char n = digit_char 0"
      using "1.prems" by (simp add: show_radix_small digit_char_zero)
    moreover have "to_digit 16 (digit_char n) = Some n" "to_digit 16 (digit_char 0) = Some 0"
      using True "1.prems" by (auto intro!: to_digit_digit_char)
    ultimately show ?thesis by simp
  next
    case False
    then have "n div r = 0"
      using "1.IH" "1.prems" by (simp add: show_radix_step)
    with False "1.prems" show ?thesis by (simp add: div_eq_0_iff)
  qed
qed

text \<open>A reader stops at the end of the input or at a character that is no digit.\<close>

definition stops :: "nat \<Rightarrow> string \<Rightarrow> bool" where
  "stops r s = (s = [] \<or> to_digit r (hd s) = None)"

lemma read_digits_stops: "stops r s \<Longrightarrow> read_digits r maxd cnt acc s = Some (cnt, acc, s)"
  by (cases s) (auto simp: stops_def)

lemma read_number_show:
  assumes r: "2 \<le> r" "r \<le> 16" and n: "n < r ^ maxd" "n \<le> mx" "0 < maxd" and s: "stops r s"
  shows "read_number r maxd z mx (show_radix r n @ s) = Some (n, s)"
proof -
  let ?L = "length (show_radix r n)"
  have L: "?L \<le> maxd" using n by (simp add: length_show_radix)
  then have "read_digits r maxd 0 0 (show_radix r n @ s) = Some (?L, n, s)"
    using read_digits_show [of r 0 n maxd 0 s] r s by (simp add: read_digits_stops)
  moreover have "?L = 1" if "hd (show_radix r n @ s) = CHR ''0''"
    using hd_show_radix_zero [of r n] that r by (simp add: show_radix_small)
  moreover have "?L \<noteq> 0" by simp
  ultimately show ?thesis using n by (auto simp: read_number_def)
qed

lemma show_nat_hd_digit: "hd (show_nat n) \<noteq> CHR ''+''"
proof (induction n rule: less_induct)
  case (less n)
  show ?case
  proof (cases "n < 10")
    case True
    then have "to_digit 10 (digit_char n) = Some n" by (simp add: to_digit_digit_char)
    moreover have "to_digit 10 CHR ''+'' = None" by (simp add: to_digit_def Let_def)
    ultimately show ?thesis using True by (auto simp: show_nat_def show_radix_small)
  next
    case False
    then show ?thesis using less [of "n div 10"] by (simp add: show_nat_def show_radix_step)
  qed
qed

lemma parse_uint_show: "n \<le> mx \<Longrightarrow> parse_uint mx (show_nat n) = Some n"
proof -
  assume n: "n \<le> mx"
  obtain c cs where c: "show_nat n = c # cs" "c \<noteq> CHR ''+''"
    using show_nat_hd_digit [of n] by (cases "show_nat n") (auto simp: show_nat_def)
  have "digits_loop 10 mx 0 (show_nat n) = Some n"
    using digits_loop_show [of 10 0 n mx "[]"] n by (simp add: show_nat_def)
  with c show ?thesis by (simp add: parse_uint_def from_str_radix_def)
qed

subsection \<open>IPv4 round trip\<close>

lemma octet_le: "octet i a \<le> 255"
proof -
  have "drop_bit (8 * (3 - i)) a AND 255 \<le> (255 :: u32)" by (rule word_and_le1)
  then show ?thesis by (simp add: octet_def word_le_nat_alt)
qed

lemma unat_u32_less: "unat (a :: u32) < 2 ^ 32"
  using unsigned_less [of a] by simp

lemma octet_unat: "octet i a = unat a div 2 ^ (8 * (3 - i)) mod 256"
proof -
  have "octet i a = unat (take_bit 8 (drop_bit (8 * (3 - i)) a))"
    by (simp add: octet_def take_bit_eq_mask mask_eq_exp_minus_1)
  also have "\<dots> = take_bit 8 (drop_bit (8 * (3 - i)) (unat a))"
    using take_bit_nat_eq_self [OF unat_u32_less [of a]]
    by (simp add: unsigned_take_bit_eq unsigned_drop_bit_eq)
  finally show ?thesis by (simp add: drop_bit_eq_div take_bit_eq_mod)
qed

lemma ipv4_of_octets_octet:
  "ipv4_of_octets (octet 0 a) (octet 1 a) (octet 2 a) (octet 3 a) = a"
proof -
  let ?n = "unat a"
  have lt: "?n < 2 ^ 32" by (rule unat_u32_less)
  let ?m1 = "?n div 256" and ?m2 = "?n div 256 div 256" and ?m3 = "?n div 256 div 256 div 256"
  have o: "octet 0 a = ?m3" "octet 1 a = ?m2 mod 256" "octet 2 a = ?m1 mod 256"
    "octet 3 a = ?n mod 256"
    using lt by (simp_all add: octet_unat div_mult2_eq [symmetric])
  have "((octet 0 a * 256 + octet 1 a) * 256 + octet 2 a) * 256 + octet 3 a = ?n"
    unfolding o by (simp only: div_mult_mod_eq)
  then show ?thesis by (simp add: ipv4_of_octets_def)
qed

lemma read_octet_show:
  "stops 10 s \<Longrightarrow> n \<le> 255 \<Longrightarrow> read_octet 0 (show_nat n @ s) = Some (n, s)"
  "stops 10 s \<Longrightarrow> n \<le> 255 \<Longrightarrow> 0 < i \<Longrightarrow> read_octet i (CHR ''.'' # show_nat n @ s) = Some (n, s)"
  using read_number_show [of 10 n 3 255 s False]
  by (simp_all add: read_octet_def read_separator_def read_given_char_def show_nat_def)

lemma stops_dot: "stops 10 (CHR ''.'' # s)"
  by (simp add: stops_def to_digit_def Let_def)

lemma read_ipv4_show:
  "stops 10 s \<Longrightarrow>
   read_ipv4_octets (show_ipv4 a @ s) = Some ((octet 0 a, octet 1 a, octet 2 a, octet 3 a), s)"
  by (simp add: read_ipv4_octets_def show_ipv4_def read_octet_show octet_le stops_dot)

lemma parse_ip_show_ipv4: "parse_ip (show_ip (V4 a)) = Some (V4 a)"
  using read_ipv4_show [of "[]" a]
  by (simp add: parse_ip_def read_ip_addr_def stops_def ipv4_of_octets_octet [simplified])

end
