(* ===== verification/Config_Types.thy ===== *)
theory Config_Types
  imports Rust_Net
begin

text \<open>
  \<open>src/core/config/types.rs\<close>: the parsed WireGuard configuration and the \<open>FromStr\<close>
  parsers of its leaf types. \<open>base64\<close>'s \<open>STANDARD.decode\<close> is a crate outside the
  repository and is the parameter \<open>b64\<close> of every definition that reaches it.
\<close>

subsection \<open>Data\<close>

datatype interface_address = InterfaceAddress (ia_addr: ip_addr) (ia_cidr: u8)

datatype route_table = RtAuto | RtOff | RtId u32

datatype allowed_ip = AllowedIp (addr: ip_addr) (cidr: u8)

record endpoint =
  ep_host :: string
  ep_port :: u16

datatype key = Key (as_bytes: "u8 list")

record interface_config =
  if_private_key :: key
  if_listen_port :: "u16 option"
  if_fwmark :: "u32 option"
  if_addresses :: "interface_address list"
  if_dns_servers :: "ip_addr list"
  if_dns_search :: "string list"
  if_mtu :: "u16 option"
  if_table :: "route_table option"

record peer_config =
  pc_public_key :: key
  pc_preshared_key :: "key option"
  pc_allowed_ips :: "allowed_ip list"
  pc_endpoint :: "endpoint option"
  pc_persistent_keepalive :: "u16 option"

record wireguard_config =
  wc_interface :: interface_config
  wc_peers :: "peer_config list"

record config_error =
  ce_line :: "nat option"
  ce_message :: string

definition config_error_new :: "nat option \<Rightarrow> string \<Rightarrow> config_error" where
  "config_error_new l m = \<lparr>ce_line = l, ce_message = m\<rparr>"

definition show_config_error :: "config_error \<Rightarrow> string" where
  "show_config_error e =
     (case ce_line e of
        Some l \<Rightarrow> ''line '' @ show_nat l @ '': '' @ ce_message e
      | None \<Rightarrow> ce_message e)"

subsection \<open>Parsers of the leaf types\<close>

definition parse_u8_value :: "string \<Rightarrow> u8 option" where
  "parse_u8_value s = map_option of_nat (parse_uint 255 s)"

definition parse_u16_value :: "string \<Rightarrow> u16 option" where
  "parse_u16_value s = map_option of_nat (parse_uint 65535 s)"

definition parse_u32_value :: "string \<Rightarrow> u32 option" where
  "parse_u32_value s = map_option of_nat (parse_uint 4294967295 s)"

text \<open>The final \<open>match addr\<close> both address parsers end with.\<close>

fun cidr_in_range :: "ip_addr \<Rightarrow> u8 \<Rightarrow> bool" where
  "cidr_in_range (V4 _) c = (c \<le> 32)"
| "cidr_in_range (V6 _) c = (c \<le> 128)"

definition full_cidr :: "ip_addr \<Rightarrow> u8" where
  "full_cidr a = (case a of V4 _ \<Rightarrow> 32 | V6 _ \<Rightarrow> 128)"

definition interface_address_from_str :: "string \<Rightarrow> string + interface_address" where
  "interface_address_from_str v0 =
     (let v = trim v0 in
      if v = [] then Inl ''address is empty''
      else
        bindE
          (case split_once CHR ''/'' v of
             Some (addr_str, cidr_str) \<Rightarrow>
               bindE (ok_or ''invalid ip'' (parse_ip addr_str)) (\<lambda>a.
               bindE (ok_or ''invalid cidr'' (parse_u8_value cidr_str)) (\<lambda>c.
               Inr (a, c)))
           | None \<Rightarrow>
               bindE (ok_or ''invalid ip'' (parse_ip v)) (\<lambda>a. Inr (a, full_cidr a)))
          (\<lambda>(a, c). if cidr_in_range a c then Inr (InterfaceAddress a c)
                    else Inl ''invalid cidr for ip version''))"

definition allowed_ip_from_str :: "string \<Rightarrow> string + allowed_ip" where
  "allowed_ip_from_str v =
     (case split_on CHR ''/'' v of
        [] \<Rightarrow> Inl ''missing ip''
      | p # ps \<Rightarrow>
          bindE (ok_or ''invalid ip'' (parse_ip p)) (\<lambda>a.
          (case ps of
             [] \<Rightarrow> Inl ''missing cidr''
           | q # qs \<Rightarrow>
               bindE (ok_or ''invalid cidr'' (parse_u8_value q)) (\<lambda>c.
               if qs \<noteq> [] then Inl ''invalid allowed ip format''
               else if cidr_in_range a c then Inr (AllowedIp a c)
               else Inl ''invalid cidr for ip version''))))"

definition endpoint_from_str :: "string \<Rightarrow> string + endpoint" where
  "endpoint_from_str v0 =
     (let v = trim v0 in
      if v = [] then Inl ''endpoint is empty''
      else
        bindE
          (case strip_prefix ''['' v of
             Some rest \<Rightarrow>
               bindE (ok_or ''missing ']' in endpoint'' (split_once CHR '']'' rest)) (\<lambda>(h, r).
               bindE (ok_or ''missing port in endpoint'' (strip_prefix '':'' r)) (\<lambda>port_str.
               Inr (h, port_str)))
           | None \<Rightarrow> ok_or ''missing port in endpoint'' (rsplit_once CHR '':'' v))
          (\<lambda>(h, port_str).
             if h = [] then Inl ''endpoint host is empty''
             else bindE (ok_or ''invalid endpoint port'' (parse_u16_value port_str)) (\<lambda>p.
                  if p = 0 then Inl ''endpoint port must be non-zero''
                  else Inr \<lparr>ep_host = h, ep_port = p\<rparr>)))"

text \<open>
  The 32 two-byte slices \<open>value[i * 2..=i * 2 + 1]\<close> of a hex key. Slicing a \<open>str\<close> off a
  character boundary panics: a slice that starts or ends before a UTF-8 continuation byte.
\<close>

definition is_continuation :: "char \<Rightarrow> bool" where
  "is_continuation c = (let n = of_char c :: nat in 128 \<le> n \<and> n < 192)"

fun hex_key_bytes :: "string \<Rightarrow> string failure + u8 list" where
  "hex_key_bytes [] = Inr []"
| "hex_key_bytes [_] = Inl Panic"
| "hex_key_bytes (a # b # rest) =
     (if is_continuation a \<or> (rest \<noteq> [] \<and> is_continuation (hd rest)) then Inl Panic
      else case from_str_radix 16 255 [a, b] of
             None \<Rightarrow> Inl (Err ''invalid hex key'')
           | Some n \<Rightarrow> bindE (hex_key_bytes rest) (\<lambda>bs. Inr (of_nat n # bs)))"

definition key_from_str :: "(string \<Rightarrow> u8 list option) \<Rightarrow> string \<Rightarrow> string failure + key" where
  "key_from_str b64 v0 =
     (let v = trim v0 in
      if v = [] then Inl (Err ''key is empty'')
      else if length v = 64 then bindE (hex_key_bytes v) (\<lambda>bs. Inr (Key bs))
      else if length v = 43 \<or> length v = 44 then
        (case b64 v of
           None \<Rightarrow> Inl (Err ''invalid base64 key'')
         | Some decoded \<Rightarrow>
             if length decoded \<noteq> 32 then Inl (Err ''invalid key length'')
             else Inr (Key decoded))
      else Inl (Err ''invalid key length''))"

subsection \<open>Well-formed values\<close>

definition wf_allowed :: "allowed_ip \<Rightarrow> bool" where
  "wf_allowed p = (cidr p \<le> (case addr p of V4 _ \<Rightarrow> 32 | V6 _ \<Rightarrow> 128))"

definition wf_interface_address :: "interface_address \<Rightarrow> bool" where
  "wf_interface_address a = (ia_cidr a \<le> (case ia_addr a of V4 _ \<Rightarrow> 32 | V6 _ \<Rightarrow> 128))"

definition wf_endpoint :: "endpoint \<Rightarrow> bool" where
  "wf_endpoint e = (ep_host e \<noteq> [] \<and> ep_port e \<noteq> 0)"

definition wf_key :: "key \<Rightarrow> bool" where
  "wf_key k = (length (as_bytes k) = 32)"

lemma cidr_in_range_iff: "cidr_in_range a c \<longleftrightarrow> c \<le> (case a of V4 _ \<Rightarrow> 32 | V6 _ \<Rightarrow> 128)"
  by (cases a) simp_all

lemma interface_address_wf:
  "interface_address_from_str v = Inr a \<Longrightarrow> wf_interface_address a"
  by (auto simp: interface_address_from_str_def wf_interface_address_def cidr_in_range_iff Let_def
      bindE_eq_Inr split: if_splits option.splits)

lemma allowed_ip_wf: "allowed_ip_from_str v = Inr p \<Longrightarrow> wf_allowed p"
  by (cases "split_on CHR ''/'' v"; cases "tl (split_on CHR ''/'' v)")
    (auto simp: allowed_ip_from_str_def wf_allowed_def cidr_in_range_iff bindE_eq_Inr
      split: if_splits)

lemma endpoint_wf: "endpoint_from_str v = Inr e \<Longrightarrow> wf_endpoint e"
  by (auto simp: endpoint_from_str_def wf_endpoint_def Let_def bindE_eq_Inr
      split: if_splits option.splits)

lemma hex_key_bytes_length: "hex_key_bytes s = Inr bs \<Longrightarrow> length s = 2 * length bs"
  by (induction s arbitrary: bs rule: hex_key_bytes.induct)
    (auto simp: bindE_eq_Inr split: if_splits option.splits)

lemma key_wf: "key_from_str b64 v = Inr k \<Longrightarrow> wf_key k"
  by (auto simp: key_from_str_def wf_key_def Let_def bindE_eq_Inr
      split: if_splits option.splits dest: hex_key_bytes_length)

subsection \<open>Panics\<close>

definition is_ascii :: "string \<Rightarrow> bool" where
  "is_ascii s = list_all (\<lambda>c. (of_char c :: nat) < 128) s"

lemma is_ascii_append [simp]: "is_ascii (a @ b) = (is_ascii a \<and> is_ascii b)"
  by (simp add: is_ascii_def)

lemma is_ascii_Cons [simp]: "is_ascii (c # s) = ((of_char c :: nat) < 128 \<and> is_ascii s)"
  by (simp add: is_ascii_def)

lemma is_ascii_Nil [simp]: "is_ascii []"
  by (simp add: is_ascii_def)

lemma is_ascii_rev [simp]: "is_ascii (rev s) = is_ascii s"
  by (simp add: is_ascii_def)

lemma is_ascii_trim: "is_ascii s \<Longrightarrow> is_ascii (trim s)"
proof -
  have lead: "is_ascii (drop_lead f s)" if "is_ascii s" for f s
    using drop_lead_suffix [of s f] that by (metis is_ascii_append)
  assume "is_ascii s"
  then show ?thesis by (simp add: trim_def trim_start_def trim_end_def lead)
qed

lemma is_ascii_no_continuation: "is_ascii s \<Longrightarrow> c \<in> set s \<Longrightarrow> \<not> is_continuation c"
  by (auto simp: is_ascii_def list_all_iff is_continuation_def Let_def)

lemma hex_key_bytes_no_panic:
  "is_ascii s \<Longrightarrow> even (length s) \<Longrightarrow> hex_key_bytes s \<noteq> Inl Panic"
proof (induction s rule: hex_key_bytes.induct)
  case (3 a b rest)
  have "\<not> is_continuation a" "rest \<noteq> [] \<Longrightarrow> \<not> is_continuation (hd rest)"
    using is_ascii_no_continuation [OF "3.prems"(1)] by auto
  then show ?case using 3 by (auto simp: bindE_eq_Inl split: option.splits)
qed auto

lemma key_from_str_no_panic: "is_ascii v \<Longrightarrow> key_from_str b64 v \<noteq> Inl Panic"
  using hex_key_bytes_no_panic [of "trim v"]
  by (auto simp: key_from_str_def Let_def bindE_eq_Inl is_ascii_trim split: option.splits)

lemmas types_eval [eval_simps] =
  parse_u8_value_def parse_u16_value_def parse_u32_value_def full_cidr_def
  interface_address_from_str_def allowed_ip_from_str_def endpoint_from_str_def
  is_continuation_def key_from_str_def config_error_new_def

end
