(* ===== verification/Config_Parser.thy ===== *)
theory Config_Parser
  imports Config_Types
begin

text \<open>
  \<open>src/core/config/parser.rs\<close>: the line-oriented parser of WireGuard configurations. The
  loop of \<open>parse_config\<close> is a fold of \<open>parse_line\<close> over the numbered lines, on a record
  that holds the loop's local variables. An error is a value of
  \<open>config_error failure\<close>: \<open>Err\<close> for the returned \<open>ConfigError\<close>, \<open>Panic\<close> for a panic.
\<close>

datatype config_section = SecInterface | SecPeer

record interface_builder =
  ib_private_key :: "key option"
  ib_listen_port :: "u16 option"
  ib_fwmark :: "u32 option"
  ib_addresses :: "interface_address list"
  ib_dns_servers :: "ip_addr list"
  ib_dns_search :: "string list"
  ib_mtu :: "u16 option"
  ib_table :: "route_table option"

definition interface_builder_default :: interface_builder where
  "interface_builder_default =
     \<lparr>ib_private_key = None, ib_listen_port = None, ib_fwmark = None, ib_addresses = [],
      ib_dns_servers = [], ib_dns_search = [], ib_mtu = None, ib_table = None\<rparr>"

record peer_builder =
  pb_start_line :: nat
  pb_public_key :: "key option"
  pb_preshared_key :: "key option"
  pb_allowed_ips :: "allowed_ip list"
  pb_endpoint :: "endpoint option"
  pb_persistent_keepalive :: "u16 option"

type_synonym 'a parse_result = "config_error failure + 'a"

definition perr :: "nat option \<Rightarrow> string \<Rightarrow> 'a parse_result" where
  "perr l m = Inl (Err (config_error_new l m))"

definition lift_str_err :: "(string \<Rightarrow> config_error) \<Rightarrow> string + 'a \<Rightarrow> 'a parse_result" where
  "lift_str_err f r = map_err (\<lambda>m. Err (f m)) r"

definition interface_builder_finish ::
  "interface_builder \<Rightarrow> nat option \<Rightarrow> interface_config parse_result" where
  "interface_builder_finish b l =
     (case ib_private_key b of
        None \<Rightarrow> perr l ''missing PrivateKey in [Interface] section''
      | Some k \<Rightarrow> Inr
          \<lparr>if_private_key = k, if_listen_port = ib_listen_port b, if_fwmark = ib_fwmark b,
           if_addresses = ib_addresses b, if_dns_servers = ib_dns_servers b,
           if_dns_search = ib_dns_search b, if_mtu = ib_mtu b, if_table = ib_table b\<rparr>)"

definition peer_builder_new :: "nat \<Rightarrow> peer_builder" where
  "peer_builder_new l =
     \<lparr>pb_start_line = l, pb_public_key = None, pb_preshared_key = None,
      pb_allowed_ips = [], pb_endpoint = None, pb_persistent_keepalive = None\<rparr>"

definition peer_builder_finish :: "peer_builder \<Rightarrow> peer_config parse_result" where
  "peer_builder_finish b =
     (case pb_public_key b of
        None \<Rightarrow> perr (Some (pb_start_line b)) ''missing PublicKey in [Peer] section''
      | Some k \<Rightarrow> Inr
          \<lparr>pc_public_key = k, pc_preshared_key = pb_preshared_key b,
           pc_allowed_ips = pb_allowed_ips b, pc_endpoint = pb_endpoint b,
           pc_persistent_keepalive = pb_persistent_keepalive b\<rparr>)"

subsection \<open>Values\<close>

definition parse_key ::
  "(string \<Rightarrow> u8 list option) \<Rightarrow> string \<Rightarrow> nat \<Rightarrow> key parse_result" where
  "parse_key b64 v l =
     (case key_from_str b64 v of
        Inl Panic \<Rightarrow> Inl Panic
      | Inl (Err m) \<Rightarrow> perr (Some l) (''invalid key: '' @ m)
      | Inr k \<Rightarrow> Inr k)"

text \<open>The comma loop of the list-valued fields: blank items are skipped.\<close>

definition comma_items :: "string \<Rightarrow> string list" where
  "comma_items v = filter (\<lambda>x. x \<noteq> []) (List.map trim (split_on CHR '','' v))"

definition parse_allowed_ips :: "string \<Rightarrow> nat \<Rightarrow> allowed_ip list parse_result" where
  "parse_allowed_ips v l =
     bindE (mapE (\<lambda>x. lift_str_err
              (\<lambda>m. config_error_new (Some l) (''invalid AllowedIPs entry: '' @ m))
              (allowed_ip_from_str x)) (comma_items v))
       (\<lambda>out. if out = [] then perr (Some l) ''AllowedIPs must contain at least one entry''
              else Inr out)"

definition parse_interface_addresses ::
  "string \<Rightarrow> nat \<Rightarrow> interface_address list parse_result" where
  "parse_interface_addresses v l =
     bindE (mapE (\<lambda>x. lift_str_err
              (\<lambda>m. config_error_new (Some l) (''invalid Address entry: '' @ m))
              (interface_address_from_str x)) (comma_items v))
       (\<lambda>out. if out = [] then perr (Some l) ''Address must contain at least one entry''
              else Inr out)"

fun dns_entries_loop :: "string list \<Rightarrow> ip_addr list \<times> string list" where
  "dns_entries_loop [] = ([], [])"
| "dns_entries_loop (x # xs) =
     (let (servers, search) = dns_entries_loop xs in
      case parse_ip x of
        Some ip \<Rightarrow> (ip # servers, search)
      | None \<Rightarrow> (servers, x # search))"

definition parse_dns_entries ::
  "string \<Rightarrow> nat \<Rightarrow> (ip_addr list \<times> string list) parse_result" where
  "parse_dns_entries v l =
     (let (servers, search) = dns_entries_loop (comma_items v) in
      if servers = [] \<and> search = [] then perr (Some l) ''DNS must not be empty''
      else Inr (servers, search))"

definition parse_table :: "string \<Rightarrow> nat \<Rightarrow> route_table parse_result" where
  "parse_table v0 l =
     (let v = trim v0 in
      if eq_ignore_ascii_case v ''auto'' then Inr RtAuto
      else if eq_ignore_ascii_case v ''off'' then Inr RtOff
      else case parse_u32_value v of
             None \<Rightarrow> perr (Some l) ''invalid Table value''
           | Some t \<Rightarrow> Inr (RtId t))"

definition parse_u16 :: "string \<Rightarrow> nat \<Rightarrow> string \<Rightarrow> u16 parse_result" where
  "parse_u16 v l nm =
     (case parse_u16_value v of
        None \<Rightarrow> perr (Some l) (''invalid '' @ nm @ '' value'')
      | Some n \<Rightarrow> Inr n)"

definition parse_fwmark :: "string \<Rightarrow> nat \<Rightarrow> u32 option parse_result" where
  "parse_fwmark v0 l =
     (let v = trim v0 in
      if eq_ignore_ascii_case v ''off'' \<or> v = ''0'' then Inr None
      else case strip_prefix ''0x'' v of
             Some hex \<Rightarrow>
               (case from_str_radix 16 4294967295 hex of
                  None \<Rightarrow> perr (Some l) ''invalid FwMark hex value''
                | Some n \<Rightarrow> Inr (Some (of_nat n)))
           | None \<Rightarrow>
               (case parse_u32_value v of
                  None \<Rightarrow> perr (Some l) ''invalid FwMark value''
                | Some n \<Rightarrow> Inr (Some n)))"

subsection \<open>Lines\<close>

definition strip_comments :: "string \<Rightarrow> string" where
  "strip_comments l = takeWhile (\<lambda>c. c \<noteq> CHR ''#'' \<and> c \<noteq> CHR '';'') l"

text \<open>
  \<open>&line[1..line.len() - 1]\<close> on the single character \<open>[\<close> is not reached: the line must
  start with one bracket and end with the other, so it has at least two bytes.
\<close>

definition parse_section_header :: "string \<Rightarrow> string option" where
  "parse_section_header l0 =
     (let l = trim l0 in
      if \<not> starts_with ''['' l \<or> l = [] \<or> last l \<noteq> CHR '']'' then None
      else Some (trim (butlast (tl l))))"

definition split_key_value :: "string \<Rightarrow> nat \<Rightarrow> (string \<times> string) parse_result" where
  "split_key_value l n =
     (case split_once CHR ''='' l of
        None \<Rightarrow> perr (Some n) ''expected key = value''
      | Some (k, v) \<Rightarrow>
          let k' = trim k; v' = trim v in
          if k' = [] then perr (Some n) ''empty key''
          else if v' = [] then perr (Some n) ''empty value''
          else Inr (to_ascii_lowercase k', v'))"

definition parse_interface_kv ::
  "(string \<Rightarrow> u8 list option) \<Rightarrow> interface_builder \<Rightarrow> string \<Rightarrow> string \<Rightarrow> nat
   \<Rightarrow> interface_builder parse_result" where
  "parse_interface_kv b64 b k v l =
     (if k = ''privatekey'' then
        (if ib_private_key b \<noteq> None
         then perr (Some l) ''duplicate PrivateKey in [Interface] section''
         else bindE (parse_key b64 v l) (\<lambda>x. Inr (b\<lparr>ib_private_key := Some x\<rparr>)))
      else if k = ''listenport'' then
        (if ib_listen_port b \<noteq> None
         then perr (Some l) ''duplicate ListenPort in [Interface] section''
         else bindE (parse_u16 v l ''ListenPort'') (\<lambda>x. Inr (b\<lparr>ib_listen_port := Some x\<rparr>)))
      else if k = ''fwmark'' then
        (if ib_fwmark b \<noteq> None
         then perr (Some l) ''duplicate FwMark in [Interface] section''
         else bindE (parse_fwmark v l) (\<lambda>x. Inr (b\<lparr>ib_fwmark := x\<rparr>)))
      else if k = ''address'' then
        bindE (parse_interface_addresses v l)
          (\<lambda>xs. Inr (b\<lparr>ib_addresses := ib_addresses b @ xs\<rparr>))
      else if k = ''dns'' then
        bindE (parse_dns_entries v l)
          (\<lambda>(servers, search). Inr (b\<lparr>ib_dns_servers := ib_dns_servers b @ servers,
                                    ib_dns_search := ib_dns_search b @ search\<rparr>))
      else if k = ''mtu'' then
        (if ib_mtu b \<noteq> None
         then perr (Some l) ''duplicate MTU in [Interface] section''
         else bindE (parse_u16 v l ''MTU'') (\<lambda>x. Inr (b\<lparr>ib_mtu := Some x\<rparr>)))
      else if k = ''table'' then
        (if ib_table b \<noteq> None
         then perr (Some l) ''duplicate Table in [Interface] section''
         else bindE (parse_table v l) (\<lambda>x. Inr (b\<lparr>ib_table := Some x\<rparr>)))
      else perr (Some l) (''unsupported [Interface] key: '' @ k))"

definition parse_peer_kv ::
  "(string \<Rightarrow> u8 list option) \<Rightarrow> peer_builder \<Rightarrow> string \<Rightarrow> string \<Rightarrow> nat
   \<Rightarrow> peer_builder parse_result" where
  "parse_peer_kv b64 b k v l =
     (if k = ''publickey'' then
        (if pb_public_key b \<noteq> None
         then perr (Some l) ''duplicate PublicKey in [Peer] section''
         else bindE (parse_key b64 v l) (\<lambda>x. Inr (b\<lparr>pb_public_key := Some x\<rparr>)))
      else if k = ''presharedkey'' then
        (if pb_preshared_key b \<noteq> None
         then perr (Some l) ''duplicate PresharedKey in [Peer] section''
         else bindE (parse_key b64 v l) (\<lambda>x. Inr (b\<lparr>pb_preshared_key := Some x\<rparr>)))
      else if k = ''allowedips'' then
        bindE (parse_allowed_ips v l)
          (\<lambda>xs. Inr (b\<lparr>pb_allowed_ips := pb_allowed_ips b @ xs\<rparr>))
      else if k = ''endpoint'' then
        (if pb_endpoint b \<noteq> None
         then perr (Some l) ''duplicate Endpoint in [Peer] section''
         else bindE (lift_str_err
                (\<lambda>m. config_error_new (Some l) (''invalid Endpoint: '' @ m))
                (endpoint_from_str v)) (\<lambda>x. Inr (b\<lparr>pb_endpoint := Some x\<rparr>)))
      else if k = ''persistentkeepalive'' then
        (if pb_persistent_keepalive b \<noteq> None
         then perr (Some l) ''duplicate PersistentKeepalive in [Peer] section''
         else bindE (parse_u16 v l ''PersistentKeepalive'')
                (\<lambda>x. Inr (b\<lparr>pb_persistent_keepalive := Some x\<rparr>)))
      else perr (Some l) (''unsupported [Peer] key: '' @ k))"

subsection \<open>The parser loop\<close>

record parser_state =
  ps_section :: "config_section option"
  ps_interface :: interface_builder
  ps_interface_line :: "nat option"
  ps_peers :: "peer_config list"
  ps_current_peer :: "peer_builder option"
  ps_seen_interface :: bool

definition parser_init :: parser_state where
  "parser_init =
     \<lparr>ps_section = None, ps_interface = interface_builder_default, ps_interface_line = None,
      ps_peers = [], ps_current_peer = None, ps_seen_interface = False\<rparr>"

text \<open>\<open>if let Some(peer) = current_peer.take() { peers.push(peer.finish()?); }\<close>\<close>

definition flush_peer :: "parser_state \<Rightarrow> parser_state parse_result" where
  "flush_peer s =
     (case ps_current_peer s of
        None \<Rightarrow> Inr s
      | Some b \<Rightarrow> bindE (peer_builder_finish b)
          (\<lambda>p. Inr (s\<lparr>ps_current_peer := None, ps_peers := ps_peers s @ [p]\<rparr>)))"

definition parse_header :: "parser_state \<Rightarrow> string \<Rightarrow> nat \<Rightarrow> parser_state parse_result" where
  "parse_header s name l =
     (if to_ascii_lowercase name = ''interface'' then
        (if ps_seen_interface s
         then perr (Some l) ''multiple [Interface] sections are not supported''
         else bindE (flush_peer s)
           (\<lambda>s. Inr (s\<lparr>ps_seen_interface := True, ps_interface_line := Some l,
                      ps_section := Some SecInterface\<rparr>)))
      else if to_ascii_lowercase name = ''peer'' then
        bindE (flush_peer s)
          (\<lambda>s. Inr (s\<lparr>ps_current_peer := Some (peer_builder_new l),
                     ps_section := Some SecPeer\<rparr>))
      else perr (Some l) (''unsupported section ['' @ name @ '']''))"

definition parse_pair ::
  "(string \<Rightarrow> u8 list option) \<Rightarrow> parser_state \<Rightarrow> string \<Rightarrow> nat \<Rightarrow> parser_state parse_result"
where
  "parse_pair b64 s line l =
     (case ps_section s of
        None \<Rightarrow> perr (Some l) ''key/value pair found before any section header''
      | Some active \<Rightarrow>
          bindE (split_key_value line l) (\<lambda>(k, v).
          case active of
            SecInterface \<Rightarrow>
              bindE (parse_interface_kv b64 (ps_interface s) k v l)
                (\<lambda>b. Inr (s\<lparr>ps_interface := b\<rparr>))
          | SecPeer \<Rightarrow>
              (case ps_current_peer s of
                 None \<Rightarrow> perr (Some l) ''peer key/value without [Peer] section''
               | Some p \<Rightarrow> bindE (parse_peer_kv b64 p k v l)
                   (\<lambda>b. Inr (s\<lparr>ps_current_peer := Some b\<rparr>)))))"

definition parse_line ::
  "(string \<Rightarrow> u8 list option) \<Rightarrow> parser_state \<Rightarrow> nat \<Rightarrow> string \<Rightarrow> parser_state parse_result"
where
  "parse_line b64 s l raw =
     (let line = trim (strip_comments raw) in
      if line = [] then Inr s
      else case parse_section_header line of
             Some name \<Rightarrow> parse_header s name l
           | None \<Rightarrow> parse_pair b64 s line l)"

fun parse_lines ::
  "(string \<Rightarrow> u8 list option) \<Rightarrow> nat \<Rightarrow> parser_state \<Rightarrow> string list \<Rightarrow> parser_state parse_result"
where
  "parse_lines b64 l s [] = Inr s"
| "parse_lines b64 l s (x # xs) =
     bindE (parse_line b64 s l x) (\<lambda>s'. parse_lines b64 (Suc l) s' xs)"

definition parse_finish :: "parser_state \<Rightarrow> wireguard_config parse_result" where
  "parse_finish s0 =
     bindE (flush_peer s0) (\<lambda>s.
     if \<not> ps_seen_interface s then perr None ''missing [Interface] section''
     else bindE (interface_builder_finish (ps_interface s) (ps_interface_line s)) (\<lambda>i.
          Inr \<lparr>wc_interface = i, wc_peers = ps_peers s\<rparr>))"

text \<open>\<open>input.trim_start_matches('\u{feff}')\<close>: every leading byte order mark.\<close>

definition bom_len :: "string \<Rightarrow> nat" where
  "bom_len s = (if starts_with [CHR 0xEF, CHR 0xBB, CHR 0xBF] s then 3 else 0)"

definition parse_config ::
  "(string \<Rightarrow> u8 list option) \<Rightarrow> string \<Rightarrow> wireguard_config parse_result" where
  "parse_config b64 input =
     bindE (parse_lines b64 1 parser_init (lines (drop_lead bom_len input))) parse_finish"

subsection \<open>Well-formedness of what the parser returns\<close>

definition wf_peer :: "peer_config \<Rightarrow> bool" where
  "wf_peer p = (wf_key (pc_public_key p) \<and> pred_option wf_key (pc_preshared_key p)
     \<and> list_all wf_allowed (pc_allowed_ips p) \<and> pred_option wf_endpoint (pc_endpoint p))"

definition wf_interface :: "interface_config \<Rightarrow> bool" where
  "wf_interface i =
     (wf_key (if_private_key i) \<and> list_all wf_interface_address (if_addresses i))"

definition wf_config :: "wireguard_config \<Rightarrow> bool" where
  "wf_config c = (wf_interface (wc_interface c) \<and> list_all wf_peer (wc_peers c))"

definition wf_interface_builder :: "interface_builder \<Rightarrow> bool" where
  "wf_interface_builder b =
     (pred_option wf_key (ib_private_key b) \<and> list_all wf_interface_address (ib_addresses b))"

definition wf_peer_builder :: "peer_builder \<Rightarrow> bool" where
  "wf_peer_builder b = (pred_option wf_key (pb_public_key b)
     \<and> pred_option wf_key (pb_preshared_key b) \<and> list_all wf_allowed (pb_allowed_ips b)
     \<and> pred_option wf_endpoint (pb_endpoint b))"

definition wf_parser_state :: "parser_state \<Rightarrow> bool" where
  "wf_parser_state s = (wf_interface_builder (ps_interface s)
     \<and> list_all wf_peer (ps_peers s) \<and> pred_option wf_peer_builder (ps_current_peer s))"

lemmas wf_parser_defs =
  wf_peer_def wf_interface_def wf_config_def wf_interface_builder_def wf_peer_builder_def
  wf_parser_state_def

lemma perr_not_Inr [simp]: "perr l m \<noteq> Inr x" "Inr x \<noteq> perr l m"
  by (simp_all add: perr_def)

lemma parse_key_wf: "parse_key b64 v l = Inr k \<Longrightarrow> wf_key k"
  by (auto simp: parse_key_def split: sum.splits failure.splits dest: key_wf)

lemma parse_allowed_ips_wf: "parse_allowed_ips v l = Inr xs \<Longrightarrow> list_all wf_allowed xs"
  by (auto simp: parse_allowed_ips_def bindE_eq_Inr mapE_Inr_iff lift_str_err_def
      list_all2_conv_all_nth list_all_length split: if_splits dest: allowed_ip_wf)

lemma parse_interface_addresses_wf:
  "parse_interface_addresses v l = Inr xs \<Longrightarrow> list_all wf_interface_address xs"
  by (auto simp: parse_interface_addresses_def bindE_eq_Inr mapE_Inr_iff lift_str_err_def
      list_all2_conv_all_nth list_all_length split: if_splits dest: interface_address_wf)

lemma parse_interface_kv_wf:
  "parse_interface_kv b64 b k v l = Inr b' \<Longrightarrow> wf_interface_builder b
   \<Longrightarrow> wf_interface_builder b'"
  by (auto simp: parse_interface_kv_def bindE_eq_Inr wf_interface_builder_def
      split: if_splits dest: parse_key_wf parse_interface_addresses_wf)

lemma parse_peer_kv_wf:
  "parse_peer_kv b64 b k v l = Inr b' \<Longrightarrow> wf_peer_builder b \<Longrightarrow> wf_peer_builder b'"
  by (auto simp: parse_peer_kv_def bindE_eq_Inr wf_peer_builder_def lift_str_err_def
      split: if_splits dest: parse_key_wf parse_allowed_ips_wf endpoint_wf)

lemma flush_peer_wf: "flush_peer s = Inr s' \<Longrightarrow> wf_parser_state s \<Longrightarrow> wf_parser_state s'"
  by (auto simp: flush_peer_def peer_builder_finish_def bindE_eq_Inr wf_parser_defs
      split: option.splits)

lemma parse_header_wf:
  "parse_header s n l = Inr s' \<Longrightarrow> wf_parser_state s \<Longrightarrow> wf_parser_state s'"
  by (auto simp: parse_header_def bindE_eq_Inr split: if_splits dest!: flush_peer_wf)
    (auto simp: wf_parser_defs peer_builder_new_def)

lemma parse_pair_wf:
  "parse_pair b64 s x l = Inr s' \<Longrightarrow> wf_parser_state s \<Longrightarrow> wf_parser_state s'"
  by (auto simp: parse_pair_def bindE_eq_Inr wf_parser_state_def
      split: option.splits config_section.splits prod.splits)
    (blast dest: parse_interface_kv_wf parse_peer_kv_wf)+

lemma parse_line_wf:
  "parse_line b64 s l x = Inr s' \<Longrightarrow> wf_parser_state s \<Longrightarrow> wf_parser_state s'"
  by (auto simp: parse_line_def Let_def split: if_splits option.splits
      dest: parse_header_wf parse_pair_wf)

lemma parse_lines_wf:
  "parse_lines b64 l s xs = Inr s' \<Longrightarrow> wf_parser_state s \<Longrightarrow> wf_parser_state s'"
  by (induction b64 l s xs rule: parse_lines.induct)
    (auto simp: bindE_eq_Inr dest: parse_line_wf)

lemma wf_parser_init: "wf_parser_state parser_init"
  by (simp add: parser_init_def interface_builder_default_def wf_parser_defs)

lemma parse_finish_wf: "parse_finish s = Inr c \<Longrightarrow> wf_parser_state s \<Longrightarrow> wf_config c"
  by (auto simp: parse_finish_def bindE_eq_Inr interface_builder_finish_def
      split: if_splits option.splits dest!: flush_peer_wf) (auto simp: wf_parser_defs)

lemma parse_config_wf: "parse_config b64 input = Inr c \<Longrightarrow> wf_config c"
  by (auto simp: parse_config_def bindE_eq_Inr
      intro: parse_finish_wf parse_lines_wf wf_parser_init)

subsection \<open>Sections\<close>

text \<open>The lower-cased section names of the text, in order.\<close>

definition section_of_line :: "string \<Rightarrow> string option" where
  "section_of_line raw =
     (let line = trim (strip_comments raw) in
      if line = [] then None else map_option to_ascii_lowercase (parse_section_header line))"

definition section_names :: "string list \<Rightarrow> string list" where
  "section_names xs = List.map_filter section_of_line xs"

definition pending_peers :: "parser_state \<Rightarrow> nat" where
  "pending_peers s =
     length (ps_peers s) + (case ps_current_peer s of None \<Rightarrow> 0 | Some _ \<Rightarrow> 1)"

lemma section_names_simps:
  "section_names [] = []"
  "section_names (x # xs) =
     (case section_of_line x of None \<Rightarrow> section_names xs | Some n \<Rightarrow> n # section_names xs)"
  by (simp_all add: section_names_def map_filter_simps split: option.split)

lemma flush_peer_pending:
  "flush_peer s = Inr s' \<Longrightarrow> pending_peers s' = pending_peers s
     \<and> ps_seen_interface s' = ps_seen_interface s \<and> ps_current_peer s' = None
     \<and> length (ps_peers s') = pending_peers s"
  by (auto simp: flush_peer_def bindE_eq_Inr pending_peers_def split: option.splits)

lemma parse_line_sections:
  assumes "parse_line b64 s l x = Inr s'"
  shows "case section_of_line x of
           None \<Rightarrow> pending_peers s' = pending_peers s
             \<and> ps_seen_interface s' = ps_seen_interface s
         | Some n \<Rightarrow> (n = ''peer'' \<and> pending_peers s' = Suc (pending_peers s)
               \<and> ps_seen_interface s' = ps_seen_interface s)
             \<or> (n = ''interface'' \<and> pending_peers s' = pending_peers s
               \<and> \<not> ps_seen_interface s \<and> ps_seen_interface s')"
  using assms
  by (auto simp: parse_line_def section_of_line_def Let_def parse_header_def parse_pair_def
      bindE_eq_Inr split: if_splits option.splits config_section.splits
      dest!: flush_peer_pending) (auto simp: pending_peers_def)

lemma parse_lines_sections:
  "parse_lines b64 l s xs = Inr s' \<Longrightarrow>
     pending_peers s' = pending_peers s + count_list (section_names xs) ''peer''
   \<and> of_bool (ps_seen_interface s')
       = of_bool (ps_seen_interface s) + count_list (section_names xs) ''interface''
   \<and> set (section_names xs) \<subseteq> {''interface'', ''peer''}"
proof (induction xs arbitrary: l s)
  case Nil
  then show ?case by (simp add: section_names_simps)
next
  case (Cons x xs)
  from Cons.prems obtain s1 where s1: "parse_line b64 s l x = Inr s1"
    and rest: "parse_lines b64 (Suc l) s1 xs = Inr s'"
    by (auto simp: bindE_eq_Inr)
  show ?case
    using parse_line_sections [OF s1] Cons.IH [OF rest]
    by (auto simp: section_names_simps split: option.splits)
qed

lemma parse_config_sections:
  assumes "parse_config b64 input = Inr c"
  defines "names \<equiv> section_names (lines (drop_lead bom_len input))"
  shows "set names \<subseteq> {''interface'', ''peer''} \<and> count_list names ''interface'' = 1
       \<and> length (wc_peers c) = count_list names ''peer''"
proof -
  obtain s s2 where s: "parse_lines b64 1 parser_init (lines (drop_lead bom_len input)) = Inr s"
    and s2: "flush_peer s = Inr s2" and seen: "ps_seen_interface s2"
    and c: "wc_peers c = ps_peers s2"
    using assms(1) by (auto simp: parse_config_def parse_finish_def bindE_eq_Inr split: if_splits)
  have "ps_seen_interface s" "length (ps_peers s2) = pending_peers s"
    using flush_peer_pending [OF s2] seen by auto
  then show ?thesis
    using parse_lines_sections [OF s] c
    by (auto simp: names_def parser_init_def pending_peers_def)
qed

subsection \<open>Where errors are reported\<close>

definition err_at :: "nat \<Rightarrow> config_error failure \<Rightarrow> bool" where
  "err_at l e = (case e of Panic \<Rightarrow> True | Err c \<Rightarrow> ce_line c = Some l)"

definition err_within :: "nat \<Rightarrow> config_error failure \<Rightarrow> bool" where
  "err_within n e = (case e of Panic \<Rightarrow> True
     | Err c \<Rightarrow> (case ce_line c of None \<Rightarrow> True | Some l \<Rightarrow> 1 \<le> l \<and> l \<le> n))"

lemma perr_Inl: "perr l m = Inl e \<longleftrightarrow> e = Err (config_error_new l m)"
  by (auto simp: perr_def)

lemma err_at_simps [simp]:
  "err_at l Panic" "err_at l (Err (config_error_new (Some k) m)) = (k = l)"
  by (simp_all add: err_at_def config_error_new_def)

lemma err_within_simps [simp]:
  "err_within n Panic" "err_within n (Err (config_error_new None m))"
  "err_within n (Err (config_error_new (Some k) m)) = (1 \<le> k \<and> k \<le> n)"
  by (simp_all add: err_within_def config_error_new_def)

lemma err_at_within: "err_at l e \<Longrightarrow> 1 \<le> l \<Longrightarrow> l \<le> n \<Longrightarrow> err_within n e"
  by (auto simp: err_at_def err_within_def split: failure.splits)

lemma parse_key_err: "parse_key b64 v l = Inl e \<Longrightarrow> err_at l e"
  by (auto simp: parse_key_def perr_Inl split: sum.splits failure.splits)

lemma mapE_lift_err:
  "mapE (\<lambda>x. lift_str_err (\<lambda>m. config_error_new (Some l) (f m)) (g x)) xs = Inl e
   \<Longrightarrow> err_at l e"
  by (induction xs) (auto simp: bindE_eq_Inl lift_str_err_def map_err_eq_Inl)

lemma parse_interface_kv_err: "parse_interface_kv b64 b k v l = Inl e \<Longrightarrow> err_at l e"
  by (auto simp: parse_interface_kv_def bindE_eq_Inl perr_Inl parse_u16_def parse_fwmark_def
      parse_table_def parse_dns_entries_def parse_interface_addresses_def Let_def
      split: if_splits option.splits prod.splits dest: parse_key_err mapE_lift_err)

lemma parse_peer_kv_err: "parse_peer_kv b64 b k v l = Inl e \<Longrightarrow> err_at l e"
  by (auto simp: parse_peer_kv_def bindE_eq_Inl perr_Inl parse_u16_def lift_str_err_def
      parse_allowed_ips_def map_err_eq_Inl
      split: if_splits option.splits dest: parse_key_err
      mapE_lift_err [unfolded lift_str_err_def])

lemma parse_pair_err: "parse_pair b64 s x l = Inl e \<Longrightarrow> err_at l e"
  by (auto simp: parse_pair_def bindE_eq_Inl perr_Inl split_key_value_def Let_def
      split: option.splits config_section.splits if_splits prod.splits
      dest: parse_interface_kv_err parse_peer_kv_err)

text \<open>The recorded start line of the open peer section is a line already read.\<close>

definition lines_read :: "nat \<Rightarrow> parser_state \<Rightarrow> bool" where
  "lines_read n s =
     (pred_option (\<lambda>b. 1 \<le> pb_start_line b \<and> pb_start_line b \<le> n) (ps_current_peer s)
    \<and> pred_option (\<lambda>l. 1 \<le> l \<and> l \<le> n) (ps_interface_line s))"

lemma flush_peer_err: "flush_peer s = Inl e \<Longrightarrow> lines_read n s \<Longrightarrow> err_within n e"
  by (auto simp: flush_peer_def peer_builder_finish_def bindE_eq_Inl perr_Inl lines_read_def
      split: option.splits)

lemma flush_peer_lines: "flush_peer s = Inr s' \<Longrightarrow> lines_read n s \<Longrightarrow> lines_read n s'"
  by (auto simp: flush_peer_def bindE_eq_Inr lines_read_def split: option.splits)

lemma lines_read_mono: "lines_read n s \<Longrightarrow> n \<le> m \<Longrightarrow> lines_read m s"
  by (auto simp: lines_read_def pred_option_def)

lemma parse_line_err:
  assumes "parse_line b64 s (Suc l) x = Inl e" "lines_read l s"
  shows "err_within (Suc l) e"
  using assms lines_read_mono [of l s "Suc l"]
  by (auto simp: parse_line_def parse_header_def bindE_eq_Inl perr_Inl Let_def
      split: if_splits option.splits dest: flush_peer_err)
    (rule err_at_within [OF parse_pair_err], auto)

lemma parse_peer_kv_start:
  "parse_peer_kv b64 b k v l = Inr b' \<Longrightarrow> pb_start_line b' = pb_start_line b"
  by (auto simp: parse_peer_kv_def bindE_eq_Inr split: if_splits)

lemma parse_line_lines:
  assumes "parse_line b64 s (Suc l) x = Inr s'" "lines_read l s"
  shows "lines_read (Suc l) s'"
  using assms lines_read_mono [of l s "Suc l"]
  by (auto simp: parse_line_def parse_header_def parse_pair_def bindE_eq_Inr Let_def
      split: if_splits option.splits config_section.splits
      dest!: flush_peer_lines [of _ _ "Suc l"] parse_peer_kv_start)
    (auto simp: lines_read_def peer_builder_new_def)

lemma parse_lines_err:
  "lines_read l s \<Longrightarrow>
    (\<forall>e. parse_lines b64 (Suc l) s xs = Inl e \<longrightarrow> err_within (l + length xs) e)
  \<and> (\<forall>s'. parse_lines b64 (Suc l) s xs = Inr s' \<longrightarrow> lines_read (l + length xs) s')"
proof (induction xs arbitrary: l s)
  case Nil
  then show ?case by simp
next
  case (Cons x xs)
  show ?case
  proof (cases "parse_line b64 s (Suc l) x")
    case (Inl e)
    then have "err_within (Suc l) e" using Cons.prems by (rule parse_line_err)
    then have "err_within (l + length (x # xs)) e"
      by (auto simp: err_within_def split: failure.splits option.splits)
    with Inl show ?thesis by simp
  next
    case (Inr s1)
    then have "lines_read (Suc l) s1" using Cons.prems by (rule parse_line_lines)
    with Cons.IH [of "Suc l" s1] Inr show ?thesis by simp
  qed
qed

lemma parse_finish_err: "parse_finish s = Inl e \<Longrightarrow> lines_read n s \<Longrightarrow> err_within n e"
  by (auto simp: parse_finish_def bindE_eq_Inl perr_Inl interface_builder_finish_def
      split: if_splits option.splits dest: flush_peer_err dest!: flush_peer_lines)
    (auto simp: lines_read_def err_within_def config_error_new_def pred_option_def
      split: option.splits)

lemma parse_config_err:
  assumes "parse_config b64 input = Inl e"
  shows "err_within (length (lines (drop_lead bom_len input))) e"
proof -
  have init: "lines_read 0 parser_init" by (simp add: lines_read_def parser_init_def)
  show ?thesis
    using assms parse_lines_err [OF init, of b64 "lines (drop_lead bom_len input)"]
    by (auto simp: parse_config_def bindE_eq_Inl dest: parse_finish_err)
qed

subsection \<open>Panics\<close>

text \<open>The only panic is the byte slicing of a hex key, which plain ASCII text never reaches.\<close>

lemma perr_not_Panic [simp]: "perr l m \<noteq> Inl Panic"
  by (simp add: perr_def)

lemma lift_str_err_not_Panic [simp]: "lift_str_err f r \<noteq> Inl Panic"
  by (cases r) (simp_all add: lift_str_err_def map_err_def)

lemma mapE_not_Panic: "(\<And>x. f x \<noteq> Inl Panic) \<Longrightarrow> mapE f xs \<noteq> Inl Panic"
  by (induction xs) (auto simp: bindE_eq_Inl)

lemma value_parsers_not_Panic [simp]:
  "parse_allowed_ips v l \<noteq> Inl Panic"
  "parse_interface_addresses v l \<noteq> Inl Panic"
  "parse_dns_entries v l \<noteq> Inl Panic"
  "parse_table v l \<noteq> Inl Panic"
  "parse_u16 v l n \<noteq> Inl Panic"
  "parse_fwmark v l \<noteq> Inl Panic"
  "split_key_value x l \<noteq> Inl Panic"
  by (auto simp: parse_allowed_ips_def parse_interface_addresses_def parse_dns_entries_def
      parse_table_def parse_u16_def parse_fwmark_def split_key_value_def bindE_eq_Inl Let_def
      mapE_not_Panic split: if_splits option.splits prod.splits)

lemma flush_peer_not_Panic [simp]: "flush_peer s \<noteq> Inl Panic"
  by (auto simp: flush_peer_def peer_builder_finish_def bindE_eq_Inl split: option.splits)

lemma parse_header_not_Panic [simp]: "parse_header s n l \<noteq> Inl Panic"
  by (auto simp: parse_header_def bindE_eq_Inl)

lemma parse_finish_not_Panic [simp]: "parse_finish s \<noteq> Inl Panic"
  by (auto simp: parse_finish_def interface_builder_finish_def bindE_eq_Inl split: option.splits)

lemma parse_key_not_Panic: "is_ascii v \<Longrightarrow> parse_key b64 v l \<noteq> Inl Panic"
  by (auto simp: parse_key_def key_from_str_no_panic split: sum.splits failure.splits)

lemma parse_kv_not_Panic:
  "is_ascii v \<Longrightarrow> parse_interface_kv b64 b k v l \<noteq> Inl Panic"
  "is_ascii v \<Longrightarrow> parse_peer_kv b64 p k v l \<noteq> Inl Panic"
  by (auto simp: parse_interface_kv_def parse_peer_kv_def bindE_eq_Inl parse_key_not_Panic)

lemma split_once_value: "split_once c s = Some (k, v) \<Longrightarrow> \<exists>u. s = u @ v"
  by (auto simp: split_once_Some intro: exI [of _ "k @ [c]"])

lemma split_key_value_ascii: "split_key_value x l = Inr (k, v) \<Longrightarrow> is_ascii x \<Longrightarrow> is_ascii v"
  by (auto simp: split_key_value_def Let_def is_ascii_trim split: if_splits option.splits prod.splits
      dest!: split_once_value)

lemma parse_line_not_Panic: "is_ascii x \<Longrightarrow> parse_line b64 s l x \<noteq> Inl Panic"
proof -
  assume x: "is_ascii x"
  have "is_ascii (trim (strip_comments x))"
    using x by (intro is_ascii_trim) (auto simp: is_ascii_def strip_comments_def list_all_iff
        dest: set_takeWhileD)
  then show ?thesis
    by (auto simp: parse_line_def Let_def parse_pair_def bindE_eq_Inl
        dest: split_key_value_ascii parse_kv_not_Panic
        split: option.splits config_section.splits)
qed

lemma parse_lines_not_Panic:
  "list_all is_ascii xs \<Longrightarrow> parse_lines b64 l s xs \<noteq> Inl Panic"
  by (induction xs arbitrary: l s) (auto simp: bindE_eq_Inl parse_line_not_Panic)

lemma is_ascii_strip_cr: "is_ascii s \<Longrightarrow> is_ascii (strip_cr s)"
  by (auto simp: strip_cr_def is_ascii_def list_all_iff dest: in_set_butlastD)

lemma lines_aux_ascii: "is_ascii acc \<Longrightarrow> is_ascii s \<Longrightarrow> list_all is_ascii (lines_aux acc s)"
  by (induction acc s rule: lines_aux.induct)
    (auto simp: is_ascii_strip_cr)

lemma parse_config_ascii_no_panic: "is_ascii input \<Longrightarrow> parse_config b64 input \<noteq> Inl Panic"
proof -
  assume "is_ascii input"
  then have "is_ascii (drop_lead bom_len input)"
    using drop_lead_suffix [of input bom_len] by (metis is_ascii_append)
  then have "list_all is_ascii (lines (drop_lead bom_len input))"
    unfolding lines_def by (intro lines_aux_ascii) simp_all
  then show ?thesis
    by (auto simp: parse_config_def bindE_eq_Inl parse_lines_not_Panic)
qed

end
