(* ===== verification/Config_Sample.thy ===== *)
theory Config_Sample
  imports Config_Parser
begin

text \<open>
  A small configuration text and its parse, evaluated line by line. The witnesses of the
  properties about the parser and about the stages after it run on it.
\<close>

definition sample_private :: string where
  "sample_private = ''PrivateKey = '' @ replicate 64 (CHR ''0'')"

definition sample_public :: string where
  "sample_public = ''PublicKey = '' @ replicate 64 (CHR ''1'')"

definition sample_lines :: "string list" where
  "sample_lines =
     [''[Interface]'', sample_private, ''Address = 10.64.0.2/32'', ''[Peer]'', sample_public,
      ''AllowedIPs = 0.0.0.0/0'', ''Endpoint = relay:51820'']"

definition sample_text :: string where
  "sample_text = join [CHR 0x0A] sample_lines"

definition sample_config :: wireguard_config where
  "sample_config =
     \<lparr>wc_interface =
        \<lparr>if_private_key = Key (replicate 32 0), if_listen_port = None, if_fwmark = None,
         if_addresses = [InterfaceAddress (V4 0x0A400002) 32], if_dns_servers = [],
         if_dns_search = [], if_mtu = None, if_table = None\<rparr>,
      wc_peers =
        [\<lparr>pc_public_key = Key (replicate 32 0x11), pc_preshared_key = None,
          pc_allowed_ips = [AllowedIp (V4 0) 0],
          pc_endpoint = Some \<lparr>ep_host = ''relay'', ep_port = 51820\<rparr>,
          pc_persistent_keepalive = None\<rparr>]\<rparr>"

lemma lines_sample_text: "lines (drop_lead bom_len sample_text) = sample_lines"
  by (simp add: sample_text_def sample_lines_def sample_private_def sample_public_def bom_len_def
      eval_simps)

lemma trim_sample:
  "trim (strip_comments ''[Interface]'') = ''[Interface]''"
  "trim (strip_comments sample_private) = sample_private"
  "trim (strip_comments ''Address = 10.64.0.2/32'') = ''Address = 10.64.0.2/32''"
  "trim (strip_comments ''[Peer]'') = ''[Peer]''"
  "trim (strip_comments sample_public) = sample_public"
  "trim (strip_comments ''AllowedIPs = 0.0.0.0/0'') = ''AllowedIPs = 0.0.0.0/0''"
  "trim (strip_comments ''Endpoint = relay:51820'') = ''Endpoint = relay:51820''"
  by (simp_all add: strip_comments_def sample_private_def sample_public_def replicate_numeral_eval
      str_eval)

lemma sample_keys_ne: "sample_private \<noteq> []" "sample_public \<noteq> []"
  by (simp_all add: sample_private_def sample_public_def)

lemma header_sample:
  "parse_section_header ''[Interface]'' = Some ''Interface''"
  "parse_section_header sample_private = None"
  "parse_section_header ''Address = 10.64.0.2/32'' = None"
  "parse_section_header ''[Peer]'' = Some ''Peer''"
  "parse_section_header sample_public = None"
  "parse_section_header ''AllowedIPs = 0.0.0.0/0'' = None"
  "parse_section_header ''Endpoint = relay:51820'' = None"
  by (simp_all add: parse_section_header_def sample_private_def sample_public_def replicate_numeral_eval
      str_eval)

lemma name_sample:
  "to_ascii_lowercase ''Interface'' = ''interface''"
  "to_ascii_lowercase ''Peer'' = ''peer''"
  by (simp_all add: str_eval char_of_def bit_Suc_0_iff)

lemma split_sample:
  "split_key_value sample_private n = Inr (''privatekey'', replicate 64 (CHR ''0''))"
  "split_key_value ''Address = 10.64.0.2/32'' n = Inr (''address'', ''10.64.0.2/32'')"
  "split_key_value sample_public n = Inr (''publickey'', replicate 64 (CHR ''1''))"
  "split_key_value ''AllowedIPs = 0.0.0.0/0'' n = Inr (''allowedips'', ''0.0.0.0/0'')"
  "split_key_value ''Endpoint = relay:51820'' n = Inr (''endpoint'', ''relay:51820'')"
  by (simp_all add: split_key_value_def sample_private_def sample_public_def replicate_numeral_eval
      str_eval char_of_def bit_Suc_0_iff)

lemma ip_sample:
  "parse_ip ''10.64.0.2'' = Some (V4 0x0A400002)"
  "parse_ip ''0.0.0.0'' = Some (V4 0)"
  "parse_u8_value ''32'' = Some 32"
  "parse_u8_value ''0'' = Some 0"
  "parse_u16_value ''51820'' = Some 51820"
  by (simp_all add: eval_simps)

lemma value_sample:
  "parse_key b64 (replicate 64 (CHR ''0'')) n = Inr (Key (replicate 32 0))"
  "parse_interface_addresses ''10.64.0.2/32'' n = Inr [InterfaceAddress (V4 0x0A400002) 32]"
  "parse_key b64 (replicate 64 (CHR ''1'')) n = Inr (Key (replicate 32 0x11))"
  "parse_allowed_ips ''0.0.0.0/0'' n = Inr [AllowedIp (V4 0) 0]"
  "endpoint_from_str ''relay:51820'' = Inr \<lparr>ep_host = ''relay'', ep_port = 51820\<rparr>"
  by (simp_all add: parse_key_def key_from_str_def is_continuation_def parse_interface_addresses_def
      parse_allowed_ips_def comma_items_def lift_str_err_def interface_address_from_str_def
      allowed_ip_from_str_def endpoint_from_str_def ip_sample str_eval replicate_numeral_eval)

lemma parse_sample_text: "parse_config b64 sample_text = Inr sample_config"
  by (simp add: parse_config_def lines_sample_text, simp add: sample_lines_def parse_line_def
      trim_sample sample_keys_ne header_sample name_sample parse_header_def parse_pair_def split_sample
      parse_interface_kv_def parse_peer_kv_def value_sample lift_str_err_def flush_peer_def
      parser_init_def interface_builder_default_def peer_builder_new_def parse_finish_def
      peer_builder_finish_def interface_builder_finish_def sample_config_def)

end
