(* ===== verification/Config_Mapping.thy ===== *)
theory Config_Mapping
  imports Config_Parser
begin

text \<open>
  \<open>core/config/mapping.rs\<close>: the parsed configuration turned into the settings of the
  WireGuard device. \<open>tokio::net::lookup_host\<close>, \<open>IpNetwork::new\<close> and the key conversions
  of the device crate are parameters; \<open>lookup_host\<close> takes the number of the peer it is
  called for, because two lookups of one name may answer differently.
\<close>

record ('sk, 'pk, 'net) device_crates =
  lookup_host :: "nat \<Rightarrow> string \<Rightarrow> u16 \<Rightarrow> socket_addr list option"
  ip_network_new :: "ip_addr \<Rightarrow> u8 \<Rightarrow> 'net option"
  static_secret_from :: "u8 list \<Rightarrow> 'sk"
  public_key_from :: "u8 list \<Rightarrow> 'pk"

record ('pk, 'net) device_peer =
  dp_public_key :: 'pk
  dp_endpoint :: "socket_addr option"
  dp_allowed_ips :: "'net list"
  dp_preshared_key :: "u8 list option"
  dp_keepalive :: "u16 option"

record ('sk, 'pk, 'net) device_settings =
  ds_private_key :: 'sk
  ds_listen_port :: "u16 option"
  ds_fwmark :: "u32 option"
  ds_peers :: "('pk, 'net) device_peer list"

text \<open>The loop over the resolved addresses: the first IPv4 one, else the first.\<close>

fun pick_addr :: "socket_addr option \<Rightarrow> socket_addr list \<Rightarrow> socket_addr option" where
  "pick_addr first [] = first"
| "pick_addr first (a # rest) =
     (let first' = (case first of None \<Rightarrow> Some a | Some f \<Rightarrow> Some f) in
      if is_ipv4 (sock_ip a) then Some a else pick_addr first' rest)"

definition resolve_socket_addr ::
  "('sk, 'pk, 'net) device_crates \<Rightarrow> nat \<Rightarrow> endpoint \<Rightarrow> config_error + socket_addr" where
  "resolve_socket_addr cr n e =
     (let host = trim (ep_host e) in
      case parse_ip host of
        Some ip \<Rightarrow> Inr (SocketAddr ip (ep_port e))
      | None \<Rightarrow>
          (case lookup_host cr n host (ep_port e) of
             None \<Rightarrow> Inl (config_error_new None ''failed to resolve endpoint host'')
           | Some addrs \<Rightarrow>
               ok_or (config_error_new None ''no socket address resolved'')
                 (pick_addr None addrs)))"

definition allowed_ip_to_network ::
  "('sk, 'pk, 'net) device_crates \<Rightarrow> allowed_ip \<Rightarrow> config_error + 'net" where
  "allowed_ip_to_network cr a =
     ok_or (config_error_new None ''invalid allowed ip'') (ip_network_new cr (addr a) (cidr a))"

definition to_device_peer ::
  "('sk, 'pk, 'net) device_crates \<Rightarrow> nat \<Rightarrow> peer_config
   \<Rightarrow> config_error + ('pk, 'net) device_peer" where
  "to_device_peer cr n p =
     bindE (case pc_endpoint p of
              None \<Rightarrow> Inr None
            | Some e \<Rightarrow> bindE (resolve_socket_addr cr n e) (\<lambda>a. Inr (Some a))) (\<lambda>ep.
     bindE (mapE (allowed_ip_to_network cr) (pc_allowed_ips p)) (\<lambda>nets.
     Inr \<lparr>dp_public_key = public_key_from cr (as_bytes (pc_public_key p)),
          dp_endpoint = ep, dp_allowed_ips = nets,
          dp_preshared_key = map_option as_bytes (pc_preshared_key p),
          dp_keepalive = pc_persistent_keepalive p\<rparr>))"

fun to_device_peers ::
  "('sk, 'pk, 'net) device_crates \<Rightarrow> nat \<Rightarrow> peer_config list
   \<Rightarrow> config_error + ('pk, 'net) device_peer list" where
  "to_device_peers cr n [] = Inr []"
| "to_device_peers cr n (p # ps) =
     bindE (to_device_peer cr n p) (\<lambda>d. bindE (to_device_peers cr (Suc n) ps) (\<lambda>ds. Inr (d # ds)))"

definition to_device_settings ::
  "('sk, 'pk, 'net) device_crates \<Rightarrow> wireguard_config
   \<Rightarrow> config_error + ('sk, 'pk, 'net) device_settings" where
  "to_device_settings cr c =
     bindE (to_device_peers cr 0 (wc_peers c)) (\<lambda>ps.
     Inr \<lparr>ds_private_key = static_secret_from cr (as_bytes (if_private_key (wc_interface c))),
          ds_listen_port = if_listen_port (wc_interface c),
          ds_fwmark = if_fwmark (wc_interface c), ds_peers = ps\<rparr>)"

subsection \<open>Resolution\<close>

lemma pick_addr_eq:
  "pick_addr first as =
     (case find (\<lambda>a. is_ipv4 (sock_ip a)) as of
        Some a \<Rightarrow> Some a
      | None \<Rightarrow> (case first of Some f \<Rightarrow> Some f
                 | None \<Rightarrow> (case as of [] \<Rightarrow> None | a # _ \<Rightarrow> Some a)))"
  by (induction first as rule: pick_addr.induct) (auto split: option.splits)

lemma resolve_socket_addr_lookup:
  assumes "parse_ip (trim (ep_host e)) = None"
    and "lookup_host cr n (trim (ep_host e)) (ep_port e) = Some addrs"
  shows "resolve_socket_addr cr n e = ok_or (config_error_new None ''no socket address resolved'')
     (case find (\<lambda>a. is_ipv4 (sock_ip a)) addrs of
        Some a \<Rightarrow> Some a
      | None \<Rightarrow> (case addrs of [] \<Rightarrow> None | a # _ \<Rightarrow> Some a))"
  using assms by (simp add: resolve_socket_addr_def pick_addr_eq split: option.split)

subsection \<open>Settings\<close>

definition peer_matches :: "('sk, 'pk, 'net) device_crates \<Rightarrow> peer_config
   \<Rightarrow> ('pk, 'net) device_peer \<Rightarrow> bool" where
  "peer_matches cr p d =
     (dp_public_key d = public_key_from cr (as_bytes (pc_public_key p))
    \<and> dp_preshared_key d = map_option as_bytes (pc_preshared_key p)
    \<and> dp_keepalive d = pc_persistent_keepalive p
    \<and> (dp_endpoint d = None) = (pc_endpoint p = None)
    \<and> map Some (dp_allowed_ips d)
        = map (\<lambda>a. ip_network_new cr (addr a) (cidr a)) (pc_allowed_ips p))"

lemma mapE_networks:
  "mapE (allowed_ip_to_network cr) xs = Inr ns \<Longrightarrow>
   map Some ns = map (\<lambda>a. ip_network_new cr (addr a) (cidr a)) xs"
  by (induction xs arbitrary: ns)
    (auto simp: bindE_eq_Inr allowed_ip_to_network_def ok_or_eq_Inr)

lemma to_device_peer_matches: "to_device_peer cr n p = Inr d \<Longrightarrow> peer_matches cr p d"
  by (auto simp: to_device_peer_def bindE_eq_Inr peer_matches_def mapE_networks
      split: option.splits)

lemma to_device_peers_match:
  "to_device_peers cr n ps = Inr ds \<Longrightarrow> list_all2 (peer_matches cr) ps ds"
  by (induction ps arbitrary: n ds) (auto simp: bindE_eq_Inr to_device_peer_matches)

lemma to_device_settings_match:
  assumes "to_device_settings cr c = Inr s"
  shows "list_all2 (peer_matches cr) (wc_peers c) (ds_peers s)
       \<and> ds_listen_port s = if_listen_port (wc_interface c)
       \<and> ds_fwmark s = if_fwmark (wc_interface c)"
  using assms by (auto simp: to_device_settings_def bindE_eq_Inr to_device_peers_match)

text \<open>The documented behaviour of \<open>IpNetwork::new\<close>: it accepts exactly the prefix lengths of
  the family.\<close>

definition ip_network_spec :: "('sk, 'pk, 'net) device_crates \<Rightarrow> bool" where
  "ip_network_spec cr = (\<forall>a n. ip_network_new cr a n \<noteq> None
     \<longleftrightarrow> n \<le> (case a of V4 _ \<Rightarrow> 32 | V6 _ \<Rightarrow> 128))"

lemma allowed_ip_to_network_ok:
  "ip_network_spec cr \<Longrightarrow> wf_allowed a \<Longrightarrow> allowed_ip_to_network cr a \<noteq> Inl e"
proof -
  assume "ip_network_spec cr" "wf_allowed a"
  then have "ip_network_new cr (addr a) (cidr a) \<noteq> None"
    by (simp only: ip_network_spec_def wf_allowed_def)
  then show ?thesis by (auto simp: allowed_ip_to_network_def)
qed

lemma mapE_networks_ok:
  "ip_network_spec cr \<Longrightarrow> list_all wf_allowed xs \<Longrightarrow>
   mapE (allowed_ip_to_network cr) xs \<noteq> Inl e"
  by (induction xs) (auto simp: bindE_eq_Inl allowed_ip_to_network_ok)

definition resolution_error :: "config_error \<Rightarrow> bool" where
  "resolution_error e =
     (e = config_error_new None ''failed to resolve endpoint host''
    \<or> e = config_error_new None ''no socket address resolved'')"

lemma resolve_error: "resolve_socket_addr cr n e = Inl err \<Longrightarrow> resolution_error err"
  by (auto simp: resolve_socket_addr_def Let_def ok_or_def resolution_error_def
      split: option.splits)

lemma to_device_peers_error:
  "ip_network_spec cr \<Longrightarrow> list_all wf_peer ps \<Longrightarrow> to_device_peers cr n ps = Inl e
   \<Longrightarrow> resolution_error e"
  by (induction ps arbitrary: n)
    (auto simp: bindE_eq_Inl to_device_peer_def wf_peer_def mapE_networks_ok
      split: option.splits dest: resolve_error)

lemma to_device_settings_error:
  assumes "ip_network_spec cr" "wf_config c" "to_device_settings cr c = Inl e"
  shows "resolution_error e"
  using assms by (auto simp: to_device_settings_def bindE_eq_Inl wf_config_def
      dest: to_device_peers_error)

end
