(* ===== verification/Config_Properties.thy ===== *)
theory Config_Properties
  imports Config_Sample Config_Mapping
begin

text \<open>
  The properties of the configuration layer: what \<open>parse_config\<close> accepts, where it reports
  errors, when it panics, and what \<open>to_device_settings\<close> makes of its result.
\<close>

subsection \<open>The parser\<close>

text \<open>C13: every configuration the parser returns is well formed: keys of 32 bytes, prefix
  lengths within the address family, endpoints with a host and a port that is not zero.\<close>

theorem parsed_config_well_formed:
  assumes "parse_config b64 input = Inr c"
  shows "wf_config c"
  using assms by (rule parse_config_wf)

theorem parsed_config_well_formed_witness: "wf_config sample_config"
  by (rule parsed_config_well_formed [OF parse_sample_text])

text \<open>C14: an accepted text has section headers \<open>[Interface]\<close> and \<open>[Peer]\<close> only, exactly one
  \<open>[Interface]\<close>, and one peer in the result for every \<open>[Peer]\<close> header.\<close>

theorem parsed_config_sections:
  assumes "parse_config b64 input = Inr c"
  shows "set (section_names (lines (drop_lead bom_len input))) \<subseteq> {''interface'', ''peer''}
    \<and> count_list (section_names (lines (drop_lead bom_len input))) ''interface'' = 1
    \<and> length (wc_peers c)
        = count_list (section_names (lines (drop_lead bom_len input))) ''peer''"
  using parse_config_sections [OF assms] .

theorem parsed_config_sections_witness:
  "length (wc_peers sample_config)
     = count_list (section_names (lines (drop_lead bom_len sample_text))) ''peer''"
  using parsed_config_sections [OF parse_sample_text] by blast

text \<open>C15: the line number of a reported error is a line of the text.\<close>

theorem parse_error_line:
  assumes "parse_config b64 input = Inl (Err e)" "ce_line e = Some l"
  shows "1 \<le> l \<and> l \<le> length (lines (drop_lead bom_len input))"
  using parse_config_err [OF assms(1)] assms(2) by (simp add: err_within_def)

lemma unsupported_section: "parse_config b64 ''[x]''
    = Inl (Err (config_error_new (Some 1) ''unsupported section [x]''))"
  by (simp add: parse_config_def bom_len_def parse_line_def strip_comments_def
      parse_section_header_def parse_header_def perr_def eval_simps)

theorem parse_error_line_witness: "(1::nat) \<le> length (lines (drop_lead bom_len ''[x]''))"
proof -
  have "ce_line (config_error_new (Some 1) ''unsupported section [x]'') = Some 1"
    by (simp add: config_error_new_def)
  then show ?thesis using parse_error_line [OF unsupported_section] by blast
qed

text \<open>C16: on text of ASCII characters the parser returns; it never panics.\<close>

theorem ascii_config_no_panic:
  assumes "is_ascii input"
  shows "parse_config b64 input \<noteq> Inl Panic"
  using assms by (rule parse_config_ascii_no_panic)

theorem ascii_config_no_panic_witness: "parse_config (\<lambda>_. None) ''[x]'' \<noteq> Inl Panic"
  by (rule ascii_config_no_panic) (simp add: is_ascii_def)

text \<open>A private key of 64 bytes that starts with a character of three bytes panics: the
  parser slices the key by bytes, and the first slice ends inside the character.\<close>

theorem hex_key_slice_panics:
  "key_from_str b64 ([CHR 0xE2, CHR 0x82, CHR 0xAC] @ replicate 61 (CHR ''a'')) = Inl Panic"
  by (simp add: key_from_str_def replicate_numeral_eval str_eval is_continuation_def)

subsection \<open>The device settings\<close>

text \<open>C17: the settings have one peer per configured peer, in order, with its keys, its
  keepalive, an endpoint exactly when one is configured, and all its networks.\<close>

theorem device_settings_match:
  assumes "to_device_settings cr c = Inr s"
  shows "list_all2 (peer_matches cr) (wc_peers c) (ds_peers s)
    \<and> ds_listen_port s = if_listen_port (wc_interface c)
    \<and> ds_fwmark s = if_fwmark (wc_interface c)"
  using assms by (rule to_device_settings_match)

definition plain_crates :: "socket_addr list option \<Rightarrow> (u8 list, u8 list, allowed_ip) device_crates" where
  "plain_crates found =
     \<lparr>lookup_host = (\<lambda>_ _ _. found),
      ip_network_new = (\<lambda>a n. if cidr_in_range a n then Some (AllowedIp a n) else None),
      static_secret_from = (\<lambda>k. k), public_key_from = (\<lambda>k. k)\<rparr>"

lemma sample_host: "parse_ip (trim ''relay'') = None"
  by (simp add: eval_simps)

lemma plain_settings:
  "to_device_settings (plain_crates (Some [SocketAddr (V4 0x01020304) 51820])) sample_config = Inr
     \<lparr>ds_private_key = replicate 32 0, ds_listen_port = None, ds_fwmark = None,
      ds_peers = [\<lparr>dp_public_key = replicate 32 0x11,
        dp_endpoint = Some (SocketAddr (V4 0x01020304) 51820),
        dp_allowed_ips = [AllowedIp (V4 0) 0], dp_preshared_key = None, dp_keepalive = None\<rparr>]\<rparr>"
  by (simp add: to_device_settings_def to_device_peer_def plain_crates_def sample_config_def
      resolve_socket_addr_def sample_host allowed_ip_to_network_def)

theorem device_settings_match_witness:
  "let cr = plain_crates (Some [SocketAddr (V4 0x01020304) 51820]) in
     \<exists>s. to_device_settings cr sample_config = Inr s
       \<and> list_all2 (peer_matches cr) (wc_peers sample_config) (ds_peers s)"
  unfolding Let_def using device_settings_match [OF plain_settings] plain_settings by blast

text \<open>For a configuration the parser accepted, with an \<open>IpNetwork\<close> that accepts the prefix
  lengths of its family, the only errors are those of resolving an endpoint host.\<close>

theorem device_settings_errors:
  assumes "ip_network_spec cr" "parse_config b64 input = Inr c" "to_device_settings cr c = Inl e"
  shows "resolution_error e"
  using assms(1) parse_config_wf [OF assms(2)] assms(3) by (rule to_device_settings_error)

lemma plain_settings_unresolved:
  "to_device_settings (plain_crates None) sample_config
     = Inl (config_error_new None ''failed to resolve endpoint host'')"
  by (simp add: to_device_settings_def to_device_peer_def plain_crates_def sample_config_def
      resolve_socket_addr_def sample_host)

theorem device_settings_errors_witness:
  "resolution_error (config_error_new None ''failed to resolve endpoint host'')"
proof (rule device_settings_errors [OF _ parse_sample_text plain_settings_unresolved])
  show "ip_network_spec (plain_crates None)" by (simp add: ip_network_spec_def plain_crates_def cidr_in_range_iff)
qed

end
