(* ===== verification/Dns_Selection.thy ===== *)
theory Dns_Selection
  imports Config_Types
begin

text \<open>
  \<open>core/dns.rs\<close>: the DNS modes and presets and the rewrite of the DNS part of a
  configuration before a tunnel starts. \<open>parse_ip_list\<close> panics (\<open>expect\<close>) on an entry that
  does not parse: the value \<open>None\<close> here; \<open>apply_dns_selection_total\<close> shows it is not reached.
\<close>

datatype dns_mode = FollowConfig | UseSystemDns | AutoFillMissingFamilies | OverrideAll

datatype dns_preset =
  CloudflareStandard | CloudflareMalware | CloudflareMalwareAdult
| AdguardDefault | AdguardUnfiltered | AdguardFamily

fun mode_label :: "dns_mode \<Rightarrow> string" where
  "mode_label FollowConfig = ''Follow Config''"
| "mode_label UseSystemDns = ''System dns''"
| "mode_label AutoFillMissingFamilies = ''Auto Fill Missing Families''"
| "mode_label OverrideAll = ''Override All''"

record dns_preset_info =
  pi_title :: string
  pi_note :: string
  pi_ipv4 :: "string list"
  pi_ipv6 :: "string list"

fun preset_info :: "dns_preset \<Rightarrow> dns_preset_info" where
  "preset_info CloudflareStandard =
     \<lparr>pi_title = ''Standard'', pi_note = ''No filtering'',
      pi_ipv4 = [''1.1.1.1'', ''1.0.0.1''],
      pi_ipv6 = [''2606:4700:4700::1111'', ''2606:4700:4700::1001'']\<rparr>"
| "preset_info CloudflareMalware =
     \<lparr>pi_title = ''Malware Blocking'', pi_note = ''Families - Malware'',
      pi_ipv4 = [''1.1.1.2'', ''1.0.0.2''],
      pi_ipv6 = [''2606:4700:4700::1112'', ''2606:4700:4700::1002'']\<rparr>"
| "preset_info CloudflareMalwareAdult =
     \<lparr>pi_title = ''Malware + Adult'', pi_note = ''Families - Malware + Adult'',
      pi_ipv4 = [''1.1.1.3'', ''1.0.0.3''],
      pi_ipv6 = [''2606:4700:4700::1113'', ''2606:4700:4700::1003'']\<rparr>"
| "preset_info AdguardDefault =
     \<lparr>pi_title = ''Default'', pi_note = ''Ads/trackers blocked'',
      pi_ipv4 = [''94.140.14.14'', ''94.140.15.15''],
      pi_ipv6 = [''2a10:50c0::ad1:ff'', ''2a10:50c0::ad2:ff'']\<rparr>"
| "preset_info AdguardUnfiltered =
     \<lparr>pi_title = ''Unfiltered'', pi_note = ''No filtering'',
      pi_ipv4 = [''94.140.14.140'', ''94.140.14.141''],
      pi_ipv6 = [''2a10:50c0::1:ff'', ''2a10:50c0::2:ff'']\<rparr>"
| "preset_info AdguardFamily =
     \<lparr>pi_title = ''Family'', pi_note = ''Ads/trackers/adult blocked'',
      pi_ipv4 = [''94.140.14.15'', ''94.140.15.16''],
      pi_ipv6 = [''2a10:50c0::bad1:ff'', ''2a10:50c0::bad2:ff'']\<rparr>"

fun parse_ip_list :: "string list \<Rightarrow> ip_addr list option" where
  "parse_ip_list [] = Some []"
| "parse_ip_list (s # ss) =
     (case parse_ip s of
        None \<Rightarrow> None
      | Some a \<Rightarrow> map_option (\<lambda>as. a # as) (parse_ip_list ss))"

definition ipv4_addrs :: "dns_preset \<Rightarrow> ip_addr list option" where
  "ipv4_addrs p = parse_ip_list (pi_ipv4 (preset_info p))"

definition ipv6_addrs :: "dns_preset \<Rightarrow> ip_addr list option" where
  "ipv6_addrs p = parse_ip_list (pi_ipv6 (preset_info p))"

definition all_addrs :: "dns_preset \<Rightarrow> ip_addr list option" where
  "all_addrs p =
     (case parse_ip_list (pi_ipv4 (preset_info p)) of
        None \<Rightarrow> None
      | Some v4 \<Rightarrow> map_option (\<lambda>v6. v4 @ v6) (parse_ip_list (pi_ipv6 (preset_info p))))"

record dns_selection =
  dsel_mode :: dns_mode
  dsel_preset :: dns_preset

text \<open>The two vectors the function mutates are the pair it returns.\<close>

definition apply_dns_selection ::
  "ip_addr list \<Rightarrow> string list \<Rightarrow> dns_selection \<Rightarrow> (ip_addr list \<times> string list) option" where
  "apply_dns_selection servers search sel =
     (case dsel_mode sel of
        FollowConfig \<Rightarrow> Some (servers, search)
      | UseSystemDns \<Rightarrow> Some ([], [])
      | AutoFillMissingFamilies \<Rightarrow>
          (let has_v4 = list_ex is_ipv4 servers; has_v6 = list_ex is_ipv6 servers in
           case (if has_v4 then Some [] else ipv4_addrs (dsel_preset sel)) of
             None \<Rightarrow> None
           | Some v4 \<Rightarrow>
               (case (if has_v6 then Some [] else ipv6_addrs (dsel_preset sel)) of
                  None \<Rightarrow> None
                | Some v6 \<Rightarrow> Some (servers @ v4 @ v6, search)))
      | OverrideAll \<Rightarrow> map_option (\<lambda>as. (as, [])) (all_addrs (dsel_preset sel)))"

subsection \<open>The tables\<close>

text \<open>Every address of the tables parses, to one of its own family.\<close>

lemma preset_ipv4: "\<exists>a b. ipv4_addrs p = Some [V4 a, V4 b]"
  by (cases p) (simp_all add: ipv4_addrs_def eval_simps)

lemma preset_ipv6: "\<exists>a b. ipv6_addrs p = Some [V6 a, V6 b]"
  by (cases p) (simp_all add: ipv6_addrs_def eval_simps)

lemma preset_all:
  "\<exists>a b c d. ipv4_addrs p = Some [V4 a, V4 b] \<and> ipv6_addrs p = Some [V6 c, V6 d]
     \<and> all_addrs p = Some [V4 a, V4 b, V6 c, V6 d]"
proof -
  obtain a b where "ipv4_addrs p = Some [V4 a, V4 b]" using preset_ipv4 by blast
  moreover obtain c d where "ipv6_addrs p = Some [V6 c, V6 d]" using preset_ipv6 by blast
  ultimately show ?thesis by (simp add: all_addrs_def ipv4_addrs_def ipv6_addrs_def)
qed

subsection \<open>What the rewrite promises\<close>

lemma apply_dns_selection_total: "\<exists>r. apply_dns_selection servers search sel = Some r"
  using preset_all [of "dsel_preset sel"]
  by (auto simp: apply_dns_selection_def Let_def split: dns_mode.splits)

definition both_families :: "ip_addr list \<Rightarrow> bool" where
  "both_families as = (list_ex is_ipv4 as \<and> list_ex is_ipv6 as)"

lemma autofill_result:
  assumes "apply_dns_selection servers search sel = Some (servers', search')"
    and "dsel_mode sel = AutoFillMissingFamilies"
  shows "both_families servers' \<and> (\<exists>added. servers' = servers @ added) \<and> search' = search
       \<and> (both_families servers \<longrightarrow> servers' = servers)"
  using assms preset_all [of "dsel_preset sel"]
  by (auto simp: apply_dns_selection_def Let_def both_families_def split: if_splits)

lemma override_result:
  assumes "apply_dns_selection servers search sel = Some (servers', search')"
    and "dsel_mode sel = OverrideAll"
  shows "both_families servers' \<and> search' = []
       \<and> apply_dns_selection other other_search sel = Some (servers', search')"
  using assms preset_all [of "dsel_preset sel"]
  by (auto simp: apply_dns_selection_def both_families_def)

lemma apply_dns_selection_idem:
  assumes "apply_dns_selection servers search sel = Some (servers', search')"
  shows "apply_dns_selection servers' search' sel = Some (servers', search')"
proof (cases "dsel_mode sel")
  case AutoFillMissingFamilies
  with autofill_result [OF assms] show ?thesis
    by (simp add: apply_dns_selection_def both_families_def)
next
  case OverrideAll
  with override_result [OF assms] show ?thesis by blast
qed (use assms in \<open>auto simp: apply_dns_selection_def\<close>)

lemmas dns_eval [eval_simps] =
  apply_dns_selection_def ipv4_addrs_def ipv6_addrs_def all_addrs_def

end
