(* ===== verification/Route_Plan.thy ===== *)
theory Route_Plan
  imports Config_Parser Dns_Selection
begin

text \<open>
  \<open>core/route_plan/\<close> without the report: the normalisation of a configuration before a
  start (\<open>normalize.rs\<close>), the plan of network operations built from it (\<open>planner.rs\<close>),
  the identifiers of its operations (\<open>ids.rs\<close>) and the labels (\<open>util.rs\<close>).
\<close>

definition DEFAULT_FULL_TUNNEL_FWMARK :: u32 where
  "DEFAULT_FULL_TUNNEL_FWMARK = 0x5257"

definition LINUX_DEFAULT_POLICY_TABLE_ID :: u32 where
  "LINUX_DEFAULT_POLICY_TABLE_ID = 200"

datatype route_plan_platform = PfLinux | PfWindows | PfOther

fun platform_as_str :: "route_plan_platform \<Rightarrow> string" where
  "platform_as_str PfLinux = ''linux''"
| "platform_as_str PfWindows = ''windows''"
| "platform_as_str PfOther = ''other''"

record full_tunnel_status =
  ft_ipv4 :: bool
  ft_ipv6 :: bool

definition ft_default :: full_tunnel_status where
  "ft_default = \<lparr>ft_ipv4 = False, ft_ipv6 = False\<rparr>"

definition ft_any :: "full_tunnel_status \<Rightarrow> bool" where
  "ft_any f = (ft_ipv4 f \<or> ft_ipv6 f)"

definition ft_matches :: "full_tunnel_status \<Rightarrow> ip_addr \<Rightarrow> bool" where
  "ft_matches f a = (case a of V4 _ \<Rightarrow> ft_ipv4 f | V6 _ \<Rightarrow> ft_ipv6 f)"

datatype route_plan_route_kind = RkAllowed | RkDnsHost

datatype route_plan_family = FamIpv4 | FamIpv6

fun family_label :: "route_plan_family \<Rightarrow> string" where
  "family_label FamIpv4 = ''IPv4''"
| "family_label FamIpv6 = ''IPv6''"

record route_op =
  ro_route :: allowed_ip
  ro_table_id :: "u32 option"
  ro_kind :: route_plan_route_kind

record policy_rule_op =
  po_family :: route_plan_family
  po_table_id :: u32
  po_fwmark :: u32

record metric_op =
  mo_family :: route_plan_family
  mo_metric :: u32

record bypass_op =
  bo_host :: string
  bo_port :: u16

record route_plan =
  rp_platform :: route_plan_platform
  rp_requested_table :: "route_table option"
  rp_allowed_routes :: "allowed_ip list"
  rp_full_tunnel :: full_tunnel_status
  rp_linux_policy_table_id :: "u32 option"
  rp_route_ops :: "route_op list"
  rp_policy_rule_ops :: "policy_rule_op list"
  rp_metric_ops :: "metric_op list"
  rp_bypass_ops :: "bypass_op list"
  rp_windows_planned_bypass_count :: nat

subsection \<open>\<open>normalize.rs\<close>\<close>

definition wants_full_tunnel :: "peer_config list \<Rightarrow> bool" where
  "wants_full_tunnel peers =
     list_ex (\<lambda>p. list_ex (\<lambda>a. is_unspecified (addr a) \<and> cidr a = 0) (pc_allowed_ips p)) peers"

text \<open>\<open>None\<close> stands for the panic of the preset tables, which does not happen.\<close>

definition normalize_config_for_runtime ::
  "wireguard_config \<Rightarrow> dns_selection \<Rightarrow> wireguard_config option" where
  "normalize_config_for_runtime c sel =
     (let i = wc_interface c in
      case apply_dns_selection (if_dns_servers i) (if_dns_search i) sel of
        None \<Rightarrow> None
      | Some (servers, search) \<Rightarrow>
          let i1 = i\<lparr>if_dns_servers := servers, if_dns_search := search\<rparr>;
              i2 = (if wants_full_tunnel (wc_peers c) \<and> if_fwmark i1 = None
                    then i1\<lparr>if_fwmark := Some DEFAULT_FULL_TUNNEL_FWMARK\<rparr> else i1)
          in Some (c\<lparr>wc_interface := i2\<rparr>))"

definition collect_allowed_routes :: "peer_config list \<Rightarrow> allowed_ip list" where
  "collect_allowed_routes peers = dedup_seen [] (concat (map pc_allowed_ips peers))"

definition detect_step :: "full_tunnel_status \<Rightarrow> allowed_ip \<Rightarrow> full_tunnel_status" where
  "detect_step f r =
     (case addr r of
        V4 a \<Rightarrow> if a = 0 \<and> cidr r = 0 then f\<lparr>ft_ipv4 := True\<rparr> else f
      | V6 a \<Rightarrow> if a = 0 \<and> cidr r = 0 then f\<lparr>ft_ipv6 := True\<rparr> else f)"

definition detect_full_tunnel :: "allowed_ip list \<Rightarrow> full_tunnel_status" where
  "detect_full_tunnel routes = foldl detect_step ft_default routes"

definition linux_policy_table_id ::
  "route_plan_platform \<Rightarrow> route_table option \<Rightarrow> full_tunnel_status \<Rightarrow> u32 option" where
  "linux_policy_table_id platform table ft =
     (if platform \<noteq> PfLinux \<or> table = Some RtOff \<or> \<not> ft_any ft then None
      else Some (case table of Some (RtId i) \<Rightarrow> i | _ \<Rightarrow> LINUX_DEFAULT_POLICY_TABLE_ID))"

definition route_table_id :: "route_table option \<Rightarrow> u32 option" where
  "route_table_id t = (case t of Some (RtId i) \<Rightarrow> Some i | _ \<Rightarrow> None)"

definition linux_route_table_for ::
  "route_plan_platform \<Rightarrow> route_table option \<Rightarrow> u32 option \<Rightarrow> full_tunnel_status \<Rightarrow> allowed_ip
   \<Rightarrow> u32 option" where
  "linux_route_table_for platform table policy ft r =
     (if platform = PfLinux \<and> policy \<noteq> None \<and> ft_matches ft (addr r)
      then policy else route_table_id table)"

subsection \<open>\<open>planner.rs\<close>\<close>

definition allowed_route_op ::
  "route_plan_platform \<Rightarrow> route_table option \<Rightarrow> u32 option \<Rightarrow> full_tunnel_status \<Rightarrow> allowed_ip
   \<Rightarrow> route_op" where
  "allowed_route_op platform table policy ft r =
     \<lparr>ro_route = r,
      ro_table_id = (case platform of
          PfLinux \<Rightarrow> linux_route_table_for platform table policy ft r
        | PfWindows \<Rightarrow> None
        | PfOther \<Rightarrow> route_table_id table),
      ro_kind = RkAllowed\<rparr>"

definition dns_host_op :: "ip_addr \<Rightarrow> route_op" where
  "dns_host_op a =
     \<lparr>ro_route = AllowedIp a (if is_ipv4 a then 32 else 128), ro_table_id = None,
      ro_kind = RkDnsHost\<rparr>"

definition build_route_ops ::
  "route_plan_platform \<Rightarrow> wireguard_config \<Rightarrow> allowed_ip list \<Rightarrow> full_tunnel_status
   \<Rightarrow> u32 option \<Rightarrow> route_op list" where
  "build_route_ops platform c routes ft policy =
     (if if_table (wc_interface c) = Some RtOff then []
      else map (allowed_route_op platform (if_table (wc_interface c)) policy ft) routes
        @ (if platform = PfWindows
           then map dns_host_op
             (filter (\<lambda>a. (is_ipv4 a \<and> ft_ipv4 ft) \<or> (is_ipv6 a \<and> ft_ipv6 ft))
               (if_dns_servers (wc_interface c)))
           else []))"

definition build_policy_rule_ops ::
  "route_plan_platform \<Rightarrow> wireguard_config \<Rightarrow> full_tunnel_status \<Rightarrow> u32 option
   \<Rightarrow> policy_rule_op list" where
  "build_policy_rule_ops platform c ft policy =
     (if platform \<noteq> PfLinux \<or> if_table (wc_interface c) = Some RtOff then []
      else case policy of
             None \<Rightarrow> []
           | Some t \<Rightarrow>
               (case if_fwmark (wc_interface c) of
                  None \<Rightarrow> []
                | Some m \<Rightarrow>
                    (if ft_ipv4 ft
                     then [\<lparr>po_family = FamIpv4, po_table_id = t, po_fwmark = m\<rparr>] else [])
                  @ (if ft_ipv6 ft
                     then [\<lparr>po_family = FamIpv6, po_table_id = t, po_fwmark = m\<rparr>] else [])))"

definition build_metric_ops ::
  "route_plan_platform \<Rightarrow> wireguard_config \<Rightarrow> full_tunnel_status \<Rightarrow> metric_op list" where
  "build_metric_ops platform c ft =
     (if platform \<noteq> PfWindows \<or> if_table (wc_interface c) = Some RtOff then []
      else (if ft_ipv4 ft then [\<lparr>mo_family = FamIpv4, mo_metric = 0\<rparr>] else [])
         @ (if ft_ipv6 ft then [\<lparr>mo_family = FamIpv6, mo_metric = 0\<rparr>] else []))"

text \<open>The \<open>match endpoint.host.parse::<IpAddr>()\<close> both bypass loops share.\<close>

definition endpoint_needs_bypass :: "full_tunnel_status \<Rightarrow> endpoint \<Rightarrow> bool" where
  "endpoint_needs_bypass ft e =
     (case parse_ip (ep_host e) of
        Some (V4 _) \<Rightarrow> ft_ipv4 ft
      | Some (V6 _) \<Rightarrow> ft_ipv6 ft
      | None \<Rightarrow> ft_any ft)"

fun bypass_ops_loop :: "full_tunnel_status \<Rightarrow> peer_config list \<Rightarrow> bypass_op list" where
  "bypass_ops_loop ft [] = []"
| "bypass_ops_loop ft (p # ps) =
     (case pc_endpoint p of
        None \<Rightarrow> bypass_ops_loop ft ps
      | Some e \<Rightarrow>
          if endpoint_needs_bypass ft e
          then \<lparr>bo_host = ep_host e, bo_port = ep_port e\<rparr> # bypass_ops_loop ft ps
          else bypass_ops_loop ft ps)"

definition build_bypass_ops ::
  "route_plan_platform \<Rightarrow> wireguard_config \<Rightarrow> full_tunnel_status \<Rightarrow> bypass_op list" where
  "build_bypass_ops platform c ft =
     (if platform \<noteq> PfWindows \<or> if_table (wc_interface c) = Some RtOff \<or> \<not> ft_any ft then []
      else bypass_ops_loop ft (wc_peers c))"

fun bypass_count_loop :: "full_tunnel_status \<Rightarrow> nat \<Rightarrow> peer_config list \<Rightarrow> nat" where
  "bypass_count_loop ft n [] = n"
| "bypass_count_loop ft n (p # ps) =
     (case pc_endpoint p of
        None \<Rightarrow> bypass_count_loop ft n ps
      | Some e \<Rightarrow>
          if endpoint_needs_bypass ft e then bypass_count_loop ft (n + 1) ps
          else bypass_count_loop ft n ps)"

definition windows_planned_bypass_count ::
  "route_plan_platform \<Rightarrow> peer_config list \<Rightarrow> full_tunnel_status \<Rightarrow> nat" where
  "windows_planned_bypass_count platform peers ft =
     (if platform \<noteq> PfWindows \<or> \<not> ft_any ft then 0 else bypass_count_loop ft 0 peers)"

definition build :: "route_plan_platform \<Rightarrow> wireguard_config \<Rightarrow> route_plan" where
  "build platform c =
     (let routes = collect_allowed_routes (wc_peers c);
          ft = detect_full_tunnel routes;
          policy = linux_policy_table_id platform (if_table (wc_interface c)) ft;
          bypass = build_bypass_ops platform c ft
      in \<lparr>rp_platform = platform,
          rp_requested_table = if_table (wc_interface c),
          rp_allowed_routes = routes,
          rp_full_tunnel = ft,
          rp_linux_policy_table_id = policy,
          rp_route_ops = build_route_ops platform c routes ft policy,
          rp_policy_rule_ops = build_policy_rule_ops platform c ft policy,
          rp_metric_ops = build_metric_ops platform c ft,
          rp_bypass_ops = bypass,
          rp_windows_planned_bypass_count = length bypass\<rparr>)"

definition plan_route_table_for :: "route_plan \<Rightarrow> allowed_ip \<Rightarrow> u32 option" where
  "plan_route_table_for p r =
     linux_route_table_for (rp_platform p) (rp_requested_table p) (rp_linux_policy_table_id p)
       (rp_full_tunnel p) r"

subsection \<open>\<open>util.rs\<close> and \<open>ids.rs\<close>\<close>

definition format_route_table :: "route_table option \<Rightarrow> string" where
  "format_route_table t =
     (case t of
        Some RtAuto \<Rightarrow> ''auto''
      | Some RtOff \<Rightarrow> ''off''
      | Some (RtId i) \<Rightarrow> ''id:'' @ show_nat (unat i)
      | None \<Rightarrow> ''main'')"

definition effective_route_table_label ::
  "route_plan_platform \<Rightarrow> route_table option \<Rightarrow> u32 option \<Rightarrow> allowed_ip \<Rightarrow> full_tunnel_status
   \<Rightarrow> string" where
  "effective_route_table_label platform table policy r ft =
     (case platform of
        PfLinux \<Rightarrow>
          (case policy of
             Some t \<Rightarrow>
               if ft_matches ft (addr r) then ''table '' @ show_nat (unat t)
               else (case table of
                       Some (RtId i) \<Rightarrow> ''table '' @ show_nat (unat i)
                     | Some RtOff \<Rightarrow> ''off''
                     | _ \<Rightarrow> ''main'')
           | None \<Rightarrow>
               (case table of
                  Some (RtId i) \<Rightarrow> ''table '' @ show_nat (unat i)
                | Some RtOff \<Rightarrow> ''off''
                | _ \<Rightarrow> ''main''))
      | PfWindows \<Rightarrow> (case table of Some RtOff \<Rightarrow> ''off'' | _ \<Rightarrow> ''tunnel adapter'')
      | PfOther \<Rightarrow> format_route_table table)"

definition plan_route_table_label :: "route_plan \<Rightarrow> allowed_ip \<Rightarrow> string" where
  "plan_route_table_label p r =
     effective_route_table_label (rp_platform p) (rp_requested_table p)
       (rp_linux_policy_table_id p) r (rp_full_tunnel p)"

definition route_text :: "ip_addr \<Rightarrow> u8 \<Rightarrow> string" where
  "route_text a c = show_ip a @ ''/'' @ show_nat (unat c)"

definition item_id :: "string \<Rightarrow> string \<Rightarrow> string" where
  "item_id pre suf = pre @ '':'' @ to_ascii_lowercase suf"

definition route_item_id :: "route_op \<Rightarrow> string" where
  "route_item_id r =
     (case ro_kind r of
        RkAllowed \<Rightarrow> item_id ''allowed'' (route_text (addr (ro_route r)) (cidr (ro_route r)))
      | RkDnsHost \<Rightarrow> item_id ''dns-route'' (show_ip (addr (ro_route r))))"

definition policy_item_id :: "policy_rule_op \<Rightarrow> string" where
  "policy_item_id p = (case po_family p of FamIpv4 \<Rightarrow> ''policy-v4'' | FamIpv6 \<Rightarrow> ''policy-v6'')"

definition metric_item_id :: "metric_op \<Rightarrow> string" where
  "metric_item_id m = (case mo_family m of FamIpv4 \<Rightarrow> ''metric-v4'' | FamIpv6 \<Rightarrow> ''metric-v6'')"

definition bypass_item_id :: "bypass_op \<Rightarrow> string" where
  "bypass_item_id b =
     item_id (if parse_ip (bo_host b) \<noteq> None then ''bypass'' else ''bypass-pending'')
       (bo_host b @ '':'' @ show_nat (unat (bo_port b)))"


subsection \<open>Full tunnels\<close>

lemma foldl_detect:
  "ft_ipv4 (foldl detect_step f rs) = (ft_ipv4 f \<or> AllowedIp (V4 0) 0 \<in> set rs)"
  "ft_ipv6 (foldl detect_step f rs) = (ft_ipv6 f \<or> AllowedIp (V6 0) 0 \<in> set rs)"
  by (induction rs arbitrary: f)
    (auto simp: detect_step_def split: ip_addr.splits allowed_ip.splits,
      (metis allowed_ip.collapse)+)

lemma detect_full_tunnel_iff [simp]:
  "ft_ipv4 (detect_full_tunnel rs) = (AllowedIp (V4 0) 0 \<in> set rs)"
  "ft_ipv6 (detect_full_tunnel rs) = (AllowedIp (V6 0) 0 \<in> set rs)"
  by (simp_all add: detect_full_tunnel_def foldl_detect ft_default_def)

lemma set_collect_allowed_routes [simp]:
  "set (collect_allowed_routes ps) = (\<Union>p \<in> set ps. set (pc_allowed_ips p))"
  by (simp add: collect_allowed_routes_def set_dedup_seen)

lemma distinct_collect_allowed_routes [simp]: "distinct (collect_allowed_routes ps)"
  by (simp add: collect_allowed_routes_def distinct_dedup_seen)

lemma is_unspecified_iff: "is_unspecified a \<longleftrightarrow> a = V4 0 \<or> a = V6 0"
  by (cases a) auto

lemma wants_full_tunnel_iff:
  "wants_full_tunnel ps = ft_any (detect_full_tunnel (collect_allowed_routes ps))"
  by (auto simp: wants_full_tunnel_def ft_any_def list_ex_iff is_unspecified_iff)
    (metis allowed_ip.collapse allowed_ip.sel)+

subsection \<open>Normalisation\<close>

lemma normalize_total: "\<exists>c'. normalize_config_for_runtime c sel = Some c'"
  using apply_dns_selection_total [of "if_dns_servers (wc_interface c)"
      "if_dns_search (wc_interface c)" sel]
  by (auto simp: normalize_config_for_runtime_def Let_def)

lemma normalize_frame:
  assumes "normalize_config_for_runtime c sel = Some c'"
  shows "wc_peers c' = wc_peers c"
    and "if_table (wc_interface c') = if_table (wc_interface c)"
    and "wants_full_tunnel (wc_peers c) \<Longrightarrow> if_fwmark (wc_interface c') \<noteq> None"
    and "if_fwmark (wc_interface c) = Some m \<Longrightarrow> if_fwmark (wc_interface c') = Some m"
    and "if_private_key (wc_interface c') = if_private_key (wc_interface c)"
    and "if_addresses (wc_interface c') = if_addresses (wc_interface c)"
  using assms
  by (auto simp: normalize_config_for_runtime_def Let_def split: option.splits if_splits)

lemma normalize_idem:
  assumes "normalize_config_for_runtime c sel = Some c'"
  shows "normalize_config_for_runtime c' sel = Some c'"
proof -
  let ?i = "wc_interface c"
  obtain sv se where dns: "apply_dns_selection (if_dns_servers ?i) (if_dns_search ?i) sel
      = Some (sv, se)"
    using assms by (auto simp: normalize_config_for_runtime_def Let_def split: option.splits)
  show ?thesis
    using assms dns apply_dns_selection_idem [OF dns]
    by (auto simp: normalize_config_for_runtime_def Let_def split: if_splits)
qed

subsection \<open>The plan\<close>

lemma build_simps [simp]:
  "rp_platform (build pf c) = pf"
  "rp_requested_table (build pf c) = if_table (wc_interface c)"
  "rp_allowed_routes (build pf c) = collect_allowed_routes (wc_peers c)"
  "rp_full_tunnel (build pf c) = detect_full_tunnel (collect_allowed_routes (wc_peers c))"
  "rp_linux_policy_table_id (build pf c) = linux_policy_table_id pf (if_table (wc_interface c))
     (detect_full_tunnel (collect_allowed_routes (wc_peers c)))"
  by (simp_all add: build_def Let_def)

definition full_families :: "full_tunnel_status \<Rightarrow> route_plan_family set" where
  "full_families ft = (if ft_ipv4 ft then {FamIpv4} else {}) \<union> (if ft_ipv6 ft then {FamIpv6} else {})"

text \<open>On Linux a full tunnel of a normalised configuration always gets its policy rules.\<close>

lemma linux_policy_rules:
  assumes "normalize_config_for_runtime c sel = Some c'"
    and "if_table (wc_interface c) \<noteq> Some RtOff"
  shows "po_family ` set (rp_policy_rule_ops (build PfLinux c'))
           = full_families (rp_full_tunnel (build PfLinux c'))
       \<and> distinct (map po_family (rp_policy_rule_ops (build PfLinux c')))
       \<and> (\<forall>r \<in> set (rp_policy_rule_ops (build PfLinux c')).
            Some (po_table_id r) = rp_linux_policy_table_id (build PfLinux c')
          \<and> Some (po_fwmark r) = if_fwmark (wc_interface c'))"
proof -
  note nf = normalize_frame [OF assms(1)]
  let ?ft = "detect_full_tunnel (collect_allowed_routes (wc_peers c'))"
  show ?thesis
  proof (cases "ft_any ?ft")
    case False
    then show ?thesis
      by (auto simp: build_def Let_def build_policy_rule_ops_def linux_policy_table_id_def
          full_families_def ft_any_def simp del: detect_full_tunnel_iff)
  next
    case True
    then obtain m where "if_fwmark (wc_interface c') = Some m"
      using nf(1,3) wants_full_tunnel_iff by auto
    with True assms(2) nf(2) show ?thesis
      by (cases "ft_ipv4 ?ft"; cases "ft_ipv6 ?ft")
        (simp_all add: build_def Let_def build_policy_rule_ops_def linux_policy_table_id_def
          full_families_def ft_any_def insert_commute del: detect_full_tunnel_iff)
  qed
qed

lemma linux_route_tables:
  assumes "if_table (wc_interface c) \<noteq> Some RtOff"
  shows "map ro_route (rp_route_ops (build PfLinux c)) = rp_allowed_routes (build PfLinux c)
       \<and> (\<forall>r \<in> set (rp_route_ops (build PfLinux c)). ro_kind r = RkAllowed
          \<and> ro_table_id r = plan_route_table_for (build PfLinux c) (ro_route r))"
  using assms
  by (auto simp: build_def Let_def build_route_ops_def allowed_route_op_def
      plan_route_table_for_def comp_def)

lemma build_off:
  assumes "if_table (wc_interface c) = Some RtOff"
  shows "rp_route_ops (build pf c) = [] \<and> rp_policy_rule_ops (build pf c) = []
       \<and> rp_metric_ops (build pf c) = [] \<and> rp_bypass_ops (build pf c) = []
       \<and> rp_linux_policy_table_id (build pf c) = None"
  using assms by (simp add: build_def Let_def build_route_ops_def build_policy_rule_ops_def
      build_metric_ops_def build_bypass_ops_def linux_policy_table_id_def)

lemma build_platform:
  "pf \<noteq> PfLinux \<Longrightarrow> rp_policy_rule_ops (build pf c) = []"
  "pf \<noteq> PfWindows \<Longrightarrow> rp_metric_ops (build pf c) = [] \<and> rp_bypass_ops (build pf c) = []"
  by (simp_all add: build_def Let_def build_policy_rule_ops_def build_metric_ops_def
      build_bypass_ops_def)

lemma bypass_count_loop: "bypass_count_loop ft n ps = n + length (bypass_ops_loop ft ps)"
  by (induction ft n ps rule: bypass_count_loop.induct) (auto split: option.splits)

lemma windows_bypass_count:
  "if_table (wc_interface c) \<noteq> Some RtOff \<Longrightarrow>
   windows_planned_bypass_count pf (wc_peers c) (rp_full_tunnel (build pf c))
     = rp_windows_planned_bypass_count (build pf c)"
  by (simp add: build_def Let_def windows_planned_bypass_count_def build_bypass_ops_def
      bypass_count_loop)

lemma windows_metrics:
  assumes "if_table (wc_interface c) \<noteq> Some RtOff"
  shows "set (map mo_family (rp_metric_ops (build PfWindows c)))
           = full_families (rp_full_tunnel (build PfWindows c))"
  using assms by (auto simp: build_def Let_def build_metric_ops_def full_families_def)

text \<open>The label shown for a route names the table the route is installed in.\<close>

lemma linux_label:
  assumes "if_table (wc_interface c) \<noteq> Some RtOff"
  shows "plan_route_table_label (build PfLinux c) r =
     (case plan_route_table_for (build PfLinux c) r of
        Some t \<Rightarrow> ''table '' @ show_nat (unat t) | None \<Rightarrow> ''main'')"
  using assms
  by (auto simp: plan_route_table_label_def effective_route_table_label_def
      plan_route_table_for_def linux_route_table_for_def route_table_id_def
      split: option.splits route_table.splits)

lemmas route_plan_eval [eval_simps] =
  DEFAULT_FULL_TUNNEL_FWMARK_def LINUX_DEFAULT_POLICY_TABLE_ID_def ft_default_def ft_any_def
  ft_matches_def wants_full_tunnel_def normalize_config_for_runtime_def
  collect_allowed_routes_def detect_step_def linux_policy_table_id_def route_table_id_def
  linux_route_table_for_def allowed_route_op_def dns_host_op_def build_route_ops_def
  build_policy_rule_ops_def build_metric_ops_def endpoint_needs_bypass_def build_bypass_ops_def
  windows_planned_bypass_count_def build_def format_route_table_def route_text_def item_id_def
  route_item_id_def policy_item_id_def metric_item_id_def bypass_item_id_def

end
