(* ===== verification/Route_Report.thy ===== *)
theory Route_Report
  imports Route_Plan
begin

text \<open>
  \<open>core/route_plan/apply_report.rs\<close>: the report the network backends fill while they
  apply a plan. Kind, phase and failure kind of an entry are inferred from its identifier,
  with the caller's kind as the fallback.
\<close>

datatype apply_status = Applied | Skipped | Failed

datatype report_source = Live | Persisted

datatype attempt_state = Applying | RunningAttempt | FailedAttempt

datatype apply_phase = PhApply | PhCleanup | PhRecovery

datatype apply_kind =
  KOther | KAdapter | KRecoveryJournal | KAddress | KPolicyRule | KRoute | KMetric
| KBypassRoute | KDns | KNrpt | KDnsGuard | KKillSwitch

fun apply_kind_label :: "apply_kind \<Rightarrow> string" where
  "apply_kind_label KOther = ''operation''"
| "apply_kind_label KAdapter = ''adapter''"
| "apply_kind_label KRecoveryJournal = ''recovery journal''"
| "apply_kind_label KAddress = ''address''"
| "apply_kind_label KPolicyRule = ''policy rule''"
| "apply_kind_label KRoute = ''route''"
| "apply_kind_label KMetric = ''metric''"
| "apply_kind_label KBypassRoute = ''bypass route''"
| "apply_kind_label KDns = ''DNS''"
| "apply_kind_label KNrpt = ''NRPT''"
| "apply_kind_label KDnsGuard = ''DNS guard''"
| "apply_kind_label KKillSwitch = ''Kill switch''"

datatype failure_kind = FPrecondition | FLookup | FPersistence | FVerification | FSystem | FCleanup

fun failure_kind_label :: "failure_kind \<Rightarrow> string" where
  "failure_kind_label FPrecondition = ''precondition''"
| "failure_kind_label FLookup = ''lookup''"
| "failure_kind_label FPersistence = ''persistence''"
| "failure_kind_label FVerification = ''verification''"
| "failure_kind_label FSystem = ''system''"
| "failure_kind_label FCleanup = ''cleanup''"

record report_entry =
  re_item_id :: string
  re_status :: apply_status
  re_phase :: apply_phase
  re_kind :: apply_kind
  re_failure_kind :: "failure_kind option"
  re_evidence :: "string list"

record apply_report =
  rr_platform :: "route_plan_platform option"
  rr_source :: report_source
  rr_attempt_state :: attempt_state
  rr_entries :: "report_entry list"

definition report_new :: "route_plan_platform \<Rightarrow> apply_report" where
  "report_new pf =
     \<lparr>rr_platform = Some pf, rr_source = Live, rr_attempt_state = Applying, rr_entries = []\<rparr>"

subsection \<open>Inference from the identifier\<close>

definition infer_apply_phase :: "string \<Rightarrow> apply_phase" where
  "infer_apply_phase i =
     (if i = ''apply:recovery'' \<or> i = ''apply:recovery_init'' then PhRecovery
      else if starts_with ''cleanup:'' i then PhCleanup
      else PhApply)"

definition infer_apply_kind :: "string \<Rightarrow> apply_kind option" where
  "infer_apply_kind i =
     (if i = ''policy-v4'' \<or> i = ''policy-v6'' \<or> starts_with ''policy:'' i then Some KPolicyRule
      else if i = ''metric-v4'' \<or> i = ''metric-v6'' \<or> starts_with ''metric:'' i then Some KMetric
      else if starts_with ''bypass:'' i \<or> starts_with ''bypass-pending:'' i then Some KBypassRoute
      else if starts_with ''allowed:'' i \<or> starts_with ''dns-route:'' i \<or> starts_with ''route:'' i
      then Some KRoute
      else if i = ''apply:adapter_lookup'' \<or> i = ''apply:linux:netlink'' then Some KAdapter
      else if starts_with ''apply:address:'' i \<or> i = ''apply:addresses'' then Some KAddress
      else if i = ''apply:dns'' then Some KDns
      else if i = ''apply:nrpt'' then Some KNrpt
      else if i = ''apply:dns_guard'' then Some KDnsGuard
      else if starts_with ''apply:linux:kill_switch'' i then Some KKillSwitch
      else if i = ''apply:recovery'' \<or> i = ''apply:recovery_init'' then Some KRecoveryJournal
      else None)"

definition infer_failure_kind :: "string \<Rightarrow> failure_kind option" where
  "infer_failure_kind i =
     (if i = ''apply:adapter_lookup'' then Some FLookup
      else if i = ''apply:recovery'' \<or> i = ''apply:recovery_init'' then Some FPersistence
      else if i = ''apply:stale_address_cleanup'' then Some FCleanup
      else if starts_with ''apply:'' i \<or> starts_with ''allowed:'' i
        \<or> i = ''policy-v4'' \<or> i = ''policy-v6'' \<or> i = ''metric-v4'' \<or> i = ''metric-v6''
        \<or> starts_with ''bypass:'' i \<or> starts_with ''bypass-pending:'' i
        \<or> starts_with ''dns-route:'' i
      then Some FSystem
      else None)"

subsection \<open>Operations\<close>

definition push_entry ::
  "apply_status \<Rightarrow> string \<Rightarrow> apply_kind \<Rightarrow> failure_kind option \<Rightarrow> string list \<Rightarrow> apply_report
   \<Rightarrow> apply_report" where
  "push_entry st i k fk ev r =
     r\<lparr>rr_entries := rr_entries r @
        [\<lparr>re_item_id = i, re_status = st, re_phase = infer_apply_phase i,
          re_kind = (case infer_apply_kind i of Some x \<Rightarrow> x | None \<Rightarrow> k),
          re_failure_kind = fk, re_evidence = ev\<rparr>]\<rparr>"

definition push_applied_kind ::
  "string \<Rightarrow> apply_kind \<Rightarrow> string list \<Rightarrow> apply_report \<Rightarrow> apply_report" where
  "push_applied_kind i k ev r = push_entry Applied i k None ev r"

definition push_applied :: "string \<Rightarrow> string list \<Rightarrow> apply_report \<Rightarrow> apply_report" where
  "push_applied i ev r = push_applied_kind i KOther ev r"

definition push_skipped_kind ::
  "string \<Rightarrow> apply_kind \<Rightarrow> string list \<Rightarrow> apply_report \<Rightarrow> apply_report" where
  "push_skipped_kind i k ev r = push_entry Skipped i k None ev r"

definition push_skipped :: "string \<Rightarrow> string list \<Rightarrow> apply_report \<Rightarrow> apply_report" where
  "push_skipped i ev r = push_skipped_kind i KOther ev r"

definition push_failed_kind ::
  "string \<Rightarrow> apply_kind \<Rightarrow> failure_kind option \<Rightarrow> string list \<Rightarrow> apply_report \<Rightarrow> apply_report"
where
  "push_failed_kind i k fk ev r =
     push_entry Failed i k (case fk of Some f \<Rightarrow> Some f | None \<Rightarrow> infer_failure_kind i) ev r"

definition push_failed :: "string \<Rightarrow> string list \<Rightarrow> apply_report \<Rightarrow> apply_report" where
  "push_failed i ev r = push_failed_kind i KOther None ev r"

definition mark_running :: "apply_report \<Rightarrow> apply_report" where
  "mark_running r = r\<lparr>rr_attempt_state := RunningAttempt\<rparr>"

definition mark_failed :: "apply_report \<Rightarrow> apply_report" where
  "mark_failed r = r\<lparr>rr_attempt_state := FailedAttempt\<rparr>"

definition mark_persisted :: "apply_report \<Rightarrow> apply_report" where
  "mark_persisted r = r\<lparr>rr_source := Persisted\<rparr>"

subsection \<open>The identifiers of a plan\<close>

text \<open>
  Entries pushed under the identifier of an operation of the plan are classified by the
  operation, whatever kind the caller passes; a failure without an explicit kind is a
  system failure.
\<close>

lemma plan_item_shapes:
  "\<exists>s. route_item_id ro = ''allowed:'' @ s \<or> route_item_id ro = ''dns-route:'' @ s"
  "policy_item_id po = ''policy-v4'' \<or> policy_item_id po = ''policy-v6''"
  "metric_item_id mo = ''metric-v4'' \<or> metric_item_id mo = ''metric-v6''"
  "\<exists>s. bypass_item_id bo = ''bypass:'' @ s \<or> bypass_item_id bo = ''bypass-pending:'' @ s"
proof -
  show "\<exists>s. route_item_id ro = ''allowed:'' @ s \<or> route_item_id ro = ''dns-route:'' @ s"
    by (cases "ro_kind ro") (simp_all add: route_item_id_def item_id_def)
  show "policy_item_id po = ''policy-v4'' \<or> policy_item_id po = ''policy-v6''"
    by (cases "po_family po") (simp_all add: policy_item_id_def)
  show "metric_item_id mo = ''metric-v4'' \<or> metric_item_id mo = ''metric-v6''"
    by (cases "mo_family mo") (simp_all add: metric_item_id_def)
  show "\<exists>s. bypass_item_id bo = ''bypass:'' @ s \<or> bypass_item_id bo = ''bypass-pending:'' @ s"
    by (simp add: bypass_item_id_def item_id_def)
qed

lemma infer_kind_shapes:
  "infer_apply_kind (''allowed:'' @ s) = Some KRoute"
  "infer_apply_kind (''dns-route:'' @ s) = Some KRoute"
  "infer_apply_kind ''policy-v4'' = Some KPolicyRule" "infer_apply_kind ''policy-v6'' = Some KPolicyRule"
  "infer_apply_kind ''metric-v4'' = Some KMetric" "infer_apply_kind ''metric-v6'' = Some KMetric"
  "infer_apply_kind (''bypass:'' @ s) = Some KBypassRoute"
  "infer_apply_kind (''bypass-pending:'' @ s) = Some KBypassRoute"
  by (simp_all add: infer_apply_kind_def)

lemma infer_failure_shapes:
  "infer_failure_kind (''allowed:'' @ s) = Some FSystem"
  "infer_failure_kind (''dns-route:'' @ s) = Some FSystem"
  "infer_failure_kind ''policy-v4'' = Some FSystem" "infer_failure_kind ''policy-v6'' = Some FSystem"
  "infer_failure_kind ''metric-v4'' = Some FSystem" "infer_failure_kind ''metric-v6'' = Some FSystem"
  "infer_failure_kind (''bypass:'' @ s) = Some FSystem"
  "infer_failure_kind (''bypass-pending:'' @ s) = Some FSystem"
  by (simp_all add: infer_failure_kind_def)

lemma infer_phase_shapes:
  "infer_apply_phase (''allowed:'' @ s) = PhApply" "infer_apply_phase (''dns-route:'' @ s) = PhApply"
  "infer_apply_phase ''policy-v4'' = PhApply" "infer_apply_phase ''policy-v6'' = PhApply"
  "infer_apply_phase ''metric-v4'' = PhApply" "infer_apply_phase ''metric-v6'' = PhApply"
  "infer_apply_phase (''bypass:'' @ s) = PhApply"
  "infer_apply_phase (''bypass-pending:'' @ s) = PhApply"
  by (simp_all add: infer_apply_phase_def)

lemma plan_item_kinds:
  "infer_apply_kind (route_item_id ro) = Some KRoute"
  "infer_apply_kind (policy_item_id po) = Some KPolicyRule"
  "infer_apply_kind (metric_item_id mo) = Some KMetric"
  "infer_apply_kind (bypass_item_id bo) = Some KBypassRoute"
  using plan_item_shapes(1) [of ro] plan_item_shapes(2) [of po] plan_item_shapes(3) [of mo]
    plan_item_shapes(4) [of bo] infer_kind_shapes by metis+

lemma plan_item_failures:
  "infer_failure_kind (route_item_id ro) = Some FSystem"
  "infer_failure_kind (policy_item_id po) = Some FSystem"
  "infer_failure_kind (metric_item_id mo) = Some FSystem"
  "infer_failure_kind (bypass_item_id bo) = Some FSystem"
  using plan_item_shapes(1) [of ro] plan_item_shapes(2) [of po] plan_item_shapes(3) [of mo]
    plan_item_shapes(4) [of bo] infer_failure_shapes by metis+

lemma plan_item_phases:
  "infer_apply_phase (route_item_id ro) = PhApply"
  "infer_apply_phase (policy_item_id po) = PhApply"
  "infer_apply_phase (metric_item_id mo) = PhApply"
  "infer_apply_phase (bypass_item_id bo) = PhApply"
  using plan_item_shapes(1) [of ro] plan_item_shapes(2) [of po] plan_item_shapes(3) [of mo]
    plan_item_shapes(4) [of bo] infer_phase_shapes by metis+

lemma report_entries_append:
  "rr_entries (push_applied_kind i k ev r) \<noteq> rr_entries r"
  "rr_attempt_state (push_applied_kind i k ev r) = rr_attempt_state r"
  "rr_attempt_state (push_skipped_kind i k ev r) = rr_attempt_state r"
  "rr_attempt_state (push_failed_kind i k fk ev r) = rr_attempt_state r"
  by (simp_all add: push_applied_kind_def push_skipped_kind_def push_failed_kind_def
      push_entry_def)

definition wf_entry :: "report_entry \<Rightarrow> bool" where
  "wf_entry e =
     ((re_status e \<noteq> Failed \<longrightarrow> re_failure_kind e = None)
    \<and> re_phase e = infer_apply_phase (re_item_id e)
    \<and> (\<forall>k. infer_apply_kind (re_item_id e) = Some k \<longrightarrow> re_kind e = k))"

definition wf_report :: "apply_report \<Rightarrow> bool" where
  "wf_report r = list_all wf_entry (rr_entries r)"

lemma wf_report_push:
  "wf_report r \<Longrightarrow> wf_report (push_applied_kind i k ev r)"
  "wf_report r \<Longrightarrow> wf_report (push_skipped_kind i k ev r)"
  "wf_report r \<Longrightarrow> wf_report (push_failed_kind i k fk ev r)"
  by (auto simp: wf_report_def wf_entry_def push_applied_kind_def push_skipped_kind_def
      push_failed_kind_def push_entry_def)

end
