(* ===== verification/Plan_Properties.thy ===== *)
theory Plan_Properties
  imports Route_Report Config_Sample
begin

text \<open>
  The properties of the DNS rewrite, of the route plan and of the apply report.
\<close>

subsection \<open>DNS selection and normalisation\<close>

text \<open>C18: the DNS rewrite never reaches the panic of its tables, and applying the same selection
  to its own result changes nothing.\<close>

theorem dns_selection_settles:
  "\<exists>servers' search'. apply_dns_selection servers search sel = Some (servers', search')
     \<and> apply_dns_selection servers' search' sel = Some (servers', search')"
proof -
  obtain r where "apply_dns_selection servers search sel = Some r"
    using apply_dns_selection_total by blast
  then show ?thesis using apply_dns_selection_idem by (cases r) blast
qed

text \<open>In auto-fill mode the configured servers stay in front, both families are served
  afterwards, and nothing is added when both were there.\<close>

theorem dns_autofill:
  "\<exists>added. apply_dns_selection servers search
       \<lparr>dsel_mode = AutoFillMissingFamilies, dsel_preset = p\<rparr> = Some (servers @ added, search)
     \<and> both_families (servers @ added) \<and> (both_families servers \<longleftrightarrow> added = [])"
proof -
  let ?sel = "\<lparr>dsel_mode = AutoFillMissingFamilies, dsel_preset = p\<rparr>"
  obtain servers' search' where a: "apply_dns_selection servers search ?sel = Some (servers', search')"
    using apply_dns_selection_total [of servers search ?sel] by auto
  obtain added where r: "both_families servers'" "servers' = servers @ added" "search' = search"
    "both_families servers \<longrightarrow> servers' = servers"
    using autofill_result [OF a] by auto
  then have "both_families servers \<longleftrightarrow> added = []" by auto
  with a r show ?thesis by blast
qed

text \<open>C19: the normalisation of a configuration returns, is idempotent, keeps the peers and the
  table, and gives every full tunnel a firewall mark, the configured one when there is one.\<close>

theorem normalisation_settles:
  "\<exists>c'. normalize_config_for_runtime c sel = Some c'
     \<and> normalize_config_for_runtime c' sel = Some c'
     \<and> wc_peers c' = wc_peers c
     \<and> if_table (wc_interface c') = if_table (wc_interface c)
     \<and> if_fwmark (wc_interface c')
         = (if wants_full_tunnel (wc_peers c) \<and> if_fwmark (wc_interface c) = None
            then Some DEFAULT_FULL_TUNNEL_FWMARK else if_fwmark (wc_interface c))"
proof -
  obtain c' where c': "normalize_config_for_runtime c sel = Some c'"
    using normalize_total by blast
  have "if_fwmark (wc_interface c')
      = (if wants_full_tunnel (wc_peers c) \<and> if_fwmark (wc_interface c) = None
         then Some DEFAULT_FULL_TUNNEL_FWMARK else if_fwmark (wc_interface c))"
    using c' by (auto simp: normalize_config_for_runtime_def Let_def split: option.splits)
  with c' normalize_idem [OF c'] normalize_frame(1,2) [OF c'] show ?thesis by blast
qed

subsection \<open>The plan\<close>

text \<open>C20: on Linux, unless the table is off, the plan of a normalised configuration has one
  policy rule for every address family that is fully tunnelled, no other, and each rule
  carries the plan's table and the configuration's mark.\<close>

theorem policy_rules_cover_full_tunnel:
  assumes "normalize_config_for_runtime c sel = Some c'"
    and "if_table (wc_interface c) \<noteq> Some RtOff"
  shows "po_family ` set (rp_policy_rule_ops (build PfLinux c'))
           = full_families (rp_full_tunnel (build PfLinux c'))
       \<and> distinct (map po_family (rp_policy_rule_ops (build PfLinux c')))
       \<and> (\<forall>r \<in> set (rp_policy_rule_ops (build PfLinux c')).
            Some (po_table_id r) = rp_linux_policy_table_id (build PfLinux c')
          \<and> Some (po_fwmark r) = if_fwmark (wc_interface c'))"
  using linux_policy_rules [OF assms] .

theorem policy_rules_witness:
  "\<exists>c'. normalize_config_for_runtime sample_config \<lparr>dsel_mode = FollowConfig, dsel_preset = AdguardFamily\<rparr>
      = Some c' \<and> po_family ` set (rp_policy_rule_ops (build PfLinux c')) = {FamIpv4}"
proof -
  let ?sel = "\<lparr>dsel_mode = FollowConfig, dsel_preset = AdguardFamily\<rparr>"
  obtain c' where c': "normalize_config_for_runtime sample_config ?sel = Some c'"
    using normalize_total by blast
  have off: "if_table (wc_interface sample_config) \<noteq> Some RtOff" by (simp add: sample_config_def)
  have "full_families (rp_full_tunnel (build PfLinux c')) = {FamIpv4}"
    using normalize_frame(1) [OF c']
    by (simp add: build_def Let_def full_families_def sample_config_def)
  then show ?thesis using policy_rules_cover_full_tunnel [OF c' off] c' by auto
qed

text \<open>On Linux, unless the table is off, every allowed route is planned once, in order, in
  the table \<open>linux_route_table_for\<close> names, and its label names that table.\<close>

theorem linux_routes_and_labels:
  assumes "if_table (wc_interface c) \<noteq> Some RtOff"
  shows "map ro_route (rp_route_ops (build PfLinux c)) = rp_allowed_routes (build PfLinux c)
       \<and> map ro_table_id (rp_route_ops (build PfLinux c))
           = map (plan_route_table_for (build PfLinux c)) (rp_allowed_routes (build PfLinux c))
       \<and> plan_route_table_label (build PfLinux c) r =
          (case plan_route_table_for (build PfLinux c) r of
             Some t \<Rightarrow> ''table '' @ show_nat (unat t) | None \<Rightarrow> ''main'')"
proof -
  let ?p = "build PfLinux c"
  have routes: "map ro_route (rp_route_ops ?p) = rp_allowed_routes ?p"
    using linux_route_tables [OF assms] by blast
  have "map ro_table_id (rp_route_ops ?p) = map (plan_route_table_for ?p \<circ> ro_route) (rp_route_ops ?p)"
    using linux_route_tables [OF assms] by (intro map_cong) auto
  also have "\<dots> = map (plan_route_table_for ?p) (rp_allowed_routes ?p)"
    unfolding routes [symmetric] by (simp only: map_map)
  finally show ?thesis using routes linux_label [OF assms] by blast
qed

theorem linux_routes_witness:
  "map ro_table_id (rp_route_ops (build PfLinux sample_config)) = [Some 200]"
proof -
  have off: "if_table (wc_interface sample_config) \<noteq> Some RtOff" by (simp add: sample_config_def)
  have "map (plan_route_table_for (build PfLinux sample_config))
      (rp_allowed_routes (build PfLinux sample_config)) = [Some 200]"
    by (simp add: build_def Let_def sample_config_def plan_route_table_for_def
        linux_route_table_for_def linux_policy_table_id_def collect_allowed_routes_def
        ft_any_def ft_matches_def LINUX_DEFAULT_POLICY_TABLE_ID_def)
  then show ?thesis using linux_routes_and_labels [OF off] by simp
qed

text \<open>C21: with the table off the plan touches nothing on any platform.\<close>

theorem table_off_plans_nothing:
  assumes "if_table (wc_interface c) = Some RtOff"
  shows "rp_route_ops (build pf c) = [] \<and> rp_policy_rule_ops (build pf c) = []
       \<and> rp_metric_ops (build pf c) = [] \<and> rp_bypass_ops (build pf c) = []
       \<and> rp_linux_policy_table_id (build pf c) = None"
  using assms by (rule build_off)

theorem table_off_witness:
  "rp_route_ops (build PfLinux (sample_config\<lparr>wc_interface :=
     (wc_interface sample_config)\<lparr>if_table := Some RtOff\<rparr>\<rparr>)) = []"
proof -
  have "if_table (wc_interface (sample_config\<lparr>wc_interface :=
     (wc_interface sample_config)\<lparr>if_table := Some RtOff\<rparr>\<rparr>)) = Some RtOff" by simp
  from table_off_plans_nothing [OF this, of PfLinux] show ?thesis by blast
qed

text \<open>With the table off, \<open>windows_planned_bypass_count\<close> still counts the endpoints of a
  full tunnel although the plan has no bypass operation.\<close>

theorem bypass_count_diverges:
  "\<exists>c. if_table (wc_interface c) = Some RtOff
     \<and> rp_windows_planned_bypass_count (build PfWindows c) = 0
     \<and> windows_planned_bypass_count PfWindows (wc_peers c) (rp_full_tunnel (build PfWindows c)) = 1"
proof -
  let ?c = "sample_config\<lparr>wc_interface := (wc_interface sample_config)\<lparr>if_table := Some RtOff\<rparr>\<rparr>"
  have "rp_windows_planned_bypass_count (build PfWindows ?c) = 0"
    by (simp add: build_def Let_def build_bypass_ops_def)
  moreover have "parse_ip ''relay'' = None" by (simp add: eval_simps)
  then have "windows_planned_bypass_count PfWindows (wc_peers ?c)
      (rp_full_tunnel (build PfWindows ?c)) = 1"
    by (simp add: windows_planned_bypass_count_def build_def Let_def sample_config_def ft_any_def
        endpoint_needs_bypass_def)
  ultimately show ?thesis by (intro exI [of _ ?c]) simp
qed

subsection \<open>The report\<close>

text \<open>An entry pushed under the identifier of an operation of the plan gets the kind of the
  operation whatever kind the caller passes, in the phase of application.\<close>

theorem plan_entries_classified:
  "map (\<lambda>e. (re_kind e, re_phase e)) (rr_entries (push_failed_kind (route_item_id ro) k fk ev
       (push_failed_kind (policy_item_id po) k fk ev
         (push_failed_kind (metric_item_id mo) k fk ev
           (push_failed_kind (bypass_item_id bo) k fk ev (report_new pf))))))
     = [(KBypassRoute, PhApply), (KMetric, PhApply), (KPolicyRule, PhApply), (KRoute, PhApply)]"
  by (simp add: push_failed_kind_def push_entry_def report_new_def plan_item_kinds
      plan_item_phases)

end
