(* ===== verification/Cidr.thy ===== *)
theory Cidr
  imports Config_Types
begin

text \<open>
  \<open>backend/wg/tools/{mod,cidr}.rs\<close>: the CIDR calculator. Addresses stay machine words:
  masks, offsets and saturating additions are the ones of the source. The vector \<open>out\<close>
  that \<open>subtract_prefix\<close> appends to is an argument and the result.
\<close>

datatype tool_error =
  ParseToken (pt_token: string) (pt_message: string)
| InvalidTarget string
| MissingPort
| RuntimeError string
| TooManyResults (tm_limit: nat) (tm_produced: nat)

fun show_tool_error :: "tool_error \<Rightarrow> string" where
  "show_tool_error (ParseToken t m) = ''parse error for `'' @ t @ ''`: '' @ m"
| "show_tool_error (InvalidTarget m) = m"
| "show_tool_error MissingPort = ''tcp connect requires a port''"
| "show_tool_error (RuntimeError m) = m"
| "show_tool_error (TooManyResults l p) =
     ''result exceeds limit of '' @ show_nat l @ '' prefixes (produced '' @ show_nat p
       @ '' before stopping)''"

subsection \<open>Order: \<open>prefix_sort_key\<close>\<close>

instantiation ip_addr :: linorder
begin

fun less_eq_ip_addr :: "ip_addr \<Rightarrow> ip_addr \<Rightarrow> bool" where
  "less_eq_ip_addr (V4 a) (V4 b) = (a \<le> b)"
| "less_eq_ip_addr (V6 a) (V6 b) = (a \<le> b)"
| "less_eq_ip_addr (V4 _) (V6 _) = True"
| "less_eq_ip_addr (V6 _) (V4 _) = False"

definition less_ip_addr :: "ip_addr \<Rightarrow> ip_addr \<Rightarrow> bool" where
  "less_ip_addr a b = (a \<le> b \<and> \<not> b \<le> a)"

instance
proof
  fix x y z :: ip_addr
  show "x < y \<longleftrightarrow> x \<le> y \<and> \<not> y \<le> x" by (rule less_ip_addr_def)
  show "x \<le> x" by (cases x) simp_all
  show "x \<le> y \<Longrightarrow> y \<le> z \<Longrightarrow> x \<le> z" by (cases x; cases y; cases z) auto
  show "x \<le> y \<Longrightarrow> y \<le> x \<Longrightarrow> x = y" by (cases x; cases y) auto
  show "x \<le> y \<or> y \<le> x" by (cases x; cases y) auto
qed

end

text \<open>The order of \<open>prefix_sort_key\<close>: the address, then the length of the prefix.\<close>

definition prefix_le :: "allowed_ip \<Rightarrow> allowed_ip \<Rightarrow> bool" where
  "prefix_le p q = (addr p < addr q \<or> (addr p = addr q \<and> cidr p \<le> cidr q))"

instantiation allowed_ip :: linorder
begin

definition less_eq_allowed_ip :: "allowed_ip \<Rightarrow> allowed_ip \<Rightarrow> bool" where
  "less_eq_allowed_ip = prefix_le"

definition less_allowed_ip :: "allowed_ip \<Rightarrow> allowed_ip \<Rightarrow> bool" where
  "less_allowed_ip p q = (p \<le> q \<and> \<not> q \<le> p)"

instance
proof
  fix x y z :: allowed_ip
  show "x < y \<longleftrightarrow> x \<le> y \<and> \<not> y \<le> x" by (rule less_allowed_ip_def)
  show "x \<le> x" by (simp add: less_eq_allowed_ip_def prefix_le_def)
  show "x \<le> y \<Longrightarrow> y \<le> z \<Longrightarrow> x \<le> z" by (auto simp: less_eq_allowed_ip_def prefix_le_def)
  show "x \<le> y \<Longrightarrow> y \<le> x \<Longrightarrow> x = y"
    by (auto simp: less_eq_allowed_ip_def prefix_le_def intro: allowed_ip.expand)
  show "x \<le> y \<or> y \<le> x" by (auto simp: less_eq_allowed_ip_def prefix_le_def)
qed

end

subsection \<open>Masks and offsets\<close>

text \<open>\<open>32u32.saturating_sub(cidr)\<close> is the truncated subtraction of the naturals.\<close>

definition apply_v4_mask :: "u32 \<Rightarrow> u8 \<Rightarrow> u32" where
  "apply_v4_mask raw c =
     (if c = 0 then 0 else raw AND push_bit (32 - unat c) (- 1))"

definition apply_v6_mask :: "u128 \<Rightarrow> u8 \<Rightarrow> u128" where
  "apply_v6_mask raw c =
     (if c = 0 then 0 else raw AND push_bit (128 - unat c) (- 1))"

fun apply_mask :: "ip_addr \<Rightarrow> u8 \<Rightarrow> ip_addr" where
  "apply_mask (V4 a) c = V4 (apply_v4_mask a c)"
| "apply_mask (V6 a) c = V6 (apply_v6_mask a c)"

fun max_bits :: "ip_addr \<Rightarrow> u8" where
  "max_bits (V4 _) = 32"
| "max_bits (V6 _) = 128"

definition host_increment :: "ip_addr \<Rightarrow> u8 \<Rightarrow> u128" where
  "host_increment a c =
     (let host_bits = unat (max_bits a - c) in
      if host_bits = 0 then 0 else push_bit host_bits 1)"

definition saturating_add :: "'a::len word \<Rightarrow> 'a word \<Rightarrow> 'a word" where
  "saturating_add a b = (if unat a + unat b < 2 ^ LENGTH('a) then a + b else - 1)"

fun add_offset :: "ip_addr \<Rightarrow> u128 \<Rightarrow> ip_addr" where
  "add_offset (V4 a) off = V4 (saturating_add a (ucast off))"
| "add_offset (V6 a) off = V6 (saturating_add a off)"

definition canonicalize :: "allowed_ip \<Rightarrow> allowed_ip" where
  "canonicalize p = AllowedIp (apply_mask (addr p) (cidr p)) (cidr p)"

definition contains_prefix :: "allowed_ip \<Rightarrow> allowed_ip \<Rightarrow> bool" where
  "contains_prefix container candidate =
     (if is_ipv4 (addr container) \<noteq> is_ipv4 (addr candidate) \<or> cidr candidate < cidr container
      then False
      else addr (canonicalize container) = apply_mask (addr candidate) (cidr container))"

definition overlaps :: "allowed_ip \<Rightarrow> allowed_ip \<Rightarrow> bool" where
  "overlaps l r =
     (if is_ipv4 (addr l) \<noteq> is_ipv4 (addr r) then False
      else let common = min (cidr l) (cidr r)
           in apply_mask (addr l) common = apply_mask (addr r) common)"

definition split_children :: "allowed_ip \<Rightarrow> allowed_ip \<times> allowed_ip" where
  "split_children p =
     (let next_cidr = cidr p + 1;
          left = AllowedIp (apply_mask (addr p) next_cidr) next_cidr;
          step = host_increment (addr p) next_cidr;
          right = AllowedIp (add_offset (addr left) step) next_cidr
      in (left, right))"

definition sibling_parent :: "allowed_ip \<Rightarrow> allowed_ip \<Rightarrow> allowed_ip option" where
  "sibling_parent l0 r0 =
     (if is_ipv4 (addr l0) \<noteq> is_ipv4 (addr r0) \<or> cidr l0 \<noteq> cidr r0 \<or> cidr l0 = 0 then None
      else let l = canonicalize l0; r = canonicalize r0 in
      if l = r then None
      else let parent = AllowedIp (apply_mask (addr l) (cidr l - 1)) (cidr l - 1) in
      if contains_prefix parent l \<and> contains_prefix parent r then
        let (a, b) = split_children parent;
            children = (if b < a then (b, a) else (a, b));
            inputs = (if r < l then (r, l) else (l, r))
        in if fst children = fst inputs \<and> snd children = snd inputs then Some parent else None
      else None)"

subsection \<open>Normalisation\<close>

record normalize_stats =
  ns_count :: nat
  ns_host_bits_normalized :: bool
  ns_merged_prefixes :: bool

text \<open>The \<open>filtered\<close> and \<open>collapsed\<close> loops: skip what an earlier prefix contains.\<close>

fun drop_covered :: "allowed_ip list \<Rightarrow> allowed_ip list \<Rightarrow> allowed_ip list" where
  "drop_covered acc [] = acc"
| "drop_covered acc (p # ps) =
     (if list_ex (\<lambda>e. contains_prefix e p) acc then drop_covered acc ps
      else drop_covered (acc @ [p]) ps)"

text \<open>One pass of the merge loop, with whether it merged anything.\<close>

fun merge_pass :: "allowed_ip list \<Rightarrow> allowed_ip list \<times> bool" where
  "merge_pass [] = ([], False)"
| "merge_pass [p] = ([p], False)"
| "merge_pass (p # q # rest) =
     (case sibling_parent p q of
        Some parent \<Rightarrow> (parent # fst (merge_pass rest), True)
      | None \<Rightarrow> (let (ms, b) = merge_pass (q # rest) in (p # ms, b)))"

lemma length_drop_covered: "length (drop_covered acc ps) \<le> length acc + length ps"
  by (induction acc ps rule: drop_covered.induct) auto

lemma length_merge_pass:
  "length (fst (merge_pass ps)) + (if snd (merge_pass ps) then 1 else 0) \<le> length ps"
  by (induction ps rule: merge_pass.induct) (auto split: option.splits prod.splits if_splits)

function normalize_loop :: "allowed_ip list \<Rightarrow> bool \<Rightarrow> allowed_ip list \<times> bool" where
  "normalize_loop filtered mp =
     (let merged = merge_pass (sort filtered);
          collapsed = drop_covered [] (fst merged)
      in if snd merged \<or> length collapsed \<noteq> length (fst merged)
         then normalize_loop collapsed (mp \<or> snd merged)
         else (collapsed, mp \<or> snd merged))"
  by auto
termination
proof (relation "measure (\<lambda>(fs, _). length fs)", goal_cases)
  case (2 filtered mp merged collapsed)
  then show ?case
    using length_drop_covered [of "[]" "fst (merge_pass (sort filtered))"]
      length_merge_pass [of "sort filtered"]
    by (auto split: if_splits)
qed simp

declare normalize_loop.simps [simp del]

definition normalize_prefixes :: "allowed_ip list \<Rightarrow> allowed_ip list \<times> normalize_stats" where
  "normalize_prefixes ps =
     (if ps = [] then
        ([], \<lparr>ns_count = 0, ns_host_bits_normalized = False, ns_merged_prefixes = False\<rparr>)
      else
        let canon = map canonicalize ps;
            filtered = drop_covered [] (remdups_adj (sort canon));
            (out, merged) = normalize_loop filtered False
        in (out, \<lparr>ns_count = length out, ns_host_bits_normalized = (canon \<noteq> ps),
                 ns_merged_prefixes = merged\<rparr>))"

subsection \<open>Subtraction\<close>

lemma split_children_family:
  "split_children p = (l, r) \<Longrightarrow> is_ipv4 (addr l) = is_ipv4 (addr p)
     \<and> is_ipv4 (addr r) = is_ipv4 (addr p) \<and> cidr l = cidr p + 1 \<and> cidr r = cidr p + 1"
  by (cases "addr p") (auto simp: split_children_def Let_def)

lemma max_bits_family: "is_ipv4 a = is_ipv4 b \<Longrightarrow> max_bits a = max_bits b"
  by (cases a; cases b) auto

lemma unat_cidr_succ: "c < m \<Longrightarrow> unat (c + 1) = unat c + 1" for c m :: u8
proof -
  assume "c < m"
  moreover have "unat m < 2 ^ LENGTH(8)" by (rule unsigned_less)
  ultimately show ?thesis by (simp add: unat_word_ariths word_less_nat_alt)
qed

lemma split_children_measure:
  assumes "cidr p < max_bits (addr p)" "q \<in> {fst (split_children p), snd (split_children p)}"
  shows "unat (max_bits (addr q)) - unat (cidr q) < unat (max_bits (addr p)) - unat (cidr p)"
proof -
  have q: "cidr q = cidr p + 1" "is_ipv4 (addr q) = is_ipv4 (addr p)"
    using assms(2) split_children_family [of p "fst (split_children p)" "snd (split_children p)"]
    by auto
  from q(2) have "max_bits (addr q) = max_bits (addr p)" by (rule max_bits_family)
  with q(1) show ?thesis
    using assms(1) unat_cidr_succ [OF assms(1)] by (simp add: word_less_nat_alt)
qed

function subtract_prefix ::
  "allowed_ip \<Rightarrow> allowed_ip \<Rightarrow> allowed_ip list \<Rightarrow> nat \<Rightarrow> tool_error + allowed_ip list" where
  "subtract_prefix incl excl out limit =
     (if \<not> overlaps incl excl then
        (if limit < length (out @ [incl]) then Inl (TooManyResults limit (length (out @ [incl])))
         else Inr (out @ [incl]))
      else if contains_prefix excl incl \<or> max_bits (addr incl) \<le> cidr incl then Inr out
      else
        bindE (subtract_prefix (fst (split_children incl)) excl out limit) (\<lambda>out1.
        bindE (subtract_prefix (snd (split_children incl)) excl out1 limit) (\<lambda>out2.
        if limit < length out2 then Inl (TooManyResults limit (length out2)) else Inr out2)))"
  by auto
termination
  by (relation "measure (\<lambda>(i, _, _, _). unat (max_bits (addr i)) - unat (cidr i))")
    (simp_all add: split_children_measure not_le del: max_bits.simps)

declare subtract_prefix.simps [simp del]

text \<open>The three nested loops of \<open>compute_cidr_exclusion\<close>, inside out.\<close>

fun subtract_each ::
  "allowed_ip \<Rightarrow> nat \<Rightarrow> allowed_ip list \<Rightarrow> allowed_ip list \<Rightarrow> tool_error + allowed_ip list" where
  "subtract_each excl limit out [] = Inr out"
| "subtract_each excl limit out (p # ps) =
     bindE (subtract_prefix p excl out limit) (\<lambda>out'. subtract_each excl limit out' ps)"

fun exclude_loop ::
  "nat \<Rightarrow> allowed_ip list \<Rightarrow> allowed_ip list \<Rightarrow> tool_error + allowed_ip list" where
  "exclude_loop limit current [] = Inr current"
| "exclude_loop limit current (e # es) =
     bindE (subtract_each e limit [] current) (\<lambda>next.
     if next = [] then Inr [] else exclude_loop limit next es)"

fun include_loop ::
  "allowed_ip list \<Rightarrow> nat \<Rightarrow> allowed_ip list \<Rightarrow> allowed_ip list
   \<Rightarrow> tool_error + allowed_ip list" where
  "include_loop excludes limit remaining [] = Inr remaining"
| "include_loop excludes limit remaining (i # is) =
     bindE (exclude_loop limit [i] excludes) (\<lambda>current.
     let remaining' = remaining @ current in
     if limit < length remaining' then Inl (TooManyResults limit (length remaining'))
     else include_loop excludes limit remaining' is)"

record cidr_exclusion_stats =
  es_input_include_count :: nat
  es_input_exclude_count :: nat
  es_normalized_include_count :: nat
  es_normalized_exclude_count :: nat
  es_output_count :: nat
  es_host_bits_normalized :: bool
  es_merged_prefixes :: bool

record cidr_exclusion_result =
  er_normalized_includes :: "allowed_ip list"
  er_normalized_excludes :: "allowed_ip list"
  er_remaining :: "allowed_ip list"
  er_stats :: cidr_exclusion_stats

record cidr_normalization_stats =
  cn_input_count :: nat
  cn_normalized_count :: nat
  cn_host_bits_normalized :: bool
  cn_merged_prefixes :: bool

record cidr_normalization_result =
  cn_normalized :: "allowed_ip list"
  cn_stats :: cidr_normalization_stats

definition normalize_cidr_set ::
  "allowed_ip list \<Rightarrow> nat \<Rightarrow> tool_error + cidr_normalization_result" where
  "normalize_cidr_set ps limit =
     (let (normalized, stats) = normalize_prefixes ps in
      if limit < length normalized then Inl (TooManyResults limit (length normalized))
      else Inr \<lparr>cn_normalized = normalized,
                cn_stats = \<lparr>cn_input_count = length ps, cn_normalized_count = ns_count stats,
                  cn_host_bits_normalized = ns_host_bits_normalized stats,
                  cn_merged_prefixes = ns_merged_prefixes stats\<rparr>\<rparr>)"

definition compute_cidr_exclusion ::
  "allowed_ip list \<Rightarrow> allowed_ip list \<Rightarrow> nat \<Rightarrow> tool_error + cidr_exclusion_result" where
  "compute_cidr_exclusion includes excludes limit =
     (let (ni, si) = normalize_prefixes includes; (ne, se) = normalize_prefixes excludes in
      bindE (include_loop ne limit [] ni) (\<lambda>rest.
      let (remaining, so) = normalize_prefixes rest in
      if limit < length remaining then Inl (TooManyResults limit (length remaining))
      else Inr \<lparr>er_normalized_includes = ni, er_normalized_excludes = ne,
             er_remaining = remaining,
             er_stats = \<lparr>es_input_include_count = length includes,
               es_input_exclude_count = length excludes,
               es_normalized_include_count = ns_count si,
               es_normalized_exclude_count = ns_count se,
               es_output_count = length remaining,
               es_host_bits_normalized = (ns_host_bits_normalized si
                 \<or> ns_host_bits_normalized se \<or> ns_host_bits_normalized so),
               es_merged_prefixes = (ns_merged_prefixes si
                 \<or> ns_merged_prefixes se \<or> ns_merged_prefixes so)\<rparr>\<rparr>))"

subsection \<open>Parsing\<close>

definition strip_allowed_ips_assignment :: "string \<Rightarrow> string" where
  "strip_allowed_ips_assignment l =
     (case split_once CHR ''='' l of
        Some (lhs, rhs) \<Rightarrow> if eq_ignore_ascii_case (trim lhs) ''AllowedIPs'' then rhs else l
      | None \<Rightarrow> l)"

definition parse_tool_prefix :: "string \<Rightarrow> tool_error + allowed_ip" where
  "parse_tool_prefix token =
     (if CHR ''/'' \<in> set token
      then map_err (\<lambda>m. ParseToken token m) (allowed_ip_from_str token)
      else bindE (ok_or (ParseToken token ''invalid ip'') (parse_ip token)) (\<lambda>a.
           Inr (AllowedIp a (full_cidr a))))"

definition line_tokens :: "string \<Rightarrow> string list" where
  "line_tokens raw =
     (let line = trim (strip_allowed_ips_assignment raw) in
      if line = [] then []
      else filter (\<lambda>t. t \<noteq> []) (List.map trim (split_on CHR '','' line)))"

definition parse_tool_prefixes :: "string \<Rightarrow> tool_error + allowed_ip list" where
  "parse_tool_prefixes input = mapE parse_tool_prefix (concat (map line_tokens (lines input)))"

end
