(* ===== verification/Cidr_Sets.thy ===== *)
theory Cidr_Sets
  imports Cidr
begin

text \<open>
  Prefixes as sets of addresses: what the masks, the order, the split and the merge of the
  CIDR calculator mean. All reasoning is on the bits of an address, once for both families.
\<close>

subsection \<open>Bits\<close>

fun width :: "ip_addr \<Rightarrow> nat" where
  "width (V4 _) = 32"
| "width (V6 _) = 128"

fun ip_bit :: "ip_addr \<Rightarrow> nat \<Rightarrow> bool" where
  "ip_bit (V4 a) i = bit a i"
| "ip_bit (V6 a) i = bit a i"

text \<open>An address belongs to a prefix when the leading \<open>cidr\<close> bits agree.\<close>

fun in_prefix :: "ip_addr \<Rightarrow> allowed_ip \<Rightarrow> bool" where
  "in_prefix (V4 a) p =
     (case addr p of
        V4 b \<Rightarrow> drop_bit (32 - unat (cidr p)) a = drop_bit (32 - unat (cidr p)) b
      | V6 _ \<Rightarrow> False)"
| "in_prefix (V6 a) p =
     (case addr p of
        V6 b \<Rightarrow> drop_bit (128 - unat (cidr p)) a = drop_bit (128 - unat (cidr p)) b
      | V4 _ \<Rightarrow> False)"

definition addrs :: "allowed_ip \<Rightarrow> ip_addr set" where
  "addrs p = {x. in_prefix x p}"

definition addrs_of :: "allowed_ip list \<Rightarrow> ip_addr set" where
  "addrs_of ps = (\<Union>p \<in> set ps. addrs p)"

lemma addrs_of_simps [simp]:
  "addrs_of [] = {}" "addrs_of (p # ps) = addrs p \<union> addrs_of ps"
  "addrs_of (ps @ qs) = addrs_of ps \<union> addrs_of qs"
  by (auto simp: addrs_of_def)

lemma drop_bit_eq_iff:
  "drop_bit n a = drop_bit n b \<longleftrightarrow> (\<forall>i < LENGTH('a). n \<le> i \<longrightarrow> bit a i = bit b i)"
  for a b :: "'a::len word"
proof
  assume "drop_bit n a = drop_bit n b"
  then have *: "bit a (n + j) = bit b (n + j)" for j by (metis bit_drop_bit_eq comp_apply)
  show "\<forall>i < LENGTH('a). n \<le> i \<longrightarrow> bit a i = bit b i"
    by (metis * le_add_diff_inverse)
next
  assume h: "\<forall>i < LENGTH('a). n \<le> i \<longrightarrow> bit a i = bit b i"
  have "bit a (n + i) = bit b (n + i)" for i
    using h by (cases "n + i < LENGTH('a)") (auto dest: bit_imp_le_length)
  then show "drop_bit n a = drop_bit n b"
    by (intro bit_eqI) (simp add: bit_drop_bit_eq)
qed

lemma in_prefix_iff:
  "in_prefix x p \<longleftrightarrow> is_ipv4 x = is_ipv4 (addr p) \<and>
     (\<forall>i < width (addr p). width (addr p) - unat (cidr p) \<le> i \<longrightarrow> ip_bit x i = ip_bit (addr p) i)"
  by (cases x; cases "addr p") (simp_all add: drop_bit_eq_iff)

lemma ip_eq_iff:
  "a = b \<longleftrightarrow> is_ipv4 a = is_ipv4 b \<and> (\<forall>i < width a. ip_bit a i = ip_bit b i)"
  by (cases a; cases b) (auto intro!: bit_eqI dest: bit_imp_le_length)

lemma width_family: "is_ipv4 a = is_ipv4 b \<Longrightarrow> width a = width b"
  by (cases a; cases b) auto

lemma width_max_bits: "unat (max_bits a) = width a"
  by (cases a) auto

lemma apply_mask_family [simp]:
  "is_ipv4 (apply_mask a c) = is_ipv4 a" "width (apply_mask a c) = width a"
  "max_bits (apply_mask a c) = max_bits a"
  by (cases a; simp)+

lemma ip_bit_apply_mask [simp]:
  "i < width a \<Longrightarrow> ip_bit (apply_mask a c) i = (ip_bit a i \<and> width a - unat c \<le> i)"
  by (cases a) (auto simp: apply_v4_mask_def apply_v6_mask_def bit_simps)

lemma apply_mask_eq_family: "apply_mask a c = apply_mask b d \<Longrightarrow> is_ipv4 a = is_ipv4 b"
  by (metis apply_mask_family(1))

lemma apply_mask_eq_iff:
  "is_ipv4 a = is_ipv4 b \<Longrightarrow> apply_mask a c = apply_mask b c \<longleftrightarrow>
     (\<forall>i < width a. width a - unat c \<le> i \<longrightarrow> ip_bit a i = ip_bit b i)"
  using width_family [of a b] by (auto simp: ip_eq_iff)

lemma in_prefix_mask:
  "in_prefix x p \<longleftrightarrow> apply_mask x (cidr p) = apply_mask (addr p) (cidr p)"
proof (cases "is_ipv4 x = is_ipv4 (addr p)")
  case True
  then show ?thesis using width_family [OF True] by (auto simp: in_prefix_iff apply_mask_eq_iff)
next
  case False
  then show ?thesis by (metis apply_mask_family(1) in_prefix_iff)
qed

subsection \<open>Canonical prefixes\<close>

definition canonical :: "allowed_ip \<Rightarrow> bool" where
  "canonical p = (canonicalize p = p)"

lemma canonical_iff:
  "canonical p \<longleftrightarrow> (\<forall>i < width (addr p). ip_bit (addr p) i \<longrightarrow> width (addr p) - unat (cidr p) \<le> i)"
  by (cases p) (auto simp: canonical_def canonicalize_def ip_eq_iff)

lemma canonicalize_simps [simp]:
  "cidr (canonicalize p) = cidr p" "addr (canonicalize p) = apply_mask (addr p) (cidr p)"
  "addrs (canonicalize p) = addrs p" "canonical (canonicalize p)"
  by (auto simp: canonicalize_def addrs_def in_prefix_iff canonical_iff)

lemma wf_allowed_iff: "wf_allowed p \<longleftrightarrow> unat (cidr p) \<le> width (addr p)"
  by (cases "addr p") (simp_all add: wf_allowed_def word_le_nat_alt)

lemma wf_canonicalize [simp]: "wf_allowed (canonicalize p) = wf_allowed p"
  by (simp add: wf_allowed_iff)

lemma addr_in_addrs: "addr p \<in> addrs p"
  by (simp add: addrs_def in_prefix_iff)

subsection \<open>Containment and overlap\<close>

lemma contains_prefix_iff:
  "contains_prefix q p \<longleftrightarrow> cidr q \<le> cidr p \<and> addr p \<in> addrs q"
  using apply_mask_eq_family [of "addr p" "cidr q" "addr q" "cidr q"]
  by (auto simp: contains_prefix_def addrs_def in_prefix_mask)

lemma contains_prefix_subset: "contains_prefix q p \<Longrightarrow> addrs p \<subseteq> addrs q"
proof -
  assume "contains_prefix q p"
  then have le: "unat (cidr q) \<le> unat (cidr p)" and p: "in_prefix (addr p) q"
    by (auto simp: contains_prefix_iff addrs_def word_le_nat_alt)
  have w: "width (addr p) = width (addr q)"
    using p by (intro width_family) (simp add: in_prefix_iff)
  show ?thesis using le p by (auto simp: addrs_def in_prefix_iff w)
qed

lemma overlaps_iff: "overlaps p q \<longleftrightarrow> addrs p \<inter> addrs q \<noteq> {}"
proof
  assume o: "overlaps p q"
  then have f: "is_ipv4 (addr p) = is_ipv4 (addr q)"
    by (auto simp: overlaps_def split: if_splits)
  show "addrs p \<inter> addrs q \<noteq> {}"
  proof (cases "cidr p \<le> cidr q")
    case True
    with o have "addr q \<in> addrs p"
      by (simp add: overlaps_def Let_def addrs_def in_prefix_mask min_def split: if_splits)
    then show ?thesis using addr_in_addrs by blast
  next
    case False
    with o have "addr p \<in> addrs q"
      by (simp add: overlaps_def Let_def addrs_def in_prefix_mask min_def split: if_splits)
    then show ?thesis using addr_in_addrs by blast
  qed
next
  assume "addrs p \<inter> addrs q \<noteq> {}"
  then obtain x where x: "in_prefix x p" "in_prefix x q" by (auto simp: addrs_def)
  then have f: "is_ipv4 x = is_ipv4 (addr p)" "is_ipv4 x = is_ipv4 (addr q)"
    by (simp_all add: in_prefix_iff)
  then have "apply_mask (addr p) (min (cidr p) (cidr q))
      = apply_mask (addr q) (min (cidr p) (cidr q))"
    using x width_family [OF f(1)] width_family [OF f(2)]
    by (auto simp: apply_mask_eq_iff in_prefix_iff min_def word_le_nat_alt)
  then show "overlaps p q" using f by (simp add: overlaps_def)
qed

lemma overlaps_contains: "overlaps p q \<Longrightarrow> cidr q \<le> cidr p \<Longrightarrow> contains_prefix q p"
  by (auto simp: overlaps_def Let_def contains_prefix_iff addrs_def in_prefix_mask min_def
      split: if_splits)

lemma apply_mask_le: "apply_mask a c \<le> a"
  by (cases a) (simp_all add: apply_v4_mask_def apply_v6_mask_def word_and_le2)

lemma contains_prefix_le:
  assumes "contains_prefix q p" "canonical q"
  shows "q \<le> p"
proof -
  have "addr q = apply_mask (addr p) (cidr q)" "cidr q \<le> cidr p"
    using assms by (auto simp: contains_prefix_iff addrs_def in_prefix_mask canonical_def
        canonicalize_def allowed_ip.expand) (metis allowed_ip.sel(1))
  then show ?thesis
    using apply_mask_le [of "addr p" "cidr q"] by (auto simp: less_eq_allowed_ip_def prefix_le_def)
qed


subsection \<open>Splitting\<close>

lemma saturating_add_disjoint:
  fixes a b :: "'a::len word"
  assumes "a AND b = 0"
  shows "saturating_add a b = a OR b"
proof -
  have "unat a AND unat b = 0"
    using assms by (metis unsigned_and_eq unsigned_0)
  then have "unat a + unat b = unat (a OR b)"
    by (simp add: disjunctive_add_eq_or unsigned_or_eq)
  moreover have "unat (a OR b) < 2 ^ LENGTH('a)" by (rule unsigned_less)
  ultimately show ?thesis
    using assms by (simp add: saturating_add_def disjunctive_add_eq_or)
qed

lemma add_offset_bit:
  assumes "k < width a" "\<And>i. i < width a \<Longrightarrow> ip_bit a i \<Longrightarrow> k < i"
  shows "is_ipv4 (add_offset a (push_bit k 1)) = is_ipv4 a"
    and "i < width a \<Longrightarrow> ip_bit (add_offset a (push_bit k 1)) i = (ip_bit a i \<or> i = k)"
proof -
  show "is_ipv4 (add_offset a (push_bit k 1)) = is_ipv4 a" by (cases a) simp_all
  show "ip_bit (add_offset a (push_bit k 1)) i = (ip_bit a i \<or> i = k)" if "i < width a"
  proof (cases a)
    case (V4 w)
    have "w AND ucast (push_bit k 1 :: u128) = 0"
      using assms V4 by (intro bit_eqI) (force simp: bit_simps)
    then show ?thesis
      using that assms V4 by (auto simp: saturating_add_disjoint bit_simps)
  next
    case (V6 w)
    have "w AND push_bit k 1 = 0"
      using assms V6 by (intro bit_eqI) (force simp: bit_simps)
    then show ?thesis
      using that assms V6 by (auto simp: saturating_add_disjoint bit_simps)
  qed
qed

lemma saturating_add_0 [simp]: "saturating_add a 0 = a" for a :: "'a::len word"
proof -
  have "unat a < 2 ^ LENGTH('a)" by (rule unsigned_less)
  then show ?thesis by (simp add: saturating_add_def)
qed

text \<open>
  The two halves of a canonical prefix. On the last split of a family the step
  \<open>host_increment\<close> is zero, so the second half is the first one again.
\<close>

lemma split_children_split:
  assumes p: "canonical p" "cidr p < max_bits (addr p)" and lr: "split_children p = (l, r)"
  shows "canonical l" "canonical r" "wf_allowed l" "wf_allowed r"
    and "addrs l \<union> addrs r \<subseteq> addrs p"
    and "cidr p + 1 < max_bits (addr p) \<Longrightarrow> addrs l \<union> addrs r = addrs p"
    and "cidr p + 1 = max_bits (addr p) \<Longrightarrow> r = l"
proof -
  let ?a = "addr p"
  define k where "k = width ?a - unat (cidr p) - 1"
  have c1: "unat (cidr p + 1) = unat (cidr p) + 1"
    by (rule unat_cidr_succ [OF p(2)])
  have lt: "unat (cidr p) < width ?a"
    using p(2) by (simp add: word_less_nat_alt width_max_bits)
  have k: "k < width ?a" "width ?a - unat (cidr p + 1) = k" "width ?a - unat (cidr p) = Suc k"
    using lt c1 by (auto simp: k_def)
  have can: "ip_bit ?a i \<Longrightarrow> i < width ?a \<Longrightarrow> k < i" for i
    using p(1) k(3) by (auto simp: canonical_iff)
  have l: "addr l = ?a" "cidr l = cidr p + 1" and cr: "cidr r = cidr p + 1"
    and r: "addr r = add_offset ?a (host_increment ?a (cidr p + 1))"
  proof -
    have "apply_mask ?a (cidr p + 1) = ?a"
      by (auto simp: ip_eq_iff k(2) less_imp_le can)
    then show "addr l = ?a" "cidr l = cidr p + 1" "cidr r = cidr p + 1"
      "addr r = add_offset ?a (host_increment ?a (cidr p + 1))"
      using lr by (auto simp: split_children_def Let_def)
  qed
  have hb: "unat (max_bits ?a - (cidr p + 1)) = k"
  proof -
    have "cidr p + 1 \<le> max_bits ?a"
      using c1 lt by (simp add: word_le_nat_alt width_max_bits)
    then show ?thesis
      using k(2) by (simp add: unat_sub word_le_nat_alt width_max_bits)
  qed
  have last: "cidr p + 1 = max_bits ?a \<longleftrightarrow> k = 0"
    using hb c1 lt width_max_bits [of ?a] k(2)
    by (metis Suc_leI add.commute diff_is_0_eq diff_self_eq_0 le_antisym plus_1_eq_Suc
        unsigned_word_eqI)
  have r0: "r = l" if "k = 0"
  proof -
    have "add_offset ?a 0 = ?a"
      by (cases ?a) simp_all
    then show ?thesis
      using that l cr r hb by (intro allowed_ip.expand) (simp add: host_increment_def)
  qed
  then show "cidr p + 1 = max_bits ?a \<Longrightarrow> r = l" using last by simp
  have rk: "is_ipv4 (addr r) = is_ipv4 ?a
      \<and> (\<forall>i < width ?a. ip_bit (addr r) i = (ip_bit ?a i \<or> i = k))" if "k \<noteq> 0"
    using that r hb add_offset_bit [of k ?a] k(1) can by (auto simp: host_increment_def)
  have fl: "is_ipv4 (addr r) = is_ipv4 ?a" using rk r0 l by (cases "k = 0") auto
  note wr = width_family [OF fl]
  show cl: "canonical l"
    using can l k(2) by (auto simp: canonical_iff less_imp_le)
  show "wf_allowed l" "wf_allowed r"
    using l cr c1 lt wr by (auto simp: wf_allowed_iff)
  show "canonical r"
    using rk r0 cl can cr k(2) wr
    by (cases "k = 0") (auto simp: canonical_iff less_imp_le)
  have sl: "addrs l \<subseteq> addrs p"
    using l k by (auto simp: addrs_def in_prefix_iff)
  have sr: "addrs r \<subseteq> addrs p" if "k \<noteq> 0"
    using rk [OF that] fl wr cr k by (auto simp: addrs_def in_prefix_iff)
  show "addrs l \<union> addrs r \<subseteq> addrs p"
    using sl sr r0 by (cases "k = 0") auto
  show "addrs l \<union> addrs r = addrs p" if "cidr p + 1 < max_bits ?a"
  proof -
    have k0: "k \<noteq> 0" using that last by auto
    have "x \<in> addrs l \<union> addrs r" if x: "x \<in> addrs p" for x
    proof (cases "ip_bit x k")
      case False
      then have "x \<in> addrs l"
        using x l k can by (auto simp: addrs_def in_prefix_iff Suc_le_eq le_less)
      then show ?thesis by blast
    next
      case True
      then have "x \<in> addrs r"
        using x rk [OF k0] fl wr cr k can by (auto simp: addrs_def in_prefix_iff Suc_le_eq le_less)
      then show ?thesis by blast
    qed
    then show ?thesis using sl sr [OF k0] by blast
  qed
qed


subsection \<open>Merging\<close>

lemma sibling_parent_merge:
  assumes s: "sibling_parent l r = Some p" and c: "canonical l" "canonical r" "wf_allowed l"
  shows "canonical p" "wf_allowed p" "addrs p = addrs l \<union> addrs r"
    and "cidr l < max_bits (addr l)"
proof -
  have cl: "canonicalize l = l" "canonicalize r = r" using c by (auto simp: canonical_def)
  have ne: "l \<noteq> r" and c0: "cidr l \<noteq> 0"
    and p: "p = AllowedIp (apply_mask (addr l) (cidr l - 1)) (cidr l - 1)"
    and ch: "{fst (split_children p), snd (split_children p)} = {l, r}"
    using s by (auto simp: sibling_parent_def cl Let_def split: if_splits prod.splits)
  have c1: "cidr l - 1 + 1 = cidr l" by simp
  have pos: "unat (cidr l - 1) = unat (cidr l) - 1"
    using c0 by (simp add: unat_minus_one)
  have pos': "0 < unat (cidr l)" using c0 by (simp add: unat_gt_0)
  have wl: "unat (cidr l) \<le> width (addr l)" using c(3) by (simp add: wf_allowed_iff)
  show cp: "canonical p" by (auto simp: p canonical_iff)
  show "wf_allowed p" using wl pos by (simp add: p wf_allowed_iff)
  have lt: "cidr p < max_bits (addr p)"
    using wl pos pos' by (simp add: p word_less_nat_alt width_max_bits)
  obtain a b where ab: "split_children p = (a, b)" by (cases "split_children p")
  note sp = split_children_split [OF cp lt ab]
  have nm: "cidr p + 1 \<noteq> max_bits (addr p)" using sp(7) ch ab ne by auto
  have "cidr p + 1 \<le> max_bits (addr p)"
    using lt unat_cidr_succ [OF lt] by (simp add: word_le_nat_alt word_less_nat_alt)
  with nm have lt2: "cidr p + 1 < max_bits (addr p)" by simp
  then show "cidr l < max_bits (addr l)" by (simp add: p)
  show "addrs p = addrs l \<union> addrs r"
    using sp(6) [OF lt2] ch ab by auto
qed

text \<open>Lists the calculator works on between two steps.\<close>

definition good :: "allowed_ip list \<Rightarrow> bool" where
  "good ps = (\<forall>p \<in> set ps. canonical p \<and> wf_allowed p)"

lemma good_simps [simp]:
  "good []" "good (p # ps) = (canonical p \<and> wf_allowed p \<and> good ps)"
  "good (ps @ qs) = (good ps \<and> good qs)" "good (sort ps) = good ps"
  "good (remdups_adj ps) = good ps"
  by (auto simp: good_def)

lemma addrs_of_set_eq: "set ps = set qs \<Longrightarrow> addrs_of ps = addrs_of qs"
  by (simp add: addrs_of_def)

lemma addrs_of_perm [simp]:
  "addrs_of (sort ps) = addrs_of ps" "addrs_of (remdups_adj ps) = addrs_of ps"
  by (simp_all add: addrs_of_def)

lemma drop_covered_addrs: "addrs_of (drop_covered acc ps) = addrs_of acc \<union> addrs_of ps"
proof (induction acc ps rule: drop_covered.induct)
  case (2 acc p ps)
  have "addrs p \<subseteq> addrs_of acc" if "list_ex (\<lambda>e. contains_prefix e p) acc"
    using that contains_prefix_subset by (fastforce simp: list_ex_iff addrs_of_def)
  then show ?case using 2 by auto
qed simp

lemma set_drop_covered: "set (drop_covered acc ps) \<subseteq> set acc \<union> set ps"
  by (induction acc ps rule: drop_covered.induct) auto

lemma good_drop_covered: "good acc \<Longrightarrow> good ps \<Longrightarrow> good (drop_covered acc ps)"
  using set_drop_covered by (fastforce simp: good_def)

lemma merge_pass_good: "good ps \<Longrightarrow> good (fst (merge_pass ps))"
  by (induction ps rule: merge_pass.induct)
    (auto split: option.splits prod.splits dest: sibling_parent_merge)

lemma merge_pass_addrs: "good ps \<Longrightarrow> addrs_of (fst (merge_pass ps)) = addrs_of ps"
  by (induction ps rule: merge_pass.induct)
    (auto split: option.splits prod.splits dest: sibling_parent_merge(3))

lemma merge_pass_id: "\<not> snd (merge_pass ps) \<Longrightarrow> fst (merge_pass ps) = ps"
  by (induction ps rule: merge_pass.induct) (auto split: option.splits prod.splits)

lemma drop_covered_id:
  "length (drop_covered acc ps) = length acc + length ps \<Longrightarrow> drop_covered acc ps = acc @ ps"
proof (induction acc ps rule: drop_covered.induct)
  case (2 acc p ps)
  then show ?case using length_drop_covered [of acc ps] by (auto split: if_splits)
qed simp

text \<open>No prefix contains a later one.\<close>

fun uncovered :: "allowed_ip list \<Rightarrow> bool" where
  "uncovered [] = True"
| "uncovered (p # ps) = ((\<forall>q \<in> set ps. \<not> contains_prefix p q) \<and> uncovered ps)"

lemma uncovered_append:
  "uncovered (ps @ qs) \<longleftrightarrow> uncovered ps \<and> uncovered qs
     \<and> (\<forall>p \<in> set ps. \<forall>q \<in> set qs. \<not> contains_prefix p q)"
  by (induction ps) auto

lemma drop_covered_uncovered: "uncovered acc \<Longrightarrow> uncovered (drop_covered acc ps)"
  by (induction acc ps rule: drop_covered.induct)
    (auto simp: uncovered_append list_ex_iff)

text \<open>Pairwise disjoint as address sets.\<close>

fun disjoint_list :: "allowed_ip list \<Rightarrow> bool" where
  "disjoint_list [] = True"
| "disjoint_list (p # ps) = ((\<forall>q \<in> set ps. addrs p \<inter> addrs q = {}) \<and> disjoint_list ps)"

lemma sorted_uncovered_disjoint:
  "sorted ps \<Longrightarrow> uncovered ps \<Longrightarrow> good ps \<Longrightarrow> disjoint_list ps"
proof (induction ps)
  case (Cons p ps)
  have "addrs p \<inter> addrs q = {}" if q: "q \<in> set ps" for q
  proof (rule ccontr)
    assume "addrs p \<inter> addrs q \<noteq> {}"
    then have o: "overlaps p q" "overlaps q p" by (auto simp: overlaps_iff)
    show False
    proof (cases "cidr p \<le> cidr q")
      case True
      with o Cons.prems(2) q overlaps_contains show False by auto
    next
      case False
      then have "contains_prefix q p" using o overlaps_contains [of p q] by simp
      then have "q \<le> p" using Cons.prems(3) q by (intro contains_prefix_le) (auto simp: good_def)
      then have "q = p" using Cons.prems(1) q by (simp add: antisym)
      with False show False by simp
    qed
  qed
  then show ?case using Cons by simp
qed simp

text \<open>The test of the merge pass finds nothing in a list it leaves alone.\<close>

definition no_adjacent :: "allowed_ip list \<Rightarrow> bool" where
  "no_adjacent ps = (\<forall>i. Suc i < length ps \<longrightarrow> sibling_parent (ps ! i) (ps ! Suc i) = None)"

lemma merge_pass_no_adjacent: "\<not> snd (merge_pass ps) \<Longrightarrow> no_adjacent ps"
proof (induction ps rule: merge_pass.induct)
  case (3 p q rest)
  then show ?case
    by (auto simp: no_adjacent_def nth_Cons split: option.splits prod.splits nat.splits)
qed (simp_all add: no_adjacent_def)

subsection \<open>Nothing is left to merge\<close>

text \<open>Two prefixes can be merged when some prefix covers exactly their addresses. The calculator
  never merges single hosts; of everything else, a normal form has nothing left to merge.\<close>

definition mergeable :: "allowed_ip \<Rightarrow> allowed_ip \<Rightarrow> bool" where
  "mergeable p q = (p \<noteq> q \<and> (\<exists>r. wf_allowed r \<and> addrs r = addrs p \<union> addrs q))"

definition fully_merged :: "allowed_ip list \<Rightarrow> bool" where
  "fully_merged ps =
     (\<forall>p \<in> set ps. \<forall>q \<in> set ps. cidr p < max_bits (addr p) \<longrightarrow> \<not> mergeable p q)"

fun ip_flip :: "nat \<Rightarrow> ip_addr \<Rightarrow> ip_addr" where
  "ip_flip i (V4 a) = V4 (flip_bit i a)"
| "ip_flip i (V6 a) = V6 (flip_bit i a)"

lemma ip_flip_simps [simp]:
  "is_ipv4 (ip_flip i a) = is_ipv4 a"
  "j < width a \<Longrightarrow> ip_bit (ip_flip i a) j = (ip_bit a j \<noteq> (i = j))"
  by (cases a; auto simp: bit_flip_bit_iff)+

lemma mem_addrs_iff:
  "x \<in> addrs p \<longleftrightarrow> is_ipv4 x = is_ipv4 (addr p) \<and>
     (\<forall>i < width x. width x - unat (cidr p) \<le> i \<longrightarrow> ip_bit x i = ip_bit (addr p) i)"
  using width_family [of x "addr p"] by (auto simp: addrs_def in_prefix_iff)

lemma half_of_union:
  assumes wf: "wf_allowed p" "wf_allowed q" "wf_allowed r"
    and d: "addrs p \<inter> addrs q = {}" and u: "addrs r = addrs p \<union> addrs q"
  shows "unat (cidr p) = Suc (unat (cidr r))"
proof -
  have p: "addr p \<in> addrs r" and q: "addr q \<in> addrs r" using u addr_in_addrs by auto
  have f: "is_ipv4 (addr p) = is_ipv4 (addr r)" "is_ipv4 (addr q) = is_ipv4 (addr r)"
    using p q by (simp_all add: mem_addrs_iff)
  define w where "w = width (addr r)"
  have w: "width (addr p) = w" "width (addr q) = w" "width (addr r) = w"
    using width_family [OF f(1)] width_family [OF f(2)] by (simp_all add: w_def)
  have smaller: "unat (cidr r) < unat (cidr s)"
    if "addr s \<in> addrs r" "addr t \<in> addrs r" "addr t \<notin> addrs s" for s t
  proof (rule ccontr)
    assume "\<not> unat (cidr r) < unat (cidr s)"
    then have le: "unat (cidr s) \<le> unat (cidr r)" by simp
    have "width (addr s) = w" "width (addr t) = w"
      using that width_family [of "addr s" "addr r"] width_family [of "addr t" "addr r"]
      by (simp_all add: mem_addrs_iff w_def)
    with that le have "addr t \<in> addrs s" by (auto simp: mem_addrs_iff)
    with that show False by simp
  qed
  have cp: "unat (cidr r) < unat (cidr p)" and cq: "unat (cidr r) < unat (cidr q)"
    using smaller [of p q] smaller [of q p] p q d addr_in_addrs [of p] addr_in_addrs [of q] by auto
  show ?thesis
  proof (rule ccontr)
    assume "unat (cidr p) \<noteq> Suc (unat (cidr r))"
    with cp have two: "unat (cidr r) + 2 \<le> unat (cidr p)" by simp
    have pw: "unat (cidr p) \<le> w" using wf(1) w by (simp add: wf_allowed_iff)
    define k where "k = w - unat (cidr r) - 1"
    have k: "k < w" "0 < k" "w - unat (cidr r) = Suc k" "w - unat (cidr p) \<le> k - 1"
      "w - unat (cidr q) \<le> k"
      using two pw cq by (auto simp: k_def)
    let ?x = "ip_flip k (addr p)" and ?y = "ip_flip (k - 1) (addr p)"
    have in_r: "ip_flip i (addr p) \<in> addrs r" if "i \<le> k" for i
      using p that k(1,3) w f width_family [of "ip_flip i (addr p)" "addr p"]
      by (auto simp: mem_addrs_iff)
    have not_p: "ip_flip i (addr p) \<notin> addrs p" if "k - 1 \<le> i" "i \<le> k" for i
      using that k w width_family [of "ip_flip i (addr p)" "addr p"]
      by (auto simp: mem_addrs_iff intro!: exI [of _ i])
    have "?x \<in> addrs q" "?y \<in> addrs q" using in_r not_p u k(2) by fastforce+
    then have "ip_bit ?x k = ip_bit ?y k"
      using k(1,5) w width_family [of ?x "addr p"] width_family [of ?y "addr p"]
      by (auto simp: mem_addrs_iff)
    moreover have "k - 1 \<noteq> k" using k(2) by simp
    ultimately show False using k(1) w by simp
  qed
qed

lemma drop_bit_mono: "a \<le> b \<Longrightarrow> drop_bit n a \<le> drop_bit n b" for a b :: "'a::len word"
  by (simp add: word_le_nat_alt unat_drop_bit_eq div_le_mono drop_bit_eq_div [where 'a=nat])

lemma addrs_interval:
  assumes "a \<in> addrs r" "b \<in> addrs r" "a \<le> x" "x \<le> b"
  shows "x \<in> addrs r"
proof -
  have sandwich: "drop_bit n u = c \<Longrightarrow> drop_bit n v = c \<Longrightarrow> u \<le> z \<Longrightarrow> z \<le> v \<Longrightarrow>
      drop_bit n z = c" for n and u v z c :: "'a::len word"
    using drop_bit_mono [of u z n] drop_bit_mono [of z v n] by simp
  show ?thesis
    using assms
    by (cases a; cases b; cases x; cases "addr r") (auto simp: addrs_def elim: sandwich)
qed

lemma canonical_eq:
  assumes "canonical p" "canonical a" "cidr p = cidr a" "addr p \<in> addrs a"
  shows "p = a"
proof -
  have "apply_mask (addr p) (cidr p) = addr p" "apply_mask (addr a) (cidr a) = addr a"
    using assms(1,2) by (metis canonical_def canonicalize_simps(2))+
  then have "addr p = addr a" using assms(3,4) by (simp add: addrs_def in_prefix_mask)
  with assms(3) show ?thesis by (intro allowed_ip.expand) simp
qed

lemma halves_are_siblings:
  assumes c: "canonical p" "canonical q" "p \<noteq> q" and cc: "cidr q = cidr p"
    and h: "unat (cidr p) = Suc (unat (cidr r))" and u: "addrs r = addrs p \<union> addrs q"
    and lt: "cidr p < max_bits (addr p)"
  shows "sibling_parent p q \<noteq> None"
proof -
  have p: "addr p \<in> addrs r" and q: "addr q \<in> addrs r" using u addr_in_addrs by auto
  have f: "is_ipv4 (addr p) = is_ipv4 (addr q)" using p q by (simp add: mem_addrs_iff)
  have c0: "cidr p \<noteq> 0" using h by (metis nat.simps(3) unat_0)
  have c1: "cidr p - 1 = cidr r" using h c0 by (intro word_unat_eq_iff [THEN iffD2]) (simp add: unat_minus_one)
  let ?P = "AllowedIp (apply_mask (addr p) (cidr r)) (cidr r)"
  have "addrs ?P = addrs (canonicalize (AllowedIp (addr p) (cidr r)))"
    by (simp add: canonicalize_def)
  also have "\<dots> = addrs (AllowedIp (addr p) (cidr r))" by simp
  also have "\<dots> = addrs r" using p by (auto simp: addrs_def in_prefix_mask)
  finally have P: "addrs ?P = addrs r" .
  have cP: "canonical ?P" by (auto simp: canonical_iff)
  have le: "cidr r \<le> cidr p" using h by (simp add: word_le_nat_alt)
  have suc: "cidr ?P + 1 = cidr p" using c1 by (simp flip: c1)
  have ltP: "cidr ?P < max_bits (addr ?P)"
    using lt h by (simp add: word_less_nat_alt)
  obtain a b where ab: "split_children ?P = (a, b)" by (cases "split_children ?P")
  note sp = split_children_split [OF cP ltP ab]
  have cab: "cidr a = cidr p" "cidr b = cidr p" using split_children_family [OF ab] suc by auto
  have un: "addrs a \<union> addrs b = addrs r" using sp(6) suc lt P by simp
  have "x = a \<or> x = b" if "canonical x" "cidr x = cidr p" "addr x \<in> addrs r" for x
    using that un canonical_eq [of x a] canonical_eq [of x b] sp(1,2) cab by auto
  then have "p = a \<and> q = b \<or> p = b \<and> q = a" using c cc p q by metis
  then have o: "(if b < a then (b, a) else (a, b)) = (if q < p then (q, p) else (p, q))"
    using c(3) by auto
  have cl: "canonicalize p = p" "canonicalize q = q" using c by (auto simp: canonical_def)
  show ?thesis
    using f cc c0 c(3) le p q o
    by (simp add: sibling_parent_def cl Let_def c1 ab contains_prefix_iff P)
qed

lemma disjoint_list_nth:
  "disjoint_list ps \<Longrightarrow> i < j \<Longrightarrow> j < length ps \<Longrightarrow> addrs (ps ! i) \<inter> addrs (ps ! j) = {}"
proof (induction ps arbitrary: i j)
  case (Cons p ps)
  then show ?case by (cases i; cases j) auto
qed simp

lemma no_adjacent_fully_merged:
  assumes "good ps" "sorted ps" "disjoint_list ps" "no_adjacent ps"
  shows "fully_merged ps"
proof -
  have ordered: False
    if ij: "i < j" "j < length ps" and lt: "cidr (ps ! i) < max_bits (addr (ps ! i))"
      and r: "wf_allowed r" "addrs r = addrs (ps ! i) \<union> addrs (ps ! j)" for i j r
  proof -
    let ?p = "ps ! i" and ?q = "ps ! j"
    have g: "canonical ?p" "canonical ?q" "wf_allowed ?p" "wf_allowed ?q"
      using assms(1) ij by (auto simp: good_def)
    have d: "addrs ?p \<inter> addrs ?q = {}" by (rule disjoint_list_nth [OF assms(3) ij])
    have ne: "?p \<noteq> ?q" using d addr_in_addrs [of ?p] by auto
    have h: "unat (cidr ?p) = Suc (unat (cidr r))" "unat (cidr ?q) = Suc (unat (cidr r))"
      using half_of_union [OF g(3,4) r(1) d r(2)] half_of_union [OF g(4,3) r(1)] d r(2)
      by (auto simp: Un_commute)
    have sib: "sibling_parent ?p ?q \<noteq> None"
      by (rule halves_are_siblings [OF g(1,2) ne _ h(1) r(2) lt]) (use h in \<open>simp add: word_unat_eq_iff\<close>)
    show False
    proof (cases "j = Suc i")
      case True
      with sib assms(4) ij show False by (auto simp: no_adjacent_def)
    next
      case False
      let ?s = "ps ! Suc i"
      have "addr ?p \<le> addr ?s" "addr ?s \<le> addr ?q"
        using assms(2) ij False sorted_nth_mono [of ps i "Suc i"] sorted_nth_mono [of ps "Suc i" j]
        by (auto simp: less_eq_allowed_ip_def prefix_le_def)
      then have "addr ?s \<in> addrs r"
        using addrs_interval [of "addr ?p" r "addr ?q" "addr ?s"] r(2) addr_in_addrs by auto
      moreover have "addr ?s \<notin> addrs ?p" "addr ?s \<notin> addrs ?q"
        using disjoint_list_nth [OF assms(3), of i "Suc i"] disjoint_list_nth [OF assms(3), of "Suc i" j]
          ij False addr_in_addrs [of ?s] by auto
      ultimately show False using r(2) by simp
    qed
  qed
  show ?thesis
    unfolding fully_merged_def mergeable_def
  proof (intro ballI impI notI, elim conjE exE)
    fix p q r
    assume pq: "p \<in> set ps" "q \<in> set ps" and lt: "cidr p < max_bits (addr p)" and ne: "p \<noteq> q"
      and r: "wf_allowed r" "addrs r = addrs p \<union> addrs q"
    obtain i j where ij: "i < length ps" "p = ps ! i" "j < length ps" "q = ps ! j"
      using pq by (metis in_set_conv_nth)
    have "i \<noteq> j" using ij ne by auto
    then consider "i < j" | "j < i" by linarith
    then show False
    proof cases
      case 1
      then show False using ordered [OF 1] ij lt r by simp
    next
      case 2
      have g: "wf_allowed p" "wf_allowed q" using assms(1) pq by (auto simp: good_def)
      have d: "addrs q \<inter> addrs p = {}"
        using disjoint_list_nth [OF assms(3) 2] ij by simp
      have "unat (cidr p) = unat (cidr q)"
        using half_of_union [OF g r(1)] half_of_union [OF g(2,1) r(1) d] d r(2)
        by (simp add: Un_commute Int_commute)
      moreover have "is_ipv4 (addr p) = is_ipv4 (addr q)"
      proof -
        have "addr p \<in> addrs r" "addr q \<in> addrs r" using r(2) addr_in_addrs by auto
        then show ?thesis by (simp add: mem_addrs_iff)
      qed
      ultimately have "cidr q < max_bits (addr q)"
        using lt by (cases "addr p"; cases "addr q") (auto simp: word_less_nat_alt)
      then show False using ordered [OF 2] ij r by (simp add: Un_commute)
    qed
  qed
qed

definition normal_form :: "allowed_ip list \<Rightarrow> bool" where
  "normal_form ps = (good ps \<and> sorted ps \<and> disjoint_list ps \<and> fully_merged ps)"

lemma normalize_loop_result:
  "good ps \<Longrightarrow> normalize_loop ps mp = (out, m) \<Longrightarrow>
   normal_form out \<and> addrs_of out = addrs_of ps"
proof (induction ps mp rule: normalize_loop.induct)
  case (1 ps mp)
  let ?m = "merge_pass (sort ps)" and ?c = "drop_covered [] (fst (merge_pass (sort ps)))"
  have g: "good (fst ?m)" using 1(2) by (intro merge_pass_good) simp
  have gc: "good ?c" using g by (intro good_drop_covered) simp_all
  have ac: "addrs_of ?c = addrs_of ps"
    using 1(2) by (simp add: drop_covered_addrs merge_pass_addrs)
  show ?case
  proof (cases "snd ?m \<or> length ?c \<noteq> length (fst ?m)")
    case True
    have "normalize_loop ?c (mp \<or> snd ?m) = (out, m)"
      using 1(3) True by (subst (asm) normalize_loop.simps) (simp add: Let_def)
    from 1(1) [OF refl refl True gc this] show ?thesis by (simp add: ac)
  next
    case False
    then have out: "out = ?c" and c: "?c = fst ?m" "fst ?m = sort ps"
      using 1(3) drop_covered_id [of "[]" "fst ?m"] merge_pass_id [of "sort ps"]
      by (auto simp: normalize_loop.simps [of ps] Let_def)
    have "uncovered ?c" by (intro drop_covered_uncovered) simp
    then have "disjoint_list ?c"
      using gc c by (intro sorted_uncovered_disjoint) simp_all
    moreover have "no_adjacent (sort ps)" using False by (intro merge_pass_no_adjacent) simp
    ultimately show ?thesis
      using out c gc ac no_adjacent_fully_merged [of ?c] by (simp add: normal_form_def)
  qed
qed

lemma good_map_canonicalize: "list_all wf_allowed ps \<Longrightarrow> good (map canonicalize ps)"
  by (auto simp: good_def list_all_iff)

lemma addrs_of_map_canonicalize [simp]: "addrs_of (map canonicalize ps) = addrs_of ps"
  by (simp add: addrs_of_def)

lemma normalize_prefixes_result:
  assumes "list_all wf_allowed ps" "normalize_prefixes ps = (out, stats)"
  shows "normal_form out" "addrs_of out = addrs_of ps" "ns_count stats = length out"
proof -
  let ?f = "drop_covered [] (remdups_adj (sort (map canonicalize ps)))"
  have g: "good ?f"
    using good_map_canonicalize [OF assms(1)] by (intro good_drop_covered) simp_all
  have a: "addrs_of ?f = addrs_of ps" by (simp add: drop_covered_addrs)
  show "normal_form out" "addrs_of out = addrs_of ps" "ns_count stats = length out"
    using assms(2) normalize_loop_result [OF g] a
    by (auto simp: normalize_prefixes_def Let_def normal_form_def fully_merged_def
        split: if_splits prod.splits)
qed

end
