(* ===== verification/Cidr_Exclusion.thy ===== *)
theory Cidr_Exclusion
  imports Cidr_Sets
begin

text \<open>
  Correctness of \<open>compute_cidr_exclusion\<close> and \<open>normalize_cidr_set\<close>: the remaining
  prefixes are the included addresses without the excluded ones when no excluded prefix is
  a single host, and never more than that; where the missing half of the last split shows.
\<close>

subsection \<open>Subtraction\<close>

lemma subtract_prefix_sound:
  "subtract_prefix i e out limit = Inr out' \<Longrightarrow> canonical i \<and> wf_allowed i \<Longrightarrow>
   \<exists>new. out' = out @ new \<and> good new \<and> addrs_of new \<subseteq> addrs i - addrs e"
proof (induction i e out limit arbitrary: out' rule: subtract_prefix.induct)
  case (1 i e out limit)
  show ?case
  proof (cases "overlaps i e")
    case False
    then have "out' = out @ [i]"
      using 1(3) by (simp add: subtract_prefix.simps [of i] split: if_splits)
    then show ?thesis using 1(4) False by (auto simp: overlaps_iff)
  next
    case True
    show ?thesis
    proof (cases "contains_prefix e i \<or> max_bits (addr i) \<le> cidr i")
      case stop: True
      then have "out' = out"
        using 1(3) True by (simp add: subtract_prefix.simps [of i])
      then show ?thesis by simp
    next
      case go: False
      obtain l r where lr: "split_children i = (l, r)" by (cases "split_children i")
      have lt0: "cidr i < max_bits (addr i)" and can: "canonical i" using go 1(4) by auto
      obtain out1 where out1: "subtract_prefix l e out limit = Inr out1"
        and out2: "subtract_prefix r e out1 limit = Inr out'"
        using 1(3) True go lr
        by (auto simp: subtract_prefix.simps [of i] bindE_eq_Inr split: if_splits)
      have sp: "canonical l \<and> wf_allowed l" "canonical r \<and> wf_allowed r"
        "addrs l \<union> addrs r \<subseteq> addrs i"
        using split_children_split [OF can lt0 lr] 1(4) by auto
      obtain n1 where "out1 = out @ n1" "good n1" "addrs_of n1 \<subseteq> addrs l - addrs e"
        using 1(1) [of out1] out1 sp(1) True go lr by auto
      moreover obtain n2 where "out' = out1 @ n2" "good n2" "addrs_of n2 \<subseteq> addrs r - addrs e"
        using 1(2) [of out1 out'] out2 sp(2) True go lr by auto
      ultimately show ?thesis using sp(3) by (intro exI [of _ "n1 @ n2"]) auto
    qed
  qed
qed

text \<open>A prefix that is not a single host of its family.\<close>

definition not_host :: "allowed_ip \<Rightarrow> bool" where
  "not_host p = (cidr p < max_bits (addr p))"

lemma subtract_prefix_exact:
  "subtract_prefix i e out limit = Inr out' \<Longrightarrow> canonical i \<and> wf_allowed i \<Longrightarrow> not_host e \<Longrightarrow>
   addrs_of out' = addrs_of out \<union> (addrs i - addrs e)"
proof (induction i e out limit arbitrary: out' rule: subtract_prefix.induct)
  case (1 i e out limit)
  show ?case
  proof (cases "overlaps i e")
    case False
    then have "out' = out @ [i]"
      using 1(3) by (simp add: subtract_prefix.simps [of i] split: if_splits)
    then show ?thesis using False by (auto simp: overlaps_iff)
  next
    case True
    then have fam: "max_bits (addr i) = max_bits (addr e)"
      by (intro max_bits_family) (simp add: overlaps_def split: if_splits)
    have shorter: "cidr i < cidr e" if "\<not> contains_prefix e i"
      using overlaps_contains [OF True] that by (meson linorder_not_le)
    show ?thesis
    proof (cases "contains_prefix e i \<or> max_bits (addr i) \<le> cidr i")
      case stop: True
      have "contains_prefix e i"
        using stop shorter 1(5) fam by (force simp: not_host_def)
      then have "addrs i \<subseteq> addrs e" by (rule contains_prefix_subset)
      moreover have "out' = out"
        using 1(3) True stop by (simp add: subtract_prefix.simps [of i])
      ultimately show ?thesis by auto
    next
      case go: False
      obtain l r where lr: "split_children i = (l, r)" by (cases "split_children i")
      have lt0: "cidr i < max_bits (addr i)" and can: "canonical i" using go 1(4) by auto
      obtain out1 where out1: "subtract_prefix l e out limit = Inr out1"
        and out2: "subtract_prefix r e out1 limit = Inr out'"
        using 1(3) True go lr
        by (auto simp: subtract_prefix.simps [of i] bindE_eq_Inr split: if_splits)
      have lt: "cidr i + 1 < max_bits (addr i)"
        using shorter go 1(5) fam unat_cidr_succ [of "cidr i" "cidr e"]
        by (auto simp: not_host_def word_less_nat_alt)
      have sp: "canonical l \<and> wf_allowed l" "canonical r \<and> wf_allowed r"
        "addrs l \<union> addrs r = addrs i"
        using split_children_split [OF can lt0 lr] 1(4) lt by auto
      have "addrs_of out1 = addrs_of out \<union> (addrs l - addrs e)"
        using 1(1) [of out1] out1 sp(1) True go lr 1(5) by auto
      moreover have "addrs_of out' = addrs_of out1 \<union> (addrs r - addrs e)"
        using 1(2) [of out1 out'] out2 sp(2) True go lr 1(5) by auto
      ultimately show ?thesis using sp(3) by blast
    qed
  qed
qed

lemma subtract_each_sound:
  "subtract_each e limit out ps = Inr out' \<Longrightarrow> good ps \<Longrightarrow>
   \<exists>new. out' = out @ new \<and> good new \<and> addrs_of new \<subseteq> addrs_of ps - addrs e"
proof (induction e limit out ps arbitrary: out' rule: subtract_each.induct)
  case (2 e limit out p ps)
  then obtain out1 where s1: "subtract_prefix p e out limit = Inr out1"
    and s2: "subtract_each e limit out1 ps = Inr out'"
    by (auto simp: bindE_eq_Inr)
  obtain n1 where n1: "out1 = out @ n1" "good n1" "addrs_of n1 \<subseteq> addrs p - addrs e"
    using subtract_prefix_sound [OF s1] "2.prems"(2) by auto
  obtain n2 where "out' = out1 @ n2" "good n2" "addrs_of n2 \<subseteq> addrs_of ps - addrs e"
    using "2.IH" [OF s2] "2.prems"(2) by auto
  with n1 show ?case by (intro exI [of _ "n1 @ n2"]) auto
qed simp

lemma subtract_each_exact:
  "subtract_each e limit out ps = Inr out' \<Longrightarrow> good ps \<Longrightarrow> not_host e \<Longrightarrow>
   addrs_of out' = addrs_of out \<union> (addrs_of ps - addrs e)"
proof (induction e limit out ps arbitrary: out' rule: subtract_each.induct)
  case (2 e limit out p ps)
  then obtain out1 where s1: "subtract_prefix p e out limit = Inr out1"
    and s2: "subtract_each e limit out1 ps = Inr out'"
    by (auto simp: bindE_eq_Inr)
  show ?case
    using "2.IH" [OF s2] subtract_prefix_exact [OF s1] "2.prems"(2,3) by auto
qed simp

lemma exclude_loop_sound:
  "exclude_loop limit cur es = Inr out \<Longrightarrow> good cur \<Longrightarrow>
   good out \<and> addrs_of out \<subseteq> addrs_of cur - addrs_of es"
proof (induction limit cur es arbitrary: out rule: exclude_loop.induct)
  case (2 limit cur e es)
  then obtain nxt where n: "subtract_each e limit [] cur = Inr nxt"
    and rest: "(if nxt = [] then Inr [] else exclude_loop limit nxt es) = Inr out"
    by (auto simp: bindE_eq_Inr)
  have "good nxt" "addrs_of nxt \<subseteq> addrs_of cur - addrs e"
    using subtract_each_sound [OF n] "2.prems"(2) by auto
  with "2.IH" [of nxt out] rest show ?case by (auto split: if_splits)
qed simp

lemma exclude_loop_exact:
  "exclude_loop limit cur es = Inr out \<Longrightarrow> good cur \<Longrightarrow> list_all not_host es \<Longrightarrow>
   addrs_of out = addrs_of cur - addrs_of es"
proof (induction limit cur es arbitrary: out rule: exclude_loop.induct)
  case (2 limit cur e es)
  then obtain nxt where n: "subtract_each e limit [] cur = Inr nxt"
    and rest: "(if nxt = [] then Inr [] else exclude_loop limit nxt es) = Inr out"
    by (auto simp: bindE_eq_Inr)
  have "good nxt" "addrs_of nxt = addrs_of cur - addrs e"
    using subtract_each_sound [OF n] subtract_each_exact [OF n] "2.prems"(2,3) by auto
  with "2.IH" [of nxt out] rest "2.prems"(3) show ?case by (auto split: if_splits)
qed simp

lemma include_loop_sound:
  "include_loop es limit acc is = Inr out \<Longrightarrow> good is \<Longrightarrow> good acc \<Longrightarrow>
   good out \<and> addrs_of out \<subseteq> addrs_of acc \<union> (addrs_of is - addrs_of es)"
proof (induction es limit acc "is" arbitrary: out rule: include_loop.induct)
  case (2 es limit acc i "is")
  then obtain cur where c: "exclude_loop limit [i] es = Inr cur"
    and rest: "include_loop es limit (acc @ cur) is = Inr out"
    and l: "\<not> limit < length (acc @ cur)"
    by (auto simp: bindE_eq_Inr Let_def split: if_splits)
  have "good cur" "addrs_of cur \<subseteq> addrs i - addrs_of es"
    using exclude_loop_sound [OF c] "2.prems"(2) by auto
  with "2.IH" [OF refl l rest] "2.prems" show ?case by auto
qed simp

lemma include_loop_exact:
  "include_loop es limit acc is = Inr out \<Longrightarrow> good is \<Longrightarrow> list_all not_host es \<Longrightarrow>
   addrs_of out = addrs_of acc \<union> (addrs_of is - addrs_of es)"
proof (induction es limit acc "is" arbitrary: out rule: include_loop.induct)
  case (2 es limit acc i "is")
  then obtain cur where c: "exclude_loop limit [i] es = Inr cur"
    and rest: "include_loop es limit (acc @ cur) is = Inr out"
    and l: "\<not> limit < length (acc @ cur)"
    by (auto simp: bindE_eq_Inr Let_def split: if_splits)
  have "addrs_of cur = addrs i - addrs_of es"
    using exclude_loop_exact [OF c] "2.prems"(2,3) by auto
  with "2.IH" [OF refl l rest] "2.prems" show ?case by auto
qed simp

subsection \<open>The whole computation\<close>

lemma compute_parts:
  assumes "compute_cidr_exclusion inc exc limit = Inr r"
  obtains si se so rest where
    "normalize_prefixes inc = (er_normalized_includes r, si)"
    "normalize_prefixes exc = (er_normalized_excludes r, se)"
    "include_loop (er_normalized_excludes r) limit [] (er_normalized_includes r) = Inr rest"
    "normalize_prefixes rest = (er_remaining r, so)" "length (er_remaining r) \<le> limit"
proof -
  obtain ni si where ni: "normalize_prefixes inc = (ni, si)" by fastforce
  obtain ne se where ne: "normalize_prefixes exc = (ne, se)" by fastforce
  obtain rest where rest: "include_loop ne limit [] ni = Inr rest"
    using assms ni ne by (auto simp: compute_cidr_exclusion_def bindE_eq_Inr)
  obtain rem so where rem: "normalize_prefixes rest = (rem, so)" by fastforce
  have "er_normalized_includes r = ni" "er_normalized_excludes r = ne" "er_remaining r = rem"
    "length rem \<le> limit"
    using assms ni ne rest rem
    by (auto simp: compute_cidr_exclusion_def Let_def split: if_splits)
  then show ?thesis using that ni ne rest rem by simp
qed

lemma good_wf: "good ps \<Longrightarrow> list_all wf_allowed ps"
  by (simp add: good_def list_all_iff)

lemma normal_form_good: "normal_form ps \<Longrightarrow> good ps"
  by (simp add: normal_form_def)

lemma compute_sound:
  assumes "compute_cidr_exclusion inc exc limit = Inr r"
    and "list_all wf_allowed inc" "list_all wf_allowed exc"
  shows "addrs_of (er_remaining r) \<subseteq> addrs_of inc - addrs_of exc
       \<and> normal_form (er_remaining r) \<and> length (er_remaining r) \<le> limit"
proof -
  obtain si se so rest where *:
    "normalize_prefixes inc = (er_normalized_includes r, si)"
    "normalize_prefixes exc = (er_normalized_excludes r, se)"
    "include_loop (er_normalized_excludes r) limit [] (er_normalized_includes r) = Inr rest"
    "normalize_prefixes rest = (er_remaining r, so)" "length (er_remaining r) \<le> limit"
    using assms(1) by (rule compute_parts)
  note i = normalize_prefixes_result [OF assms(2) *(1)]
  note e = normalize_prefixes_result [OF assms(3) *(2)]
  note s = include_loop_sound [OF *(3) normal_form_good [OF i(1)]]
  have g: "good rest" using s by simp
  note n = normalize_prefixes_result [OF good_wf [OF g] *(4)]
  show ?thesis using s n i e *(5) by auto
qed

lemma compute_exact:
  assumes "compute_cidr_exclusion inc exc limit = Inr r"
    and "list_all wf_allowed inc" "list_all wf_allowed exc"
    and "list_all not_host (er_normalized_excludes r)"
  shows "addrs_of (er_remaining r) = addrs_of inc - addrs_of exc"
proof -
  obtain si se so rest where *:
    "normalize_prefixes inc = (er_normalized_includes r, si)"
    "normalize_prefixes exc = (er_normalized_excludes r, se)"
    "include_loop (er_normalized_excludes r) limit [] (er_normalized_includes r) = Inr rest"
    "normalize_prefixes rest = (er_remaining r, so)" "length (er_remaining r) \<le> limit"
    using assms(1) by (rule compute_parts)
  note i = normalize_prefixes_result [OF assms(2) *(1)]
  note e = normalize_prefixes_result [OF assms(3) *(2)]
  have g: "good rest"
    using include_loop_sound [OF *(3) normal_form_good [OF i(1)]] by simp
  note n = normalize_prefixes_result [OF good_wf [OF g] *(4)]
  show ?thesis
    using include_loop_exact [OF *(3) normal_form_good [OF i(1)] assms(4)] n i e by simp
qed

subsection \<open>Limits\<close>

lemma subtract_prefix_limit:
  "subtract_prefix i e out limit = Inl err \<Longrightarrow> \<exists>n > limit. err = TooManyResults limit n"
proof (induction i e out limit rule: subtract_prefix.induct)
  case (1 i e out limit)
  then show ?case
    by (auto simp: subtract_prefix.simps [of i e out limit] bindE_eq_Inl split: if_splits)
qed

lemma subtract_each_limit:
  "subtract_each e limit out ps = Inl err \<Longrightarrow> \<exists>n > limit. err = TooManyResults limit n"
  by (induction e limit out ps rule: subtract_each.induct)
    (auto simp: bindE_eq_Inl dest: subtract_prefix_limit)

lemma exclude_loop_limit:
  "exclude_loop limit cur es = Inl err \<Longrightarrow> \<exists>n > limit. err = TooManyResults limit n"
  by (induction limit cur es rule: exclude_loop.induct)
    (auto simp: bindE_eq_Inl split: if_splits dest: subtract_each_limit)

lemma include_loop_limit:
  "include_loop es limit acc is = Inl err \<Longrightarrow> \<exists>n > limit. err = TooManyResults limit n"
  by (induction es limit acc "is" rule: include_loop.induct)
    (auto simp: bindE_eq_Inl Let_def split: if_splits dest: exclude_loop_limit)

lemma compute_limit:
  assumes "compute_cidr_exclusion inc exc limit = Inl err"
  shows "\<exists>n > limit. err = TooManyResults limit n"
proof -
  obtain ni si where ni: "normalize_prefixes inc = (ni, si)" by fastforce
  obtain ne se where ne: "normalize_prefixes exc = (ne, se)" by fastforce
  show ?thesis
    using assms include_loop_limit [of ne limit "[]" ni err] ni ne
    by (auto simp: compute_cidr_exclusion_def bindE_eq_Inl Let_def case_prod_beta split: if_splits)
qed


subsection \<open>Single hosts\<close>

lemma sibling_parent_not_host:
  "sibling_parent l r = Some p \<Longrightarrow> canonical l \<Longrightarrow> canonical r \<Longrightarrow> wf_allowed l \<Longrightarrow> not_host p"
proof -
  assume s: "sibling_parent l r = Some p" and c: "canonical l" "canonical r" "wf_allowed l"
  have "cidr l \<noteq> 0" "p = AllowedIp (apply_mask (addr (canonicalize l)) (cidr l - 1)) (cidr l - 1)"
    using s by (auto simp: sibling_parent_def Let_def split: if_splits prod.splits)
  then show "not_host p"
    using sibling_parent_merge(4) [OF s c]
    by (simp add: not_host_def word_less_nat_alt unat_minus_one)
qed

lemma merge_pass_not_host:
  "good ps \<Longrightarrow> list_all not_host ps \<Longrightarrow> list_all not_host (fst (merge_pass ps))"
  by (induction ps rule: merge_pass.induct)
    (auto split: option.splits prod.splits dest: sibling_parent_not_host)

lemma drop_covered_not_host:
  "list_all not_host acc \<Longrightarrow> list_all not_host ps \<Longrightarrow> list_all not_host (drop_covered acc ps)"
  using set_drop_covered by (fastforce simp: list_all_iff)

lemma normalize_loop_not_host:
  "good ps \<Longrightarrow> list_all not_host ps \<Longrightarrow> list_all not_host (fst (normalize_loop ps mp))"
proof (induction ps mp rule: normalize_loop.induct)
  case (1 ps mp)
  let ?m = "merge_pass (sort ps)" and ?c = "drop_covered [] (fst (merge_pass (sort ps)))"
  have g: "good ?c" using 1(2) by (intro good_drop_covered merge_pass_good) simp_all
  have nh: "list_all not_host ?c"
    using 1(2,3) by (intro drop_covered_not_host merge_pass_not_host) (simp_all add: list_all_iff)
  show ?case
    using 1(1) [OF refl refl _ g nh] nh by (simp add: normalize_loop.simps [of ps] Let_def)
qed

lemma normalize_prefixes_not_host:
  assumes "list_all wf_allowed ps" "list_all not_host ps"
  shows "list_all not_host (fst (normalize_prefixes ps))"
proof -
  let ?f = "drop_covered [] (remdups_adj (sort (map canonicalize ps)))"
  have "list_all not_host ?f"
    using assms(2) by (intro drop_covered_not_host) (auto simp: list_all_iff not_host_def)
  moreover have "good ?f"
    using good_map_canonicalize [OF assms(1)] by (intro good_drop_covered) simp_all
  ultimately show ?thesis
    using normalize_loop_not_host [of ?f False]
    by (auto simp: normalize_prefixes_def Let_def split: prod.splits)
qed

lemma compute_exact_not_host:
  assumes "compute_cidr_exclusion inc exc limit = Inr r"
    and "list_all wf_allowed inc" "list_all wf_allowed exc" "list_all not_host exc"
  shows "addrs_of (er_remaining r) = addrs_of inc - addrs_of exc"
proof -
  have "list_all not_host (er_normalized_excludes r)"
    using normalize_prefixes_not_host [OF assms(3,4)] assms(1)
    by (auto elim!: compute_parts)
  with compute_exact assms show ?thesis by blast
qed

lemmas cidr_eval [eval_simps] =
  apply_v4_mask_def apply_v6_mask_def host_increment_def saturating_add_def canonicalize_def
  contains_prefix_def overlaps_def split_children_def sibling_parent_def
  normalize_loop.simps normalize_prefixes_def subtract_prefix.simps
  normalize_cidr_set_def compute_cidr_exclusion_def less_eq_allowed_ip_def prefix_le_def less_allowed_ip_def
  less_ip_addr_def


subsection \<open>The last split\<close>

text \<open>
  \<open>host_increment\<close> is zero for the longest prefix of a family, so a /31 splits into the
  same /32 twice: excluding the first of two hosts removes both, and two sibling hosts are
  never merged.
\<close>

lemma sibling_hosts_not_merged:
  "canonical l \<Longrightarrow> canonical r \<Longrightarrow> wf_allowed l \<Longrightarrow> \<not> not_host l \<Longrightarrow> sibling_parent l r = None"
  using sibling_parent_merge(4) [of l r] by (cases "sibling_parent l r") (auto simp: not_host_def)

lemma lost_host_steps:
  "normalize_prefixes [AllowedIp (V4 0x0A000000) 30] = ([AllowedIp (V4 0x0A000000) 30],
     \<lparr>ns_count = 1, ns_host_bits_normalized = False, ns_merged_prefixes = False\<rparr>)"
  "normalize_prefixes [AllowedIp (V4 0x0A000000) 32] = ([AllowedIp (V4 0x0A000000) 32],
     \<lparr>ns_count = 1, ns_host_bits_normalized = False, ns_merged_prefixes = False\<rparr>)"
  "normalize_prefixes [AllowedIp (V4 0x0A000002) 31] = ([AllowedIp (V4 0x0A000002) 31],
     \<lparr>ns_count = 1, ns_host_bits_normalized = False, ns_merged_prefixes = False\<rparr>)"
  "subtract_prefix (AllowedIp (V4 0x0A000000) 30) (AllowedIp (V4 0x0A000000) 32) [] 32
     = Inr [AllowedIp (V4 0x0A000002) 31]"
  by (simp add: eval_simps mask_eq_exp_minus_1)+

text \<open>Two halves of 10.0.0.0/24, one written with host bits, are merged; two sibling hosts are
  not, since a split of a /31 yields one host twice.\<close>

lemma merging_steps:
  "normalize_prefixes [AllowedIp (V4 0x0A000085) 25, AllowedIp (V4 0x0A000000) 25]
     = ([AllowedIp (V4 0x0A000000) 24],
     \<lparr>ns_count = 1, ns_host_bits_normalized = True, ns_merged_prefixes = True\<rparr>)"
  "normalize_prefixes [AllowedIp (V4 0x0A000000) 32, AllowedIp (V4 0x0A000001) 32]
     = ([AllowedIp (V4 0x0A000000) 32, AllowedIp (V4 0x0A000001) 32],
     \<lparr>ns_count = 2, ns_host_bits_normalized = False, ns_merged_prefixes = False\<rparr>)"
  by (simp add: eval_simps mask_eq_exp_minus_1)+

text \<open>A second concrete run, without a host route: 10.0.0.0/24 minus 10.0.0.64/26.\<close>

lemma split_run_steps:
  "normalize_prefixes [AllowedIp (V4 0x0A000000) 24] = ([AllowedIp (V4 0x0A000000) 24],
     \<lparr>ns_count = 1, ns_host_bits_normalized = False, ns_merged_prefixes = False\<rparr>)"
  "normalize_prefixes [AllowedIp (V4 0x0A000040) 26] = ([AllowedIp (V4 0x0A000040) 26],
     \<lparr>ns_count = 1, ns_host_bits_normalized = False, ns_merged_prefixes = False\<rparr>)"
  "normalize_prefixes [AllowedIp (V4 0x0A000000) 26, AllowedIp (V4 0x0A000080) 25]
     = ([AllowedIp (V4 0x0A000000) 26, AllowedIp (V4 0x0A000080) 25],
     \<lparr>ns_count = 2, ns_host_bits_normalized = False, ns_merged_prefixes = False\<rparr>)"
  "subtract_prefix (AllowedIp (V4 0x0A000000) 24) (AllowedIp (V4 0x0A000040) 26) [] 32
     = Inr [AllowedIp (V4 0x0A000000) 26, AllowedIp (V4 0x0A000080) 25]"
  by (simp add: eval_simps mask_eq_exp_minus_1)+

end
