(* ===== verification/Cidr_Properties.thy ===== *)
theory Cidr_Properties
  imports Cidr_Exclusion
begin

text \<open>
  The properties of the CIDR calculator, over the sets of addresses that prefixes denote.
\<close>

text \<open>C10: normalising prefixes keeps the set of addresses they cover and returns a normal form:
  canonical, sorted, pairwise disjoint, and fully merged: apart from single hosts, no two of the
  prefixes cover together exactly the addresses of some prefix.\<close>

theorem normalized_prefixes:
  assumes "list_all wf_allowed ps" "normalize_prefixes ps = (out, stats)"
  shows "normal_form out \<and> addrs_of out = addrs_of ps \<and> ns_count stats = length out"
  using normalize_prefixes_result [OF assms] by blast

theorem normalized_prefixes_witness:
  "addrs_of [AllowedIp (V4 0x0A000000) 24]
     = addrs_of [AllowedIp (V4 0x0A000085) 25, AllowedIp (V4 0x0A000000) 25]
   \<and> normal_form [AllowedIp (V4 0x0A000000) 24]"
proof -
  have "list_all wf_allowed [AllowedIp (V4 0x0A000085) 25, AllowedIp (V4 0x0A000000) 25]"
    by (simp add: wf_allowed_def)
  from normalized_prefixes [OF this merging_steps(1)] show ?thesis by blast
qed

text \<open>The exception for single hosts is real: two hosts that make up a /31 stay two prefixes.\<close>

lemma hosts_stay_apart:
  "mergeable (AllowedIp (V4 0x0A000000) 32) (AllowedIp (V4 0x0A000001) 32)"
  "fst (normalize_prefixes [AllowedIp (V4 0x0A000000) 32, AllowedIp (V4 0x0A000001) 32])
     = [AllowedIp (V4 0x0A000000) 32, AllowedIp (V4 0x0A000001) 32]"
proof -
  let ?a = "AllowedIp (V4 0x0A000000) 32" and ?b = "AllowedIp (V4 0x0A000001) 32"
  let ?r = "AllowedIp (V4 0x0A000000) 31"
  have "drop_bit 1 x = 0x05000000 \<longleftrightarrow> x = 0x0A000000 \<or> x = 0x0A000001" for x :: "32 word"
  proof -
    have "drop_bit 1 x = 0x05000000 \<longleftrightarrow> unat x div 2 = 0x05000000"
      by (simp add: word_unat_eq_iff unat_drop_bit_eq drop_bit_eq_div [where 'a=nat])
    also have "\<dots> \<longleftrightarrow> unat x = 0x0A000000 \<or> unat x = 0x0A000001" by presburger
    also have "\<dots> \<longleftrightarrow> x = 0x0A000000 \<or> x = 0x0A000001" by (simp add: word_unat_eq_iff)
    finally show ?thesis .
  qed
  then have "in_prefix x ?r \<longleftrightarrow> in_prefix x ?a \<or> in_prefix x ?b" for x by (cases x) auto
  then have "addrs ?r = addrs ?a \<union> addrs ?b" by (auto simp: addrs_def)
  moreover have "wf_allowed ?r" "?a \<noteq> ?b" by (simp_all add: wf_allowed_def)
  ultimately show "mergeable ?a ?b" by (auto simp: mergeable_def)
qed (simp add: merging_steps)

text \<open>C11: when no exclusion is a single host, the calculator returns exactly the included
  addresses that no exclusion covers.\<close>

theorem exclusion_exact:
  assumes "compute_cidr_exclusion inc exc limit = Inr r"
    and "list_all wf_allowed inc" "list_all wf_allowed exc" "list_all not_host exc"
  shows "addrs_of (er_remaining r) = addrs_of inc - addrs_of exc"
  using assms by (rule compute_exact_not_host)

lemma split_run:
  "\<exists>r. compute_cidr_exclusion [AllowedIp (V4 0x0A000000) 24] [AllowedIp (V4 0x0A000040) 26] 32
      = Inr r \<and> er_remaining r = [AllowedIp (V4 0x0A000000) 26, AllowedIp (V4 0x0A000080) 25]"
  by (simp add: compute_cidr_exclusion_def split_run_steps Let_def)

theorem exclusion_exact_witness:
  "addrs_of [AllowedIp (V4 0x0A000000) 26, AllowedIp (V4 0x0A000080) 25]
     = addrs_of [AllowedIp (V4 0x0A000000) 24] - addrs_of [AllowedIp (V4 0x0A000040) 26]"
proof -
  obtain r where "compute_cidr_exclusion [AllowedIp (V4 0x0A000000) 24]
      [AllowedIp (V4 0x0A000040) 26] 32 = Inr r"
    "er_remaining r = [AllowedIp (V4 0x0A000000) 26, AllowedIp (V4 0x0A000080) 25]"
    using split_run by blast
  then show ?thesis
    using exclusion_exact [of "[AllowedIp (V4 0x0A000000) 24]" "[AllowedIp (V4 0x0A000040) 26]" 32 r]
    by (simp add: wf_allowed_def not_host_def)
qed

text \<open>C12: whatever the exclusions, the result covers no excluded address and none outside the
  includes, is in normal form and within the limit.\<close>

theorem exclusion_sound:
  assumes "compute_cidr_exclusion inc exc limit = Inr r"
    and "list_all wf_allowed inc" "list_all wf_allowed exc"
  shows "addrs_of (er_remaining r) \<subseteq> addrs_of inc - addrs_of exc
    \<and> normal_form (er_remaining r) \<and> length (er_remaining r) \<le> limit"
  using assms by (rule compute_sound)

lemma lost_run:
  "\<exists>r. compute_cidr_exclusion [AllowedIp (V4 0x0A000000) 30] [AllowedIp (V4 0x0A000000) 32] 32
      = Inr r \<and> er_remaining r = [AllowedIp (V4 0x0A000002) 31]"
  by (simp add: compute_cidr_exclusion_def lost_host_steps Let_def)

theorem exclusion_sound_witness:
  "addrs_of [AllowedIp (V4 0x0A000002) 31]
     \<subseteq> addrs_of [AllowedIp (V4 0x0A000000) 30] - addrs_of [AllowedIp (V4 0x0A000000) 32]"
proof -
  obtain r where "compute_cidr_exclusion [AllowedIp (V4 0x0A000000) 30]
      [AllowedIp (V4 0x0A000000) 32] 32 = Inr r" "er_remaining r = [AllowedIp (V4 0x0A000002) 31]"
    using lost_run by blast
  then show ?thesis
    using exclusion_sound [of "[AllowedIp (V4 0x0A000000) 30]" "[AllowedIp (V4 0x0A000000) 32]" 32 r]
    by (simp add: wf_allowed_def)
qed

text \<open>The only error of the calculator is more prefixes than the limit, with the count.\<close>

theorem exclusion_errors:
  assumes "compute_cidr_exclusion inc exc limit = Inl err"
  shows "\<exists>n. limit < n \<and> err = TooManyResults limit n"
  using compute_limit [OF assms] by blast

lemma limit_run:
  "compute_cidr_exclusion [AllowedIp (V4 0x0A000000) 24] [] 0 = Inl (TooManyResults 0 1)"
  by (simp add: compute_cidr_exclusion_def split_run_steps Let_def normalize_prefixes_def [of "[]"])

theorem exclusion_errors_witness: "\<exists>n. 0 < n \<and> TooManyResults 0 1 = TooManyResults 0 n"
  by (rule exclusion_errors [OF limit_run])

text \<open>Excluding the host 10.0.0.0 from 10.0.0.0/30 also loses 10.0.0.1: the second half of
  a prefix one bit above the host length starts at the first one again.\<close>

theorem exclusion_loses_host:
  "\<exists>r. compute_cidr_exclusion [AllowedIp (V4 0x0A000000) 30] [AllowedIp (V4 0x0A000000) 32] 32
        = Inr r
     \<and> er_remaining r = [AllowedIp (V4 0x0A000002) 31]
     \<and> V4 0x0A000001 \<in> addrs_of [AllowedIp (V4 0x0A000000) 30]
         - addrs_of [AllowedIp (V4 0x0A000000) 32]
     \<and> V4 0x0A000001 \<notin> addrs_of (er_remaining r)"
  by (simp add: compute_cidr_exclusion_def lost_host_steps Let_def addrs_def)

end
