(* ===== verification/Tunnel_Session.thy ===== *)
theory Tunnel_Session
  imports Prelude
begin

text \<open>
  The decision functions of \<open>application/tunnel_session.rs\<close>: what the start/stop button does
  in each state of the UI, and what follows a successful stop. A \<open>Duration\<close> is a number of
  milliseconds.
\<close>

record toggle_input =
  ti_busy :: bool
  ti_running :: bool
  ti_selected_config_id :: "u64 option"
  ti_running_config_id :: "u64 option"
  ti_draft_has_saved_source :: bool
  ti_draft_is_dirty :: bool
  ti_restart_delay :: "nat option"

datatype start_blocked_reason = SaveDraftFirst | SaveChangesFirst | SelectTunnelFirst

fun blocked_message :: "start_blocked_reason \<Rightarrow> string" where
  "blocked_message SaveDraftFirst = ''Save this draft before starting''"
| "blocked_message SaveChangesFirst = ''Save changes before starting''"
| "blocked_message SelectTunnelFirst = ''Select a tunnel first''"

datatype toggle_decision =
  Noop
| QueuePendingStart u64
| StopRunning
| StartSelected u64 "nat option"
| Blocked start_blocked_reason

datatype stop_success_decision = StopIdle | RestartPending u64

definition pending_start_target :: "u64 option \<Rightarrow> u64 option \<Rightarrow> u64 option" where
  "pending_start_target selected running =
     (case selected of Some i \<Rightarrow> Some i | None \<Rightarrow> running)"

definition decide_toggle :: "toggle_input \<Rightarrow> toggle_decision" where
  "decide_toggle i =
     (if ti_busy i then
        (case pending_start_target (ti_selected_config_id i) (ti_running_config_id i) of
           Some c \<Rightarrow> if ti_running i then QueuePendingStart c else Noop
         | None \<Rightarrow> Noop)
      else if ti_running i then StopRunning
      else if \<not> ti_draft_has_saved_source i then Blocked SaveDraftFirst
      else if ti_draft_is_dirty i then Blocked SaveChangesFirst
      else case ti_selected_config_id i of
             Some c \<Rightarrow> StartSelected c (ti_restart_delay i)
           | None \<Rightarrow> Blocked SelectTunnelFirst)"

definition decide_after_stop_success :: "u64 option \<Rightarrow> stop_success_decision" where
  "decide_after_stop_success pending =
     (case pending of Some c \<Rightarrow> RestartPending c | None \<Rightarrow> StopIdle)"

text \<open>A start is issued exactly when nothing runs, nothing is in flight and the selected
  configuration is saved and clean.\<close>

lemma decide_toggle_start_iff:
  "decide_toggle i = StartSelected c d \<longleftrightarrow>
     \<not> ti_busy i \<and> \<not> ti_running i \<and> ti_draft_has_saved_source i \<and> \<not> ti_draft_is_dirty i
     \<and> ti_selected_config_id i = Some c \<and> ti_restart_delay i = d"
  by (auto simp: decide_toggle_def split: option.splits)

lemma decide_toggle_stop_iff:
  "decide_toggle i = StopRunning \<longleftrightarrow> ti_running i \<and> \<not> ti_busy i"
  by (auto simp: decide_toggle_def split: option.splits)

lemma decide_toggle_queue:
  "decide_toggle i = QueuePendingStart c \<longleftrightarrow> ti_busy i \<and> ti_running i
     \<and> (ti_selected_config_id i = Some c
       \<or> (ti_selected_config_id i = None \<and> ti_running_config_id i = Some c))"
  by (auto simp: decide_toggle_def pending_start_target_def split: option.splits)

end
