(* ===== verification/Config_Library.thy ===== *)
theory Config_Library
  imports Rust_Net
begin

text \<open>
  \<open>application/config_library.rs\<close>: the planning of names, saves, renames, deletions and
  imports of the configuration library. A \<open>HashSet\<close> of names is a set, a path a string;
  reading and writing the files is not modelled.
\<close>

datatype config_source_kind = SourceFile | SourcePaste

record existing_config_name =
  en_id :: u64
  en_name :: string

record stored_config =
  sc_id :: u64
  sc_name :: string
  sc_storage_path :: string
  sc_source :: config_source_kind

subsection \<open>Names\<close>

definition numbered :: "string \<Rightarrow> nat \<Rightarrow> string" where
  "numbered base i = base @ ''-'' @ show_nat i"

text \<open>The loop \<open>for idx in 2..1000\<close>.\<close>

definition candidate_numbers :: "nat list" where
  "candidate_numbers = [2..<1000]"

lemma set_candidate_numbers [simp]: "set candidate_numbers = {2..<1000}"
  by (simp only: candidate_numbers_def set_upt)

definition next_available_name :: "string set \<Rightarrow> string \<Rightarrow> string" where
  "next_available_name names base =
     (if base \<notin> names then base
      else case find (\<lambda>i. numbered base i \<notin> names) candidate_numbers of
             Some i \<Rightarrow> numbered base i
           | None \<Rightarrow> numbered base (card names + 1))"

definition reserve_unique_name :: "string set \<Rightarrow> string \<Rightarrow> string \<times> string set" where
  "reserve_unique_name names base =
     (let candidate = next_available_name names base in (candidate, insert candidate names))"

subsection \<open>Saving\<close>

datatype save_config_error = SaveMissingName | SaveMissingText | SaveDuplicateName

fun save_error_message :: "save_config_error \<Rightarrow> string" where
  "save_error_message SaveMissingName = ''Tunnel name is required''"
| "save_error_message SaveMissingText = ''Config text is required''"
| "save_error_message SaveDuplicateName = ''Tunnel name already exists''"

record save_config_request =
  sr_requested_name :: string
  sr_text :: string
  sr_source_id :: "u64 option"
  sr_existing_configs :: "existing_config_name list"

definition validate_save_request :: "save_config_request \<Rightarrow> save_config_error + string" where
  "validate_save_request r =
     (let name = trim (sr_requested_name r) in
      if name = [] then Inl SaveMissingName
      else if trim (sr_text r) = [] then Inl SaveMissingText
      else if list_ex (\<lambda>e. en_name e = name \<and> Some (en_id e) \<noteq> sr_source_id r)
                (sr_existing_configs r)
      then Inl SaveDuplicateName
      else Inr name)"

record save_target_request =
  st_requested_name :: string
  st_text :: string
  st_source_id :: "u64 option"
  st_force_new :: bool
  st_existing_configs :: "stored_config list"
  st_next_id :: u64
  st_next_storage_path :: string

record save_target_plan =
  sp_id :: u64
  sp_name :: string
  sp_storage_path :: string
  sp_source :: config_source_kind
  sp_is_new :: bool

definition plan_save_target :: "save_target_request \<Rightarrow> save_config_error + save_target_plan" where
  "plan_save_target r =
     (let existing_names = map (\<lambda>c. \<lparr>en_id = sc_id c, en_name = sc_name c\<rparr>) (st_existing_configs r);
          source_id = (if st_force_new r then None else st_source_id r)
      in bindE (validate_save_request
           \<lparr>sr_requested_name = st_requested_name r, sr_text = st_text r,
            sr_source_id = source_id, sr_existing_configs = existing_names\<rparr>) (\<lambda>name.
         case (case source_id of
                 None \<Rightarrow> None
               | Some i \<Rightarrow> find (\<lambda>c. sc_id c = i) (st_existing_configs r)) of
           Some c \<Rightarrow> Inr \<lparr>sp_id = sc_id c, sp_name = name, sp_storage_path = sc_storage_path c,
                         sp_source = sc_source c, sp_is_new = False\<rparr>
         | None \<Rightarrow> Inr \<lparr>sp_id = st_next_id r, sp_name = name,
                       sp_storage_path = st_next_storage_path r, sp_source = SourcePaste,
                       sp_is_new = True\<rparr>))"

subsection \<open>Renaming\<close>

record rename_config_request =
  rn_requested_name :: string
  rn_source_id :: "u64 option"
  rn_selected_id :: "u64 option"
  rn_existing_configs :: "stored_config list"

datatype rename_config_decision =
  RenameUnchanged
| Rename (rd_config_id: u64) (rd_previous_name: string) (rd_name: string)

datatype rename_config_error =
  RenameMissingName | RenameMissingSelection | RenameMissingConfig | RenameDuplicateName

fun rename_error_message :: "rename_config_error \<Rightarrow> string" where
  "rename_error_message RenameMissingName = ''Tunnel name is required''"
| "rename_error_message RenameMissingSelection = ''Select a tunnel first''"
| "rename_error_message RenameMissingConfig = ''Selected tunnel no longer exists''"
| "rename_error_message RenameDuplicateName = ''Tunnel name already exists''"

definition plan_rename ::
  "rename_config_request \<Rightarrow> rename_config_error + rename_config_decision" where
  "plan_rename r =
     (let name = trim (rn_requested_name r) in
      if name = [] then Inl RenameMissingName
      else bindE (ok_or RenameMissingSelection
             (case rn_source_id r of Some i \<Rightarrow> Some i | None \<Rightarrow> rn_selected_id r)) (\<lambda>target_id.
      bindE (ok_or RenameMissingConfig
             (find (\<lambda>c. sc_id c = target_id) (rn_existing_configs r))) (\<lambda>target.
      if sc_name target = name then Inr RenameUnchanged
      else if list_ex (\<lambda>c. sc_id c \<noteq> target_id \<and> sc_name c = name) (rn_existing_configs r)
      then Inl RenameDuplicateName
      else Inr (Rename target_id (sc_name target) name))))"

subsection \<open>Deleting\<close>

datatype delete_policy = BlockRunning | SkipRunning

record delete_configs_request =
  dr_requested_ids :: "u64 list"
  dr_existing_configs :: "stored_config list"
  dr_running_id :: "u64 option"
  dr_running_name :: "string option"
  dr_policy :: delete_policy

record delete_configs_plan =
  dl_deleted_ids :: "u64 list"
  dl_deleted_names :: "string list"
  dl_deleted_paths :: "string list"
  dl_skipped_running :: "string list"

datatype delete_configs_decision =
  NoSelection
| BlockedRunning
| OnlySkippedRunning "string list"
| Delete delete_configs_plan

definition is_running_config :: "delete_configs_request \<Rightarrow> stored_config \<Rightarrow> bool" where
  "is_running_config r c =
     (dr_running_id r = Some (sc_id c) \<or> dr_running_name r = Some (sc_name c))"

text \<open>The loop over the existing configurations; \<open>None\<close> is the early return of
  \<open>BlockRunning\<close>.\<close>

fun plan_delete_loop ::
  "delete_configs_request \<Rightarrow> delete_configs_plan \<Rightarrow> stored_config list
   \<Rightarrow> delete_configs_plan option" where
  "plan_delete_loop r p [] = Some p"
| "plan_delete_loop r p (c # cs) =
     (if sc_id c \<notin> set (dr_requested_ids r) then plan_delete_loop r p cs
      else if is_running_config r c then
        (case dr_policy r of
           BlockRunning \<Rightarrow> None
         | SkipRunning \<Rightarrow> plan_delete_loop r
             (p\<lparr>dl_skipped_running := dl_skipped_running p @ [sc_name c]\<rparr>) cs)
      else plan_delete_loop r
        (p\<lparr>dl_deleted_ids := dl_deleted_ids p @ [sc_id c],
           dl_deleted_names := dl_deleted_names p @ [sc_name c],
           dl_deleted_paths := dl_deleted_paths p @ [sc_storage_path c]\<rparr>) cs)"

definition plan_delete :: "delete_configs_request \<Rightarrow> delete_configs_decision" where
  "plan_delete r =
     (if dr_requested_ids r = [] then NoSelection
      else case plan_delete_loop r
             \<lparr>dl_deleted_ids = [], dl_deleted_names = [], dl_deleted_paths = [],
              dl_skipped_running = []\<rparr> (dr_existing_configs r) of
             None \<Rightarrow> BlockedRunning
           | Some p \<Rightarrow>
               if dl_deleted_ids p = [] then
                 (if dl_skipped_running p = [] then NoSelection
                  else OnlySkippedRunning (dl_skipped_running p))
               else Delete p)"

definition delete_status_message :: "string list \<Rightarrow> nat \<Rightarrow> string" where
  "delete_status_message deleted skipped =
     (let n = length deleted in
      if n = 0 \<and> 0 < skipped then
        (if skipped = 1 then ''Skipped 1 running config''
         else ''Skipped '' @ show_nat skipped @ '' running configs'')
      else if n = 1 \<and> skipped = 0 then ''Deleted '' @ hd deleted
      else
        let word = (if n = 1 then ''config'' else ''configs'') in
        if 0 < skipped
        then ''Deleted '' @ show_nat n @ '' '' @ word @ '', skipped '' @ show_nat skipped
               @ '' running''
        else ''Deleted '' @ show_nat n @ '' '' @ word)"

record post_delete_request =
  pd_remaining_ids :: "u64 list"
  pd_previous_selected_id :: "u64 option"
  pd_previous_selected_index :: "nat option"

datatype post_delete_selection = SelClear | SelKeep u64 | SelFallback u64

definition plan_post_delete_selection :: "post_delete_request \<Rightarrow> post_delete_selection" where
  "plan_post_delete_selection r =
     (let ids = pd_remaining_ids r;
          fallback = (case pd_previous_selected_index r of
              Some i \<Rightarrow> SelFallback (ids ! min i (length ids - 1)) | None \<Rightarrow> SelClear) in
      if ids = [] then SelClear
      else case pd_previous_selected_id r of
             Some i \<Rightarrow> if i \<in> set ids then SelKeep i else fallback
           | None \<Rightarrow> fallback)"

subsection \<open>Importing\<close>

record imported_config =
  ic_id :: u64
  ic_name :: string
  ic_origin_path :: string
  ic_storage_path :: string
  ic_source :: config_source_kind

record import_batch =
  ib_names_in_use :: "string set"
  ib_processed :: nat
  ib_total :: nat
  ib_imported :: nat
  ib_failed :: nat
  ib_last_error :: "string option"
  ib_last_imported_id :: "u64 option"

record import_progress =
  ip_processed :: nat
  ip_total :: nat
  ip_status_message :: string

record finalized_import =
  fi_imported :: nat
  fi_failed :: nat
  fi_should_persist :: bool
  fi_selected_import_id :: "u64 option"
  fi_status_message :: "string option"
  fi_error_message :: "string option"

definition begin_import_batch :: "string set \<Rightarrow> nat \<Rightarrow> import_batch" where
  "begin_import_batch names tot =
     \<lparr>ib_names_in_use = names, ib_processed = 0, ib_total = tot, ib_imported = 0,
      ib_failed = 0, ib_last_error = None, ib_last_imported_id = None\<rparr>"

definition progress_of :: "import_batch \<Rightarrow> import_progress" where
  "progress_of b =
     \<lparr>ip_processed = ib_processed b, ip_total = ib_total b,
      ip_status_message = ''Importing '' @ show_nat (ib_processed b) @ ''/''
        @ show_nat (ib_total b) @ ''...''\<rparr>"

definition record_import_success ::
  "import_batch \<Rightarrow> imported_config \<Rightarrow> import_batch \<times> imported_config \<times> import_progress" where
  "record_import_success b0 c =
     (let b1 = b0\<lparr>ib_imported := ib_imported b0 + 1, ib_processed := ib_processed b0 + 1\<rparr>;
          (name, names) = reserve_unique_name (ib_names_in_use b1) (ic_name c);
          b2 = b1\<lparr>ib_names_in_use := names, ib_last_imported_id := Some (ic_id c)\<rparr>
      in (b2, c\<lparr>ic_name := name\<rparr>, progress_of b2))"

definition record_import_failure ::
  "import_batch \<Rightarrow> string \<Rightarrow> string \<Rightarrow> import_batch \<times> import_progress" where
  "record_import_failure b0 path message =
     (let b1 = b0\<lparr>ib_failed := ib_failed b0 + 1, ib_processed := ib_processed b0 + 1,
                 ib_last_error := Some (message @ '' ('' @ path @ '')'')\<rparr>
      in (b1, progress_of b1))"

definition finish_import_batch :: "import_batch \<Rightarrow> finalized_import" where
  "finish_import_batch b =
     \<lparr>fi_imported = ib_imported b, fi_failed = ib_failed b,
      fi_should_persist = (0 < ib_imported b),
      fi_selected_import_id = ib_last_imported_id b,
      fi_status_message =
        (if ib_imported b = 0 \<and> 0 < ib_failed b then None
         else if 0 < ib_failed b
         then Some (''Imported '' @ show_nat (ib_imported b) @ '' configs, ''
                @ show_nat (ib_failed b) @ '' failed'')
         else Some (''Imported '' @ show_nat (ib_imported b) @ '' configs'')),
      fi_error_message =
        (if ib_imported b = 0 \<and> 0 < ib_failed b
         then Some (case ib_last_error b of Some e \<Rightarrow> e | None \<Rightarrow> ''Import failed'')
         else None)\<rparr>"

subsection \<open>Exporting\<close>

definition reserved_char :: "char \<Rightarrow> bool" where
  "reserved_char c = (c \<in> set [CHR ''/'', CHR 0x5C, CHR '':'', CHR ''*'', CHR ''?'', CHR 0x22,
     CHR ''<'', CHR ''>'', CHR ''|''])"

definition ascii_control :: "char \<Rightarrow> bool" where
  "ascii_control c = ((of_char c :: nat) < 32 \<or> (of_char c :: nat) = 127)"

text \<open>\<open>char::is_control\<close> on UTF-8: the ASCII controls and U+0080 to U+009F, which are
  the byte 0xC2 followed by 0x80 to 0x9F.\<close>

fun sanitize_loop :: "string \<Rightarrow> string" where
  "sanitize_loop [] = []"
| "sanitize_loop [c] =
     (if reserved_char c then ''_'' else if ascii_control c then [] else [c])"
| "sanitize_loop (c # d # s) =
     (if reserved_char c then CHR ''_'' # sanitize_loop (d # s)
      else if ascii_control c then sanitize_loop (d # s)
      else if c = CHR 0xC2 \<and> 128 \<le> (of_char d :: nat) \<and> (of_char d :: nat) < 160
      then sanitize_loop s
      else c # sanitize_loop (d # s))"

definition sanitize_export_stem :: "string \<Rightarrow> string" where
  "sanitize_export_stem name =
     (let trimmed = trim (sanitize_loop name) in
      if trimmed = [] then ''tunnel'' else trimmed)"


subsection \<open>Names are fresh\<close>

lemma show_nat_inj [simp]: "show_nat m = show_nat n \<longleftrightarrow> m = n"
  by (metis parse_uint_show nle_le option.inject)

lemma numbered_inj [simp]: "numbered base m = numbered base n \<longleftrightarrow> m = n"
  by (simp add: numbered_def)

lemma numbered_neq_base [simp]: "numbered base n \<noteq> base" "base \<noteq> numbered base n"
  by (simp_all add: numbered_def)

text \<open>The names the search tries.\<close>

definition tried_names :: "string \<Rightarrow> string set" where
  "tried_names base = insert base (numbered base ` {2..<1000})"

lemma card_tried_names: "card (tried_names base) = 999"
proof -
  have "card (numbered base ` {2..<1000}) = 998"
    by (subst card_image) (auto simp: inj_on_def)
  then show ?thesis by (auto simp: tried_names_def card_insert_if)
qed

lemma next_available_name_search:
  assumes "\<not> tried_names base \<subseteq> names"
  shows "next_available_name names base \<notin> names"
proof (cases "base \<in> names")
  case True
  with assms have "\<exists>i \<in> set candidate_numbers. numbered base i \<notin> names"
    by (auto simp: tried_names_def image_subset_iff)
  then obtain i where "i \<in> set candidate_numbers" "numbered base i \<notin> names" by blast
  then have "find (\<lambda>i. numbered base i \<notin> names) candidate_numbers \<noteq> None"
    by (auto simp: find_None_iff)
  then obtain j where "find (\<lambda>i. numbered base i \<notin> names) candidate_numbers = Some j" by blast
  with find_SomeD [OF this] True show ?thesis by (auto simp: next_available_name_def)
qed (simp add: next_available_name_def)

lemma next_available_name_fallback:
  assumes "tried_names base \<subseteq> names"
  shows "next_available_name names base = numbered base (card names + 1)"
proof -
  have "find (\<lambda>i. numbered base i \<notin> names) candidate_numbers = None"
    using assms by (auto simp: find_None_iff tried_names_def image_subset_iff)
  moreover have "base \<in> names" using assms by (simp add: tried_names_def)
  ultimately show ?thesis by (simp add: next_available_name_def)
qed

lemma next_available_name_fresh_iff:
  "next_available_name names base \<notin> names \<longleftrightarrow>
     \<not> (tried_names base \<subseteq> names \<and> numbered base (card names + 1) \<in> names)"
  using next_available_name_search next_available_name_fallback by metis

lemma next_available_name_fresh_small:
  assumes "finite names" "card names < 999"
  shows "next_available_name names base \<notin> names"
proof (rule next_available_name_search)
  show "\<not> tried_names base \<subseteq> names"
    using card_mono [OF assms(1), of "tried_names base"] assms(2) card_tried_names [of base]
    by auto
qed

text \<open>The fallback name can be taken: the tried names and the fallback itself are in use.\<close>

lemma next_available_name_taken:
  "next_available_name (insert (numbered base 1001) (tried_names base)) base
     \<in> insert (numbered base 1001) (tried_names base)"
proof -
  let ?names = "insert (numbered base 1001) (tried_names base)"
  have fin: "finite (tried_names base)" by (simp add: tried_names_def)
  have "numbered base 1001 \<notin> tried_names base" by (auto simp: tried_names_def)
  then have "card ?names = 1000" using fin by (simp add: card_tried_names)
  then show ?thesis
    using next_available_name_fallback [of base ?names] by auto
qed

subsection \<open>Imports\<close>

definition wf_batch :: "import_batch \<Rightarrow> bool" where
  "wf_batch b = (ib_processed b = ib_imported b + ib_failed b
     \<and> (ib_last_imported_id b = None) = (ib_imported b = 0)
     \<and> (ib_last_error b = None) = (ib_failed b = 0) \<and> finite (ib_names_in_use b))"

lemma begin_import_wf: "finite names \<Longrightarrow> wf_batch (begin_import_batch names tot)"
  by (simp add: wf_batch_def begin_import_batch_def)

lemma record_success_wf:
  "wf_batch b \<Longrightarrow> wf_batch (fst (record_import_success b c))"
  by (simp add: wf_batch_def record_import_success_def reserve_unique_name_def Let_def)

lemma record_failure_wf:
  "wf_batch b \<Longrightarrow> wf_batch (fst (record_import_failure b path m))"
  by (simp add: wf_batch_def record_import_failure_def Let_def)

datatype import_event = ImportOk imported_config | ImportFail string string

fun import_step :: "import_batch \<times> imported_config list \<Rightarrow> import_event
   \<Rightarrow> import_batch \<times> imported_config list" where
  "import_step (b, out) (ImportOk c) =
     (let (b', c', _) = record_import_success b c in (b', out @ [c']))"
| "import_step (b, out) (ImportFail p m) = (fst (record_import_failure b p m), out)"

definition run_import ::
  "string set \<Rightarrow> nat \<Rightarrow> import_event list \<Rightarrow> import_batch \<times> imported_config list" where
  "run_import names tot evs = foldl import_step (begin_import_batch names tot, []) evs"

lemma run_import_inv:
  assumes "finite names" "card names + length evs < 999"
    and "foldl import_step (begin_import_batch names tot, []) evs = (b, out)"
  shows "wf_batch b \<and> ib_names_in_use b = names \<union> ic_name ` set out
       \<and> distinct (map ic_name out) \<and> ic_name ` set out \<inter> names = {}
       \<and> ib_imported b = length out \<and> ib_processed b = length evs \<and> length out \<le> length evs"
  using assms
proof (induction evs arbitrary: b out rule: rev_induct)
  case Nil
  then show ?case by (auto simp: begin_import_batch_def wf_batch_def)
next
  case (snoc e evs)
  obtain b1 o1 where f: "foldl import_step (begin_import_batch names tot, []) evs = (b1, o1)"
    by fastforce
  have ih: "wf_batch b1" "ib_names_in_use b1 = names \<union> ic_name ` set o1"
    "distinct (map ic_name o1)" "ic_name ` set o1 \<inter> names = {}"
    "ib_imported b1 = length o1" "ib_processed b1 = length evs" "length o1 \<le> length evs"
    using snoc.IH [of b1 o1] snoc.prems f by auto
  have "card (ic_name ` set o1) \<le> length o1"
    using card_image_le [of "set o1" ic_name] card_length [of o1] by simp
  then have "card (ib_names_in_use b1) < 999"
    using card_Un_le [of names "ic_name ` set o1"] ih(2,7) snoc.prems(2) by simp
  then have fresh: "next_available_name (ib_names_in_use b1) n \<notin> ib_names_in_use b1" for n
    using next_available_name_fresh_small ih(1) by (simp add: wf_batch_def)
  show ?case
  proof (cases e)
    case (ImportOk c)
    then show ?thesis
      using snoc.prems(3) f ih fresh [of "ic_name c"] record_success_wf [OF ih(1), of c]
      by (auto simp: record_import_success_def reserve_unique_name_def Let_def disjoint_iff)
  next
    case (ImportFail p m)
    then show ?thesis
      using snoc.prems(3) f ih record_failure_wf [OF ih(1), of p m]
      by (auto simp: record_import_failure_def Let_def)
  qed
qed

subsection \<open>Saves, renames, deletions\<close>

text \<open>The library the plans speak about: distinct identifiers and distinct names.\<close>

definition wf_library :: "stored_config list \<Rightarrow> bool" where
  "wf_library cs = (distinct (map sc_id cs) \<and> distinct (map sc_name cs))"

definition apply_save :: "save_target_plan \<Rightarrow> stored_config list \<Rightarrow> stored_config list" where
  "apply_save p cs =
     (if sp_is_new p
      then cs @ [\<lparr>sc_id = sp_id p, sc_name = sp_name p, sc_storage_path = sp_storage_path p,
                 sc_source = sp_source p\<rparr>]
      else map (\<lambda>c. if sc_id c = sp_id p then c\<lparr>sc_name := sp_name p\<rparr> else c) cs)"

definition apply_rename ::
  "rename_config_decision \<Rightarrow> stored_config list \<Rightarrow> stored_config list" where
  "apply_rename d cs =
     (case d of RenameUnchanged \<Rightarrow> cs
      | Rename i _ n \<Rightarrow> map (\<lambda>c. if sc_id c = i then c\<lparr>sc_name := n\<rparr> else c) cs)"

lemma validate_ok:
  "validate_save_request r = Inr name \<Longrightarrow> name = trim (sr_requested_name r) \<and> name \<noteq> []
     \<and> trim (sr_text r) \<noteq> []
     \<and> (\<forall>e \<in> set (sr_existing_configs r). en_name e = name \<longrightarrow> Some (en_id e) = sr_source_id r)"
  by (auto simp: validate_save_request_def Let_def list_ex_iff split: if_splits)

lemma distinct_rename:
  assumes "wf_library cs" "\<forall>c \<in> set cs. sc_name c = n \<longrightarrow> sc_id c = i"
  shows "wf_library (map (\<lambda>c. if sc_id c = i then c\<lparr>sc_name := n\<rparr> else c) cs)"
  using assms
proof (induction cs)
  case (Cons c cs)
  then have tl: "wf_library (map (\<lambda>c. if sc_id c = i then c\<lparr>sc_name := n\<rparr> else c) cs)"
    by (simp add: wf_library_def)
  show ?case
  proof (cases "sc_id c = i")
    case True
    then have "\<forall>d \<in> set cs. sc_id d \<noteq> i"
      using Cons.prems(1) by (auto simp: wf_library_def image_iff)
    then have "map (\<lambda>c. if sc_id c = i then c\<lparr>sc_name := n\<rparr> else c) cs = cs"
      by (intro map_idI) auto
    then show ?thesis using Cons.prems \<open>\<forall>d \<in> set cs. sc_id d \<noteq> i\<close> True
      by (auto simp: wf_library_def)
  next
    case False
    then show ?thesis using Cons.prems tl by (auto simp: wf_library_def split: if_splits)
  qed
qed (simp add: wf_library_def)

lemma plan_save_wf:
  assumes "plan_save_target r = Inr p" "wf_library (st_existing_configs r)"
    and "st_next_id r \<notin> sc_id ` set (st_existing_configs r)"
  shows "wf_library (apply_save p (st_existing_configs r))"
proof -
  let ?src = "if st_force_new r then None else st_source_id r"
  let ?ex = "case ?src of None \<Rightarrow> None | Some i \<Rightarrow> find (\<lambda>c. sc_id c = i) (st_existing_configs r)"
  obtain name where v: "validate_save_request
      \<lparr>sr_requested_name = st_requested_name r, sr_text = st_text r, sr_source_id = ?src,
       sr_existing_configs = map (\<lambda>c. \<lparr>en_id = sc_id c, en_name = sc_name c\<rparr>)
         (st_existing_configs r)\<rparr> = Inr name"
    and p: "sp_name p = name"
      "case ?ex of Some c \<Rightarrow> sp_id p = sc_id c \<and> \<not> sp_is_new p
        | None \<Rightarrow> sp_id p = st_next_id r \<and> sp_is_new p"
    using assms(1) by (auto simp: plan_save_target_def Let_def bindE_eq_Inr split: option.splits)
  have nm: "\<forall>c \<in> set (st_existing_configs r). sc_name c = name \<longrightarrow> Some (sc_id c) = ?src"
    using validate_ok [OF v] by auto
  show ?thesis
  proof (cases ?ex)
    case (Some c)
    then have "?src = Some (sc_id c)" by (auto split: option.splits if_splits dest: find_SomeD)
    then have "\<forall>c' \<in> set (st_existing_configs r). sc_name c' = name \<longrightarrow> sc_id c' = sc_id c"
      using nm by auto
    then show ?thesis
      using distinct_rename [OF assms(2)] p Some by (simp add: apply_save_def)
  next
    case None
    have "name \<notin> sc_name ` set (st_existing_configs r)"
    proof
      assume "name \<in> sc_name ` set (st_existing_configs r)"
      then obtain c where c: "c \<in> set (st_existing_configs r)" "sc_name c = name" by auto
      with nm have "?src = Some (sc_id c)" by auto
      with None c show False by (auto simp: find_None_iff split: if_splits)
    qed
    then show ?thesis using assms(2,3) p None by (simp add: apply_save_def wf_library_def)
  qed
qed

lemma plan_rename_wf:
  assumes "plan_rename r = Inr d" "wf_library (rn_existing_configs r)"
  shows "wf_library (apply_rename d (rn_existing_configs r))"
  using assms
  by (auto simp: plan_rename_def Let_def bindE_eq_Inr apply_rename_def list_ex_iff
      split: if_splits intro!: distinct_rename)

lemma plan_delete_loop_result:
  "plan_delete_loop r p cs = Some q \<Longrightarrow>
     dl_deleted_ids q = dl_deleted_ids p @ map sc_id
       (filter (\<lambda>c. sc_id c \<in> set (dr_requested_ids r) \<and> \<not> is_running_config r c) cs)
   \<and> dl_skipped_running q = dl_skipped_running p @ map sc_name
       (filter (\<lambda>c. sc_id c \<in> set (dr_requested_ids r) \<and> is_running_config r c) cs)
   \<and> dl_deleted_names q = dl_deleted_names p @ map sc_name
       (filter (\<lambda>c. sc_id c \<in> set (dr_requested_ids r) \<and> \<not> is_running_config r c) cs)
   \<and> dl_deleted_paths q = dl_deleted_paths p @ map sc_storage_path
       (filter (\<lambda>c. sc_id c \<in> set (dr_requested_ids r) \<and> \<not> is_running_config r c) cs)"
  by (induction r p cs rule: plan_delete_loop.induct)
    (auto split: if_splits delete_policy.splits)

lemma plan_delete_loop_None:
  "plan_delete_loop r p cs = None \<longleftrightarrow> dr_policy r = BlockRunning
     \<and> (\<exists>c \<in> set cs. sc_id c \<in> set (dr_requested_ids r) \<and> is_running_config r c)"
  by (induction r p cs rule: plan_delete_loop.induct) (auto split: delete_policy.splits)

lemma plan_delete_result:
  assumes "plan_delete r = Delete p"
  defines "chosen \<equiv> filter (\<lambda>c. sc_id c \<in> set (dr_requested_ids r) \<and> \<not> is_running_config r c)
      (dr_existing_configs r)"
  shows "dl_deleted_ids p = map sc_id chosen \<and> dl_deleted_names p = map sc_name chosen
       \<and> dl_deleted_paths p = map sc_storage_path chosen \<and> chosen \<noteq> []"
  using assms
  by (auto simp: plan_delete_def split: if_splits option.splits dest: plan_delete_loop_result)

lemma plan_delete_blocked_iff:
  "plan_delete r = BlockedRunning \<longleftrightarrow> dr_policy r = BlockRunning
     \<and> (\<exists>c \<in> set (dr_existing_configs r).
          sc_id c \<in> set (dr_requested_ids r) \<and> is_running_config r c)"
proof (cases "dr_requested_ids r = []")
  case False
  let ?p = "\<lparr>dl_deleted_ids = [], dl_deleted_names = [], dl_deleted_paths = [],
    dl_skipped_running = []\<rparr>"
  have "plan_delete r = BlockedRunning \<longleftrightarrow>
      plan_delete_loop r ?p (dr_existing_configs r) = None"
    using False by (auto simp: plan_delete_def split: option.splits)
  then show ?thesis by (simp only: plan_delete_loop_None)
qed (simp add: plan_delete_def)

lemma post_delete_selection_remaining:
  "plan_post_delete_selection r \<in> {SelKeep i, SelFallback i} \<Longrightarrow> i \<in> set (pd_remaining_ids r)"
  by (cases "pd_remaining_ids r")
    (auto simp: plan_post_delete_selection_def Let_def min_def simp del: nth_Cons_Suc
      split: if_splits option.splits intro!: nth_mem [of _ "_ # _", simplified])

subsection \<open>Export names\<close>

definition safe_stem :: "string \<Rightarrow> bool" where
  "safe_stem s = (s \<noteq> [] \<and> list_all (\<lambda>c. \<not> reserved_char c \<and> \<not> ascii_control c) s)"

lemma sanitize_loop_safe: "list_all (\<lambda>c. \<not> reserved_char c \<and> \<not> ascii_control c) (sanitize_loop s)"
  by (induction s rule: sanitize_loop.induct) (auto simp: reserved_char_def ascii_control_def)

lemma set_trim: "set (trim s) \<subseteq> set s"
proof -
  have *: "set (drop_lead f t) \<subseteq> set t" for f t
    using drop_lead_suffix [of t f] by (metis set_append sup_ge2)
  show ?thesis
    using * [of ws_len s] * [of ws_len_rev "rev (drop_lead ws_len s)"]
    by (simp add: trim_def trim_start_def trim_end_def)
qed

lemma sanitize_export_stem_safe: "safe_stem (sanitize_export_stem name)"
proof (cases "trim (sanitize_loop name) = []")
  case True
  then show ?thesis
    by (simp add: sanitize_export_stem_def safe_stem_def reserved_char_def ascii_control_def)
next
  case False
  have "list_all (\<lambda>c. \<not> reserved_char c \<and> \<not> ascii_control c) (trim (sanitize_loop name))"
    using sanitize_loop_safe [of name] set_trim [of "sanitize_loop name"]
    by (auto simp: list_all_iff)
  with False show ?thesis by (simp add: sanitize_export_stem_def safe_stem_def Let_def)
qed

end
