(* ===== verification/Service_Properties.thy ===== *)
theory Service_Properties
  imports Tunnel_Session Config_Library
begin

text \<open>
  The properties of the application services: the start/stop button and the configuration
  library.
\<close>

subsection \<open>The start/stop button\<close>

text \<open>Which click does what: a start exactly when nothing runs, nothing is in flight and the
  selected configuration is saved and clean; a stop exactly when the tunnel runs and nothing
  is in flight; a queued restart exactly when a running tunnel is busy and there is a target.\<close>

theorem toggle_decisions:
  "(decide_toggle i = StartSelected c d \<longleftrightarrow>
     \<not> ti_busy i \<and> \<not> ti_running i \<and> ti_draft_has_saved_source i \<and> \<not> ti_draft_is_dirty i
     \<and> ti_selected_config_id i = Some c \<and> ti_restart_delay i = d)
   \<and> (decide_toggle i = StopRunning \<longleftrightarrow> ti_running i \<and> \<not> ti_busy i)
   \<and> (decide_toggle i = QueuePendingStart c \<longleftrightarrow> ti_busy i \<and> ti_running i
     \<and> (ti_selected_config_id i = Some c
       \<or> (ti_selected_config_id i = None \<and> ti_running_config_id i = Some c)))"
  using decide_toggle_start_iff decide_toggle_stop_iff decide_toggle_queue by blast

subsection \<open>The configuration library\<close>

text \<open>C24: an import of fewer than 999 files into a library of names gives every imported
  configuration a name no other one has, counts every file once, and tracks the names in use.\<close>

theorem import_batch_names:
  assumes "finite names" "card names + length evs < 999" "run_import names tot evs = (b, out)"
  shows "distinct (map ic_name out) \<and> ic_name ` set out \<inter> names = {}
    \<and> ib_names_in_use b = names \<union> ic_name ` set out
    \<and> ib_processed b = length evs \<and> ib_imported b = length out
    \<and> ib_imported b + ib_failed b = length evs"
  using run_import_inv [OF assms(1,2) assms(3) [unfolded run_import_def]]
  by (auto simp: wf_batch_def)

theorem import_batch_names_witness:
  "\<exists>b out. run_import {''a''} 1 [ImportFail ''p'' ''m''] = (b, out) \<and> ib_failed b = 1"
proof -
  obtain b out where r: "run_import {''a''} 1 [ImportFail ''p'' ''m''] = (b, out)" by fastforce
  then have "out = []" by (auto simp: run_import_def record_import_failure_def Let_def)
  then show ?thesis using import_batch_names [OF _ _ r] r by auto
qed

text \<open>C25: a save plan applied to a library with distinct names and identifiers keeps both
  distinct, when the fresh identifier is new.\<close>

theorem save_keeps_library:
  assumes "plan_save_target r = Inr p" "wf_library (st_existing_configs r)"
    and "st_next_id r \<notin> sc_id ` set (st_existing_configs r)"
  shows "wf_library (apply_save p (st_existing_configs r))"
  using assms by (rule plan_save_wf)

theorem save_keeps_library_witness:
  "\<exists>p. plan_save_target \<lparr>st_requested_name = ''a'', st_text = ''t'', st_source_id = None,
       st_force_new = False, st_existing_configs = [], st_next_id = 1,
       st_next_storage_path = ''p''\<rparr> = Inr p \<and> wf_library (apply_save p [])"
proof -
  let ?r = "\<lparr>st_requested_name = ''a'', st_text = ''t'', st_source_id = None,
       st_force_new = False, st_existing_configs = [], st_next_id = 1,
       st_next_storage_path = ''p''\<rparr>"
  obtain p where "plan_save_target ?r = Inr p"
    by (simp add: plan_save_target_def validate_save_request_def eval_simps)
  then show ?thesis using save_keeps_library [of ?r p] by (auto simp: wf_library_def)
qed

text \<open>A deletion plan deletes exactly the requested configurations that do not run, with
  their names and files.\<close>

theorem delete_plan_exact:
  assumes "plan_delete r = Delete p"
  shows "dl_deleted_ids p = map sc_id (filter (\<lambda>c. sc_id c \<in> set (dr_requested_ids r)
            \<and> \<not> is_running_config r c) (dr_existing_configs r))
    \<and> dl_deleted_paths p = map sc_storage_path (filter (\<lambda>c. sc_id c \<in> set (dr_requested_ids r)
            \<and> \<not> is_running_config r c) (dr_existing_configs r))
    \<and> dl_deleted_ids p \<noteq> []"
  using plan_delete_result [OF assms] by auto

theorem delete_plan_exact_witness:
  "\<exists>p. plan_delete \<lparr>dr_requested_ids = [7], dr_existing_configs =
         [\<lparr>sc_id = 7, sc_name = ''a'', sc_storage_path = ''p'', sc_source = SourcePaste\<rparr>],
       dr_running_id = None, dr_running_name = None, dr_policy = BlockRunning\<rparr> = Delete p
     \<and> dl_deleted_paths p = [''p'']"
proof -
  let ?r = "\<lparr>dr_requested_ids = [7], dr_existing_configs =
         [\<lparr>sc_id = 7, sc_name = ''a'', sc_storage_path = ''p'', sc_source = SourcePaste\<rparr>],
       dr_running_id = None, dr_running_name = None, dr_policy = BlockRunning\<rparr>"
  obtain p where p: "plan_delete ?r = Delete p"
    by (simp add: plan_delete_def is_running_config_def)
  have "dl_deleted_paths p = [''p'']"
    using delete_plan_exact [OF p] by (simp add: is_running_config_def)
  with p show ?thesis by blast
qed

text \<open>The last-resort name of \<open>next_available_name\<close> can be taken: with 1000 names in use, the
  base, its 998 numbered variants and number 1001, it returns a name that is in use.\<close>

theorem fallback_name_taken:
  "next_available_name (insert (numbered base 1001) (tried_names base)) base
     \<in> insert (numbered base 1001) (tried_names base)"
  by (rule next_available_name_taken)

text \<open>An export file name is never empty and has no reserved and no ASCII control character.\<close>

theorem export_stem_safe: "safe_stem (sanitize_export_stem name)"
  by (rule sanitize_export_stem_safe)

end
