(* ===== verification/Ephemeral.thy ===== *)
theory Ephemeral
  imports Config_Mapping
begin

text \<open>
  \<open>backend/wg/ephemeral.rs\<close> and the inventory part of \<open>relay_inventory.rs\<close>: the checks
  before a quantum or DAITA upgrade, the negotiation with its retries, and the reply of the
  config service turned into a peer update (the non-Windows build, without the MTU guard).
  The RPC client, the KEMs, SHA-256, base64 and the Maybenot parser are crates outside the
  repository: parameters of the definitions, collected in \<open>eph_crates\<close>.
\<close>

datatype quantum_mode = QOff | QOn

datatype daita_mode = DOff | DOn

definition quantum_enabled :: "quantum_mode \<Rightarrow> bool" where
  "quantum_enabled m = (m = QOn)"

definition daita_enabled :: "daita_mode \<Rightarrow> bool" where
  "daita_enabled m = (m = DOn)"

datatype eph_failure_kind =
  EkUnsupportedConfig | EkRelayInventory | EkConnect | EkRpc | EkTimeout
| EkInvalidServerResponse | EkReconfigure

fun show_failure_kind :: "eph_failure_kind \<Rightarrow> string" where
  "show_failure_kind EkUnsupportedConfig = ''unsupported config''"
| "show_failure_kind EkRelayInventory = ''Mullvad relay inventory lookup failed''"
| "show_failure_kind EkConnect = ''config service unavailable''"
| "show_failure_kind EkRpc = ''config service rejected request''"
| "show_failure_kind EkTimeout = ''ephemeral peer negotiation timeout''"
| "show_failure_kind EkInvalidServerResponse = ''invalid config service response''"
| "show_failure_kind EkReconfigure = ''wireguard reconfigure failed''"

text \<open>The inner errors of other crates are carried by their text.\<close>

datatype eph_error =
  UnsupportedConfig string
| MissingRelayInventoryCache
| RelayInventoryCache string
| ConnectError string
| RpcError string
| TimeoutError
| MissingCiphertexts
| MissingDaitaResponse
| MlKemDecapsulationFailed
| InvalidCiphertextCount nat
| InvalidCiphertextLength string nat nat
| ParseMaybenotMachines string
| ReconfigureError string

fun eph_kind :: "eph_error \<Rightarrow> eph_failure_kind" where
  "eph_kind (UnsupportedConfig _) = EkUnsupportedConfig"
| "eph_kind MissingRelayInventoryCache = EkRelayInventory"
| "eph_kind (RelayInventoryCache _) = EkRelayInventory"
| "eph_kind (ConnectError _) = EkConnect"
| "eph_kind (RpcError _) = EkRpc"
| "eph_kind TimeoutError = EkTimeout"
| "eph_kind MissingCiphertexts = EkInvalidServerResponse"
| "eph_kind MissingDaitaResponse = EkInvalidServerResponse"
| "eph_kind MlKemDecapsulationFailed = EkInvalidServerResponse"
| "eph_kind (InvalidCiphertextCount _) = EkInvalidServerResponse"
| "eph_kind (InvalidCiphertextLength _ _ _) = EkInvalidServerResponse"
| "eph_kind (ParseMaybenotMachines _) = EkInvalidServerResponse"
| "eph_kind (ReconfigureError _) = EkReconfigure"

fun show_eph_error :: "eph_error \<Rightarrow> string" where
  "show_eph_error (UnsupportedConfig m) = m"
| "show_eph_error MissingRelayInventoryCache =
     ''no cached Mullvad relay inventory is available for DAITA validation; download DAITA '' @
     ''resources in Settings while connected through a regular Mullvad tunnel first''"
| "show_eph_error (RelayInventoryCache e) =
     ''failed to load cached Mullvad relay inventory: '' @ e"
| "show_eph_error (ConnectError e) = ''failed to connect to Mullvad config service: '' @ e"
| "show_eph_error (RpcError e) = ''Mullvad config service RPC failed: '' @ e"
| "show_eph_error TimeoutError =
     ''timed out while connecting to Mullvad config service or negotiating ephemeral peer''"
| "show_eph_error MissingCiphertexts = ''Mullvad config service returned no ciphertexts''"
| "show_eph_error MissingDaitaResponse =
     ''Mullvad config service returned no DAITA configuration''"
| "show_eph_error MlKemDecapsulationFailed =
     ''Mullvad config service returned an ML-KEM ciphertext that failed decapsulation''"
| "show_eph_error (InvalidCiphertextCount n) =
     ''expected 2 ciphertexts from Mullvad config service, got '' @ show_nat n"
| "show_eph_error (InvalidCiphertextLength a n m) =
     ''invalid ciphertext length for '' @ a @ '': expected '' @ show_nat m @ '' bytes, got ''
       @ show_nat n"
| "show_eph_error (ParseMaybenotMachines r) =
     ''failed to parse DAITA maybenot machines: '' @ r"
| "show_eph_error (ReconfigureError e) = ''failed to hot-reconfigure gotatun: '' @ e"

subsection \<open>Relay inventory\<close>

record relay_metadata =
  rm_hostname :: string
  rm_public_key :: string
  rm_daita :: bool

text \<open>One relay of the remote answer: the old flag and the presence of the new feature.\<close>

record relay_response =
  rx_hostname :: string
  rx_public_key :: string
  rx_daita :: bool
  rx_feature_daita :: bool

definition inventory_from_response :: "relay_response list \<Rightarrow> relay_metadata list" where
  "inventory_from_response rs =
     map (\<lambda>r. \<lparr>rm_hostname = to_ascii_lowercase (rx_hostname r),
               rm_public_key = rx_public_key r,
               rm_daita = (rx_feature_daita r \<or> rx_daita r)\<rparr>) rs"

definition find_by_public_key :: "relay_metadata list \<Rightarrow> string \<Rightarrow> relay_metadata option" where
  "find_by_public_key rels k = find (\<lambda>r. rm_public_key r = k) rels"

definition daita_relay_count :: "relay_metadata list \<Rightarrow> nat" where
  "daita_relay_count rels = length (filter rm_daita rels)"

record cached_inventory =
  ci_fetched_at :: u64
  ci_relays :: "relay_metadata list"

record inventory_status =
  is_cache_path :: string
  is_present :: bool
  is_relay_count :: nat
  is_daita_relay_count :: nat
  is_fetched_at :: "u64 option"

text \<open>\<open>read\<close> is the outcome of reading and decoding the cache file.\<close>

definition load_cached_inventory ::
  "(string + cached_inventory option) \<Rightarrow> string + relay_metadata list option" where
  "load_cached_inventory read = bindE read (\<lambda>c. Inr (map_option ci_relays c))"

definition inventory_status_snapshot ::
  "string \<Rightarrow> (string + cached_inventory option) \<Rightarrow> string + inventory_status" where
  "inventory_status_snapshot path read =
     bindE read (\<lambda>c.
       case c of
         None \<Rightarrow> Inr \<lparr>is_cache_path = path, is_present = False, is_relay_count = 0,
                     is_daita_relay_count = 0, is_fetched_at = None\<rparr>
       | Some ci \<Rightarrow> Inr \<lparr>is_cache_path = path, is_present = True,
                       is_relay_count = length (ci_relays ci),
                       is_daita_relay_count = daita_relay_count (ci_relays ci),
                       is_fetched_at = Some (ci_fetched_at ci)\<rparr>)"

subsection \<open>Checks on the configuration\<close>

definition is_mullvad_tunnel_address :: "interface_address \<Rightarrow> bool" where
  "is_mullvad_tunnel_address a =
     (case ia_addr a of
        V4 w \<Rightarrow> octet 0 w = 10 \<and> 64 \<le> octet 1 w \<and> octet 1 w < 128
      | V6 _ \<Rightarrow> False)"

definition ensure_supported_ephemeral_config :: "wireguard_config \<Rightarrow> eph_error + unit" where
  "ensure_supported_ephemeral_config c =
     (if length (wc_peers c) \<noteq> 1 then
        Inl (UnsupportedConfig ''ephemeral peer negotiation currently supports only Mullvad single-hop configs'')
      else if \<not> list_ex is_mullvad_tunnel_address (if_addresses (wc_interface c)) then
        Inl (UnsupportedConfig ''ephemeral peer negotiation currently supports only Mullvad tunnel addresses'')
      else Inr ())"

definition supported_ephemeral_peer :: "wireguard_config \<Rightarrow> eph_error + peer_config" where
  "supported_ephemeral_peer c =
     bindE (ensure_supported_ephemeral_config c) (\<lambda>_.
     ok_or (UnsupportedConfig ''ephemeral peer negotiation requires exactly one configured peer'')
       (case wc_peers c of [] \<Rightarrow> None | p # _ \<Rightarrow> Some p))"

text \<open>\<open>enc\<close> is \<open>STANDARD.encode\<close> of the base64 crate.\<close>

definition validate_daita_config_against_inventory ::
  "(u8 list \<Rightarrow> string) \<Rightarrow> wireguard_config \<Rightarrow> relay_metadata list \<Rightarrow> eph_error + unit" where
  "validate_daita_config_against_inventory enc c rels =
     bindE (supported_ephemeral_peer c) (\<lambda>p.
     bindE (ok_or (UnsupportedConfig ''DAITA startup validation requires a configured Mullvad relay endpoint'')
       (pc_endpoint p)) (\<lambda>_.
     bindE (ok_or (UnsupportedConfig ''DAITA startup validation could not match the selected peer public key to the current Mullvad relay inventory'')
       (find_by_public_key rels (enc (as_bytes (pc_public_key p))))) (\<lambda>relay.
     if \<not> rm_daita relay
     then Inl (UnsupportedConfig ''selected Mullvad relay does not advertise DAITA capability'')
     else Inr ())))"

definition validate_daita_config ::
  "(u8 list \<Rightarrow> string) \<Rightarrow> (string + cached_inventory option) \<Rightarrow> wireguard_config
   \<Rightarrow> eph_error + unit" where
  "validate_daita_config enc read c =
     bindE (ensure_supported_ephemeral_config c) (\<lambda>_.
     bindE (map_err RelayInventoryCache (load_cached_inventory read)) (\<lambda>opt.
     bindE (ok_or MissingRelayInventoryCache opt) (\<lambda>rels.
     validate_daita_config_against_inventory enc c rels)))"

subsection \<open>Negotiation\<close>

datatype machine_error = MachineReason string | PaddingLimit | BlockingLimit

record 'm eph_crates =
  ek_mlkem_length :: nat
  ek_mlkem_decapsulate :: "u8 list \<Rightarrow> u8 list option"
  ek_hqc_length :: nat
  ek_hqc_decapsulate :: "u8 list \<Rightarrow> u8 list"
  ek_sha256 :: "u8 list \<Rightarrow> u8 list"
  ek_parse_machine :: "string \<Rightarrow> machine_error + 'm"

record daita_response =
  dx_client_machines :: "string list"
  dx_max_padding_frac :: u64
  dx_max_blocking_frac :: u64

record 'm daita_settings =
  da_machines :: "'m list"
  da_max_decoy_frac :: u64
  da_max_delay_frac :: u64

record register_response =
  rg_post_quantum :: "u8 list list option"
  rg_daita :: "daita_response option"

record 'm negotiation =
  ng_psk :: "u8 list option"
  ng_daita :: "'m daita_settings option"

text \<open>What one attempt meets: the timer, the connection and the RPC.\<close>

datatype attempt = TimedOut | Attempt "string + unit" "string + register_response"

definition mlkem_decapsulate :: "'m eph_crates \<Rightarrow> u8 list \<Rightarrow> eph_error + u8 list" where
  "mlkem_decapsulate k ct =
     (if length ct \<noteq> ek_mlkem_length k
      then Inl (InvalidCiphertextLength ''ML-KEM-1024'' (length ct) (ek_mlkem_length k))
      else ok_or MlKemDecapsulationFailed (ek_mlkem_decapsulate k ct))"

definition hqc_decapsulate :: "'m eph_crates \<Rightarrow> u8 list \<Rightarrow> eph_error + u8 list" where
  "hqc_decapsulate k ct =
     (if length ct \<noteq> ek_hqc_length k
      then Inl (InvalidCiphertextLength ''HQC-256'' (length ct) (ek_hqc_length k))
      else Inr (ek_sha256 k (ek_hqc_decapsulate k ct)))"

definition xor_assign :: "u8 list \<Rightarrow> u8 list \<Rightarrow> u8 list" where
  "xor_assign dst src = map2 (XOR) dst src @ drop (length src) dst"

definition machine_reason :: "machine_error \<Rightarrow> string" where
  "machine_reason e = (case e of MachineReason r \<Rightarrow> r | _ \<Rightarrow> ''unknown reason'')"

definition parse_daita_response ::
  "'m eph_crates \<Rightarrow> daita_response \<Rightarrow> eph_error + 'm daita_settings" where
  "parse_daita_response k r =
     bindE (map_err (\<lambda>e. ParseMaybenotMachines (machine_reason e))
             (mapE (ek_parse_machine k) (dx_client_machines r))) (\<lambda>ms.
     Inr \<lparr>da_machines = ms, da_max_decoy_frac = dx_max_padding_frac r,
          da_max_delay_frac = dx_max_blocking_frac r\<rparr>)"

definition derive_psk :: "'m eph_crates \<Rightarrow> u8 list list \<Rightarrow> eph_error + u8 list" where
  "derive_psk k cts =
     (case cts of
        [ml, hqc] \<Rightarrow>
          bindE (mlkem_decapsulate k ml) (\<lambda>s1.
          let psk1 = xor_assign (replicate 32 0) s1 in
          bindE (hqc_decapsulate k hqc) (\<lambda>s2. Inr (xor_assign psk1 s2)))
      | _ \<Rightarrow> Inl (InvalidCiphertextCount (length cts)))"

definition negotiate_ephemeral_peer_inner ::
  "'m eph_crates \<Rightarrow> bool \<Rightarrow> bool \<Rightarrow> string + unit \<Rightarrow> string + register_response
   \<Rightarrow> eph_error + 'm negotiation" where
  "negotiate_ephemeral_peer_inner k pq daita conn rpc =
     bindE (map_err ConnectError conn) (\<lambda>_.
     bindE (map_err RpcError rpc) (\<lambda>resp.
     bindE (if pq then
              bindE (ok_or MissingCiphertexts (rg_post_quantum resp)) (\<lambda>cts.
              bindE (derive_psk k cts) (\<lambda>psk. Inr (Some psk)))
            else Inr None) (\<lambda>psk.
     bindE (case rg_daita resp of
              None \<Rightarrow> Inr None
            | Some d \<Rightarrow> bindE (parse_daita_response k d) (\<lambda>s. Inr (Some s))) (\<lambda>ds.
     if ds = None \<and> daita then Inl MissingDaitaResponse
     else Inr \<lparr>ng_psk = psk, ng_daita = ds\<rparr>))))"

definition NEGOTIATION_RETRY_ATTEMPTS :: nat where
  "NEGOTIATION_RETRY_ATTEMPTS = 3"

text \<open>Seconds; the power saturates at \<open>u32::MAX\<close> and the product fits a \<open>Duration\<close>.\<close>

definition negotiation_timeout_for_attempt :: "nat \<Rightarrow> nat" where
  "negotiation_timeout_for_attempt n = min 48 (8 * min (2 ^ n) 4294967295)"

text \<open>The retry loop over \<open>0..=3\<close>; \<open>world i secs\<close> is what attempt \<open>i\<close> meets in its window.\<close>

fun negotiate_loop ::
  "'m eph_crates \<Rightarrow> bool \<Rightarrow> bool \<Rightarrow> (nat \<Rightarrow> nat \<Rightarrow> attempt) \<Rightarrow> nat list
   \<Rightarrow> eph_error + 'm negotiation" where
  "negotiate_loop k pq daita world [] = Inl TimeoutError"
| "negotiate_loop k pq daita world (i # rest) =
     (case world i (negotiation_timeout_for_attempt i) of
        Attempt conn rpc \<Rightarrow> negotiate_ephemeral_peer_inner k pq daita conn rpc
      | TimedOut \<Rightarrow>
          if i < NEGOTIATION_RETRY_ATTEMPTS then negotiate_loop k pq daita world rest
          else Inl TimeoutError)"

definition negotiate_ephemeral_peer ::
  "'m eph_crates \<Rightarrow> bool \<Rightarrow> bool \<Rightarrow> (nat \<Rightarrow> nat \<Rightarrow> attempt) \<Rightarrow> eph_error + 'm negotiation" where
  "negotiate_ephemeral_peer k pq daita world =
     negotiate_loop k pq daita world [0..<Suc NEGOTIATION_RETRY_ATTEMPTS]"

record ('sk, 'pk, 'net, 'm) eph_update =
  eu_private_key :: 'sk
  eu_peer :: "('pk, 'net) device_peer"
  eu_daita :: "'m daita_settings option"
  eu_quantum_applied :: bool
  eu_daita_applied :: bool

record upgrade_outcome =
  uo_quantum_applied :: bool
  uo_daita_applied :: bool

definition update_outcome :: "('sk, 'pk, 'net, 'm) eph_update \<Rightarrow> upgrade_outcome" where
  "update_outcome u =
     \<lparr>uo_quantum_applied = eu_quantum_applied u, uo_daita_applied = eu_daita_applied u\<rparr>"

text \<open>\<open>fresh\<close> is the private key drawn from the operating system's generator.\<close>

definition negotiate_tunnel_upgrade ::
  "('sk, 'pk, 'net) device_crates \<Rightarrow> 'm eph_crates \<Rightarrow> quantum_mode \<Rightarrow> daita_mode
   \<Rightarrow> wireguard_config \<Rightarrow> ('pk, 'net) device_peer \<Rightarrow> 'sk \<Rightarrow> (nat \<Rightarrow> nat \<Rightarrow> attempt)
   \<Rightarrow> eph_error + ('sk, 'pk, 'net, 'm) eph_update" where
  "negotiate_tunnel_upgrade cr k q d c base fresh world =
     (if \<not> quantum_enabled q \<and> \<not> daita_enabled d then
        Inr \<lparr>eu_private_key = static_secret_from cr (as_bytes (if_private_key (wc_interface c))),
             eu_peer = base, eu_daita = None, eu_quantum_applied = False,
             eu_daita_applied = False\<rparr>
      else
        bindE (ensure_supported_ephemeral_config c) (\<lambda>_.
        bindE (negotiate_ephemeral_peer k (quantum_enabled q) (daita_enabled d) world) (\<lambda>n.
        Inr \<lparr>eu_private_key = fresh,
             eu_peer = (case ng_psk n of Some psk \<Rightarrow> base\<lparr>dp_preshared_key := Some psk\<rparr>
                        | None \<Rightarrow> base),
             eu_daita = ng_daita n,
             eu_quantum_applied = quantum_enabled q,
             eu_daita_applied = daita_enabled d\<rparr>)))"

subsection \<open>Retries\<close>

lemma negotiation_windows:
  "map negotiation_timeout_for_attempt [0..<Suc NEGOTIATION_RETRY_ATTEMPTS] = [8, 16, 32, 48]"
  by (simp add: negotiation_timeout_for_attempt_def NEGOTIATION_RETRY_ATTEMPTS_def upt_rec)

definition timed_out :: "(nat \<Rightarrow> nat \<Rightarrow> attempt) \<Rightarrow> nat \<Rightarrow> bool" where
  "timed_out world i = (world i (negotiation_timeout_for_attempt i) = TimedOut)"

lemma negotiate_ephemeral_peer_first:
  "negotiate_ephemeral_peer k pq daita world =
     (case find (\<lambda>i. \<not> timed_out world i) [0..<4] of
        None \<Rightarrow> Inl TimeoutError
      | Some i \<Rightarrow>
          (case world i (negotiation_timeout_for_attempt i) of
             Attempt conn rpc \<Rightarrow> negotiate_ephemeral_peer_inner k pq daita conn rpc
           | TimedOut \<Rightarrow> Inl TimeoutError))"
  by (simp add: negotiate_ephemeral_peer_def NEGOTIATION_RETRY_ATTEMPTS_def timed_out_def
      upt_rec [of _ 4] split: attempt.split)

lemma derive_psk_eq:
  "derive_psk k cts = Inr psk \<Longrightarrow> \<exists>ml hqc s1. cts = [ml, hqc] \<and>
     length ml = ek_mlkem_length k \<and> length hqc = ek_hqc_length k \<and>
     ek_mlkem_decapsulate k ml = Some s1 \<and>
     psk = xor_assign (xor_assign (replicate 32 0) s1) (ek_sha256 k (ek_hqc_decapsulate k hqc))"
  by (auto simp: derive_psk_def mlkem_decapsulate_def hqc_decapsulate_def Let_def bindE_eq_Inr
      split: list.splits if_splits)

lemma xor_assign_nth:
  "length src = length dst \<Longrightarrow> i < length dst \<Longrightarrow> xor_assign dst src ! i = dst ! i XOR src ! i"
  by (simp add: xor_assign_def)

lemma length_xor_assign [simp]: "length src \<le> length dst \<Longrightarrow> length (xor_assign dst src) = length dst"
  by (simp add: xor_assign_def)

lemma negotiate_inner_ok:
  "negotiate_ephemeral_peer_inner k pq daita conn rpc = Inr n \<Longrightarrow>
     (pq \<longleftrightarrow> ng_psk n \<noteq> None) \<and> (daita \<longrightarrow> ng_daita n \<noteq> None)"
  by (auto simp: negotiate_ephemeral_peer_inner_def bindE_eq_Inr split: if_splits)

lemma negotiate_ok:
  "negotiate_ephemeral_peer k pq daita world = Inr n \<Longrightarrow>
     (pq \<longleftrightarrow> ng_psk n \<noteq> None) \<and> (daita \<longrightarrow> ng_daita n \<noteq> None)"
  by (auto simp: negotiate_ephemeral_peer_first split: option.splits attempt.splits
      dest: negotiate_inner_ok)

text \<open>An update that reports a protection carries it.\<close>

lemma upgrade_truthful:
  assumes "negotiate_tunnel_upgrade cr k q d c base fresh world = Inr u"
  shows "(uo_quantum_applied (update_outcome u) \<longleftrightarrow> quantum_enabled q)
       \<and> (uo_daita_applied (update_outcome u) \<longleftrightarrow> daita_enabled d)
       \<and> (quantum_enabled q \<longrightarrow> dp_preshared_key (eu_peer u) \<noteq> None \<and> eu_private_key u = fresh)
       \<and> (daita_enabled d \<longrightarrow> eu_daita u \<noteq> None \<and> eu_private_key u = fresh)
       \<and> dp_public_key (eu_peer u) = dp_public_key base
       \<and> dp_endpoint (eu_peer u) = dp_endpoint base
       \<and> dp_allowed_ips (eu_peer u) = dp_allowed_ips base"
proof (cases "quantum_enabled q \<or> daita_enabled d")
  case True
  then obtain n where n: "negotiate_ephemeral_peer k (quantum_enabled q) (daita_enabled d) world
      = Inr n"
    and u: "u = \<lparr>eu_private_key = fresh,
        eu_peer = (case ng_psk n of Some psk \<Rightarrow> base\<lparr>dp_preshared_key := Some psk\<rparr> | None \<Rightarrow> base),
        eu_daita = ng_daita n, eu_quantum_applied = quantum_enabled q,
        eu_daita_applied = daita_enabled d\<rparr>"
    using assms by (auto simp: negotiate_tunnel_upgrade_def bindE_eq_Inr)
  show ?thesis
    using negotiate_ok [OF n] by (cases "ng_psk n") (simp_all add: u update_outcome_def)
next
  case False
  then show ?thesis using assms by (auto simp: negotiate_tunnel_upgrade_def update_outcome_def)
qed

lemma upgrade_requires_support:
  assumes "negotiate_tunnel_upgrade cr k q d c base fresh world = Inr u"
    and "quantum_enabled q \<or> daita_enabled d"
  shows "length (wc_peers c) = 1 \<and> list_ex is_mullvad_tunnel_address (if_addresses (wc_interface c))"
  using assms
  by (auto simp: negotiate_tunnel_upgrade_def ensure_supported_ephemeral_config_def bindE_eq_Inr
      split: if_splits)

lemma validate_daita_iff:
  "validate_daita_config enc read c = Inr () \<longleftrightarrow>
     (\<exists>p ci r. wc_peers c = [p] \<and> pc_endpoint p \<noteq> None
        \<and> list_ex is_mullvad_tunnel_address (if_addresses (wc_interface c))
        \<and> read = Inr (Some ci)
        \<and> find_by_public_key (ci_relays ci) (enc (as_bytes (pc_public_key p))) = Some r
        \<and> rm_daita r)"
proof (cases "\<exists>p. wc_peers c = [p]")
  case False
  then have "length (wc_peers c) \<noteq> 1" by (auto simp: length_Suc_conv)
  with False show ?thesis
    by (simp add: validate_daita_config_def ensure_supported_ephemeral_config_def)
next
  case True
  then obtain p where p: "wc_peers c = [p]" by blast
  show ?thesis
    by (cases "list_ex is_mullvad_tunnel_address (if_addresses (wc_interface c))")
      (auto simp: p validate_daita_config_def ensure_supported_ephemeral_config_def
        load_cached_inventory_def validate_daita_config_against_inventory_def
        supported_ephemeral_peer_def bindE_eq_Inr)
qed

lemma validate_daita_kinds:
  "validate_daita_config enc read c = Inl e \<Longrightarrow>
     eph_kind e \<in> {EkUnsupportedConfig, EkRelayInventory}"
  by (auto simp: validate_daita_config_def ensure_supported_ephemeral_config_def
      load_cached_inventory_def validate_daita_config_against_inventory_def
      supported_ephemeral_peer_def bindE_eq_Inl map_err_eq_Inl ok_or_def
      split: if_splits option.splits)

end
