(* ===== verification/Kernel_Backend.thy ===== *)
theory Kernel_Backend
  imports Ephemeral
begin

text \<open>
  \<open>backend/wg/linux_kernel.rs\<close>: creation, configuration and deletion of the kernel
  WireGuard interface and the journal that lets a later run repair a stale one. The netlink
  sockets, the file system and the JSON codec are the operations of \<open>kernel_sys\<close>, a
  parameter over an arbitrary world; what the code relies on of them is the locale
  \<open>kernel_sys_laws\<close>.
\<close>

type_synonym kernel_settings = "(u8 list, u8 list, allowed_ip) device_settings"
type_synonym kernel_peer = "(u8 list, allowed_ip) device_peer"

subsection \<open>Netlink data\<close>

datatype info_kind = KindWireguard | KindOther string

datatype link_info = InfoKind info_kind | InfoOther

datatype link_attribute = AttrLinkInfo "link_info list" | AttrOther

record link =
  lk_index :: nat
  lk_attributes :: "link_attribute list"

text \<open>An error of the route socket: the errno of a netlink error message, if it is one
  with a code, and its text.\<close>

record route_error =
  rte_code :: "int option"
  rte_text :: string

datatype wg_error = WgOpenFailed string | WgRequestFailed string

datatype wg_address_family = WgIpv4 | WgIpv6

datatype wg_peer_attribute =
  WpPublicKey "u8 list"
| WpFlags u32
| WpAllowedIps "(wg_address_family \<times> ip_addr \<times> u8) list"
| WpPresharedKey "u8 list"
| WpEndpoint socket_addr
| WpPersistentKeepalive u16

datatype wg_attribute =
  WaIfName string
| WaPrivateKey "u8 list"
| WaFlags u32
| WaListenPort u16
| WaFwmark u32
| WaPeers "wg_peer_attribute list list"

datatype kernel_error =
  Unavailable string | Operation string | NameConflict string

definition is_unavailable :: "kernel_error \<Rightarrow> bool" where
  "is_unavailable e = (case e of Unavailable _ \<Rightarrow> True | _ \<Rightarrow> False)"

fun show_kernel_error :: "kernel_error \<Rightarrow> string" where
  "show_kernel_error (Unavailable m) = m"
| "show_kernel_error (Operation m) = m"
| "show_kernel_error (NameConflict m) = m"

subsection \<open>The journal\<close>

datatype kernel_phase = CreatingLink | LinkCreated | RunningPhase

record kernel_journal =
  kj_tun_name :: string
  kj_phase :: kernel_phase

datatype read_error = ReadNotFound | ReadFailed string

datatype remove_error = RemoveNotFound | RemoveFailed string

text \<open>\<open>ks_set_device\<close> opens the WireGuard socket, sends one \<open>SetDevice\<close> and reads the
  first reply.\<close>

record 'w kernel_sys =
  ks_open_route :: "('w, string, unit) op"
  ks_get_link :: "string \<Rightarrow> ('w, route_error, link option) op"
  ks_add_wireguard :: "string \<Rightarrow> ('w, route_error, unit) op"
  ks_del_link :: "nat \<Rightarrow> ('w, route_error, unit) op"
  ks_set_device :: "wg_attribute list \<Rightarrow> ('w, wg_error, unit) op"
  ks_create_dir :: "('w, string, unit) op"
  ks_write_atomic :: "string \<Rightarrow> ('w, string, unit) op"
  ks_read_journal :: "('w, read_error, string) op"
  ks_remove_journal :: "('w, remove_error, unit) op"
  ks_rename_corrupt :: "('w, string, unit) op"
  ks_encode :: "kernel_journal \<Rightarrow> string + string"
  ks_decode :: "string \<Rightarrow> string + kernel_journal"

definition write_kernel_backend_journal ::
  "'w kernel_sys \<Rightarrow> string \<Rightarrow> kernel_phase \<Rightarrow> ('w, kernel_error, unit) op" where
  "write_kernel_backend_journal sys name phase =
     bindS (map_errS (\<lambda>e. Operation (''failed to create kernel backend journal dir: '' @ e))
              (ks_create_dir sys)) (\<lambda>_.
     bindS (map_errS (\<lambda>e. Operation (''failed to encode kernel backend journal: '' @ e))
              (liftS (ks_encode sys \<lparr>kj_tun_name = name, kj_phase = phase\<rparr>))) (\<lambda>json.
     map_errS (\<lambda>e. Operation (''failed to write kernel backend journal: '' @ e))
       (ks_write_atomic sys json)))"

definition quarantine_kernel_backend_journal :: "'w kernel_sys \<Rightarrow> ('w, kernel_error, unit) op" where
  "quarantine_kernel_backend_journal sys =
     map_errS (\<lambda>e. Operation (''failed to quarantine kernel backend journal: '' @ e))
       (ks_rename_corrupt sys)"

definition load_kernel_backend_journal ::
  "'w kernel_sys \<Rightarrow> ('w, kernel_error, kernel_journal option) op" where
  "load_kernel_backend_journal sys =
     withS (ks_read_journal sys) (\<lambda>r. case r of
       Inl ReadNotFound \<Rightarrow> returnS None
     | Inl (ReadFailed e) \<Rightarrow> throwS (Operation (''failed to read kernel backend journal: '' @ e))
     | Inr text \<Rightarrow>
         (case ks_decode sys text of
            Inr j \<Rightarrow> returnS (Some j)
          | Inl _ \<Rightarrow> bindS (quarantine_kernel_backend_journal sys) (\<lambda>_. returnS None)))"

definition clear_kernel_backend_journal :: "'w kernel_sys \<Rightarrow> ('w, kernel_error, unit) op" where
  "clear_kernel_backend_journal sys =
     withS (ks_remove_journal sys) (\<lambda>r. case r of
       Inr _ \<Rightarrow> returnS ()
     | Inl RemoveNotFound \<Rightarrow> returnS ()
     | Inl (RemoveFailed e) \<Rightarrow>
         throwS (Operation (''failed to clear kernel backend journal: '' @ e)))"

subsection \<open>Errors and links\<close>

definition ENODEV :: int where "ENODEV = 19"

definition EAFNOSUPPORT :: int where "EAFNOSUPPORT = 97"

definition EOPNOTSUPP :: int where "EOPNOTSUPP = 95"

definition route_error_errno :: "route_error \<Rightarrow> int option" where
  "route_error_errno e = map_option abs (rte_code e)"

definition is_route_link_not_found_error :: "route_error \<Rightarrow> bool" where
  "is_route_link_not_found_error e = (route_error_errno e = Some ENODEV)"

definition is_unavailable_route_error :: "route_error \<Rightarrow> bool" where
  "is_unavailable_route_error e =
     (case route_error_errno e of
        None \<Rightarrow> False
      | Some n \<Rightarrow> n = EOPNOTSUPP \<or> n = ENODEV \<or> n = EAFNOSUPPORT)"

definition is_kernel_link_unavailable_message :: "string \<Rightarrow> bool" where
  "is_kernel_link_unavailable_message message =
     (let m = to_ascii_lowercase message in
      contains_str ''operation not supported'' m \<or> contains_str ''no such device'' m
      \<or> contains_str ''address family not supported'' m \<or> contains_str ''family not found'' m
      \<or> contains_str ''wireguard generic netlink'' m)"

definition is_wireguard_family_unavailable_message :: "string \<Rightarrow> bool" where
  "is_wireguard_family_unavailable_message message =
     (let m = to_ascii_lowercase message in
      contains_str ''family not found'' m \<or> contains_str ''wireguard generic netlink'' m)"

definition map_route_error :: "route_error \<Rightarrow> kernel_error" where
  "map_route_error e =
     (if is_unavailable_route_error e \<or> is_kernel_link_unavailable_message (rte_text e)
      then Unavailable (''Linux kernel WireGuard unavailable while creating interface: '' @ rte_text e)
      else Operation (''kernel WireGuard netlink error: '' @ rte_text e))"

fun find_info_kind :: "link_info list \<Rightarrow> info_kind option" where
  "find_info_kind [] = None"
| "find_info_kind (i # is) = (case i of InfoKind k \<Rightarrow> Some k | InfoOther \<Rightarrow> find_info_kind is)"

fun find_link_kind :: "link_attribute list \<Rightarrow> info_kind option" where
  "find_link_kind [] = None"
| "find_link_kind (a # as) =
     (case a of
        AttrLinkInfo infos \<Rightarrow>
          (case find_info_kind infos of Some k \<Rightarrow> Some k | None \<Rightarrow> find_link_kind as)
      | AttrOther \<Rightarrow> find_link_kind as)"

definition is_wireguard_link :: "link \<Rightarrow> bool" where
  "is_wireguard_link l = (find_link_kind (lk_attributes l) = Some KindWireguard)"

definition route_connection :: "'w kernel_sys \<Rightarrow> ('w, kernel_error, unit) op" where
  "route_connection sys =
     map_errS (\<lambda>e. Operation (''failed to open route netlink: '' @ e)) (ks_open_route sys)"

definition find_link_by_name ::
  "'w kernel_sys \<Rightarrow> string \<Rightarrow> ('w, kernel_error, link option) op" where
  "find_link_by_name sys name =
     withS (ks_get_link sys name) (\<lambda>r. case r of
       Inr l \<Rightarrow> returnS l
     | Inl e \<Rightarrow> if is_route_link_not_found_error e then returnS None
              else throwS (map_route_error e))"

subsection \<open>Operations\<close>

definition delete_kernel_device :: "'w kernel_sys \<Rightarrow> string \<Rightarrow> ('w, kernel_error, unit) op" where
  "delete_kernel_device sys name =
     bindS (route_connection sys) (\<lambda>_.
     bindS (find_link_by_name sys name) (\<lambda>l.
     case l of
       None \<Rightarrow> returnS ()
     | Some lnk \<Rightarrow>
         if \<not> is_wireguard_link lnk
         then throwS (Operation (''refusing to delete non-WireGuard link '' @ [CHR 0x27] @ name
                @ [CHR 0x27] @ '' during kernel backend cleanup''))
         else map_errS map_route_error (ks_del_link sys (lk_index lnk))))"

definition create_wireguard_link :: "'w kernel_sys \<Rightarrow> string \<Rightarrow> ('w, kernel_error, unit) op" where
  "create_wireguard_link sys name =
     bindS (route_connection sys) (\<lambda>_.
     bindS (find_link_by_name sys name) (\<lambda>l.
     if l \<noteq> None
     then throwS (NameConflict (''kernel WireGuard interface name conflict: link '' @ [CHR 0x27] @ name
            @ [CHR 0x27] @ '' already exists''))
     else map_errS map_route_error (ks_add_wireguard sys name)))"

definition set_wireguard_config ::
  "'w kernel_sys \<Rightarrow> wg_attribute list \<Rightarrow> string \<Rightarrow> ('w, kernel_error, unit) op" where
  "set_wireguard_config sys attrs context =
     map_errS (\<lambda>e. case e of
         WgOpenFailed m \<Rightarrow> Unavailable (''failed to open wireguard netlink: '' @ m)
       | WgRequestFailed m \<Rightarrow>
           if is_wireguard_family_unavailable_message m
           then Unavailable (''kernel WireGuard generic netlink unavailable: '' @ m)
           else Operation (context @ '': '' @ m))
       (ks_set_device sys attrs)"

definition kernel_peer_from_device_peer :: "kernel_peer \<Rightarrow> wg_peer_attribute list" where
  "kernel_peer_from_device_peer p =
     [WpPublicKey (dp_public_key p), WpFlags 2,
      WpAllowedIps (map (\<lambda>n. (if is_ipv4 (addr n) then WgIpv4 else WgIpv6, addr n, cidr n))
        (dp_allowed_ips p))]
     @ (case dp_preshared_key p of Some k \<Rightarrow> [WpPresharedKey k] | None \<Rightarrow> [])
     @ (case dp_endpoint p of Some e \<Rightarrow> [WpEndpoint e] | None \<Rightarrow> [])
     @ (case dp_keepalive p of Some k \<Rightarrow> [WpPersistentKeepalive k] | None \<Rightarrow> [])"

definition device_attributes :: "string \<Rightarrow> kernel_settings \<Rightarrow> wg_attribute list" where
  "device_attributes name s =
     [WaIfName name, WaPrivateKey (ds_private_key s), WaFlags 1]
     @ (case ds_listen_port s of Some p \<Rightarrow> [WaListenPort p] | None \<Rightarrow> [])
     @ (case ds_fwmark s of Some m \<Rightarrow> [WaFwmark m] | None \<Rightarrow> [])
     @ [WaPeers (map kernel_peer_from_device_peer (ds_peers s))]"

definition configure_wireguard_device ::
  "'w kernel_sys \<Rightarrow> string \<Rightarrow> kernel_settings \<Rightarrow> ('w, kernel_error, unit) op" where
  "configure_wireguard_device sys name s =
     set_wireguard_config sys (device_attributes name s) ''failed to configure kernel WireGuard''"

definition apply_ephemeral_update ::
  "'w kernel_sys \<Rightarrow> string \<Rightarrow> (u8 list, u8 list, allowed_ip, 'm) eph_update
   \<Rightarrow> ('w, kernel_error, unit) op" where
  "apply_ephemeral_update sys name u =
     set_wireguard_config sys
       [WaIfName name, WaPrivateKey (eu_private_key u), WaFlags 1,
        WaPeers [kernel_peer_from_device_peer (eu_peer u)]]
       ''failed to apply kernel WireGuard ephemeral update''"

definition cleanup_journaled_link_before_create ::
  "'w kernel_sys \<Rightarrow> string \<Rightarrow> ('w, kernel_error, unit) op" where
  "cleanup_journaled_link_before_create sys name =
     bindS (load_kernel_backend_journal sys) (\<lambda>j.
     case j of
       None \<Rightarrow> returnS ()
     | Some jn \<Rightarrow>
         if kj_tun_name jn \<noteq> name then returnS ()
         else bindS (delete_kernel_device sys name) (\<lambda>_. clear_kernel_backend_journal sys))"

text \<open>\<open>if delete(..).is_ok() { let _ = clear(); }\<close>, then the pending result.\<close>

definition discard_link ::
  "'w kernel_sys \<Rightarrow> string \<Rightarrow> ('w, 'e, 'a) op \<Rightarrow> ('w, 'e, 'a) op" where
  "discard_link sys name after =
     withS (delete_kernel_device sys name) (\<lambda>r.
       if is_ok r then withS (clear_kernel_backend_journal sys) (\<lambda>_. after) else after)"

definition start_kernel_device ::
  "'w kernel_sys \<Rightarrow> string \<Rightarrow> kernel_settings \<Rightarrow> ('w, kernel_error, string) op" where
  "start_kernel_device sys name s =
     bindS (cleanup_journaled_link_before_create sys name) (\<lambda>_.
     bindS (write_kernel_backend_journal sys name CreatingLink) (\<lambda>_.
     withS (create_wireguard_link sys name) (\<lambda>r. case r of
       Inl e \<Rightarrow> withS (clear_kernel_backend_journal sys) (\<lambda>_. throwS e)
     | Inr _ \<Rightarrow>
         bindS (write_kernel_backend_journal sys name LinkCreated) (\<lambda>_.
         withS (configure_wireguard_device sys name s) (\<lambda>r. case r of
           Inl e \<Rightarrow> discard_link sys name (throwS e)
         | Inr _ \<Rightarrow> returnS name)))))"

definition mark_kernel_device_running ::
  "'w kernel_sys \<Rightarrow> string \<Rightarrow> ('w, kernel_error, unit) op" where
  "mark_kernel_device_running sys name = write_kernel_backend_journal sys name RunningPhase"

definition repair_stale_kernel_device_from_journal ::
  "'w kernel_sys \<Rightarrow> ('w, kernel_error, unit) op" where
  "repair_stale_kernel_device_from_journal sys =
     bindS (load_kernel_backend_journal sys) (\<lambda>j.
     case j of
       None \<Rightarrow> returnS ()
     | Some jn \<Rightarrow> bindS (delete_kernel_device sys (kj_tun_name jn)) (\<lambda>_.
                 clear_kernel_backend_journal sys))"

lemmas kernel_defs =
  write_kernel_backend_journal_def quarantine_kernel_backend_journal_def
  load_kernel_backend_journal_def clear_kernel_backend_journal_def route_connection_def
  find_link_by_name_def delete_kernel_device_def create_wireguard_link_def
  set_wireguard_config_def configure_wireguard_device_def apply_ephemeral_update_def
  cleanup_journaled_link_before_create_def discard_link_def start_kernel_device_def
  mark_kernel_device_running_def repair_stale_kernel_device_from_journal_def

end
