(* ===== verification/Kernel_Laws.thy ===== *)
theory Kernel_Laws
  imports Kernel_Backend
begin

text \<open>
  What the kernel backend relies on of the operating system, as a locale, and what it
  guarantees on top of it: links of another kind are never touched, a started device is in
  the journal, a failed start leaves nothing that the journal does not name, and a repair
  removes what the journal names. The locale is interpreted on a simulated system that may
  fail any call.
\<close>

text \<open>The interface the journal file names, and that links of another kind are still there.\<close>

definition journaled_name ::
  "'w kernel_sys \<Rightarrow> ('w \<Rightarrow> string option) \<Rightarrow> 'w \<Rightarrow> string option" where
  "journaled_name sys jfile w = (case jfile w of None \<Rightarrow> None | Some c \<Rightarrow>
     (case ks_decode sys c of Inr j \<Rightarrow> Some (kj_tun_name j) | Inl _ \<Rightarrow> None))"

definition foreign_links_kept :: "('w \<Rightarrow> string \<Rightarrow> link option) \<Rightarrow> 'w \<Rightarrow> 'w \<Rightarrow> bool" where
  "foreign_links_kept links w w' =
     (\<forall>n l. links w n = Some l \<longrightarrow> \<not> is_wireguard_link l \<longrightarrow> links w' n = Some l)"

locale kernel_sys_laws =
  fixes sys :: "'w kernel_sys"
    and links :: "'w \<Rightarrow> string \<Rightarrow> link option"
    and jfile :: "'w \<Rightarrow> string option"
  assumes open_route: "ks_open_route sys w = (r, w') \<Longrightarrow> links w' = links w \<and> jfile w' = jfile w"
    and get_frame: "ks_get_link sys n w = (r0, w') \<Longrightarrow> links w' = links w \<and> jfile w' = jfile w"
    and get_ok: "ks_get_link sys n w = (Inr lo, w') \<Longrightarrow> lo = links w n"
    and get_enodev: "ks_get_link sys n w = (Inl e, w') \<Longrightarrow> is_route_link_not_found_error e
      \<Longrightarrow> links w n = None"
    and add_frame: "ks_add_wireguard sys n w = (r1, w') \<Longrightarrow> jfile w' = jfile w"
    and add_ok: "ks_add_wireguard sys n w = (Inr u, w') \<Longrightarrow> links w n = None
      \<and> (\<exists>l. is_wireguard_link l \<and> links w' = (links w)(n \<mapsto> l))"
    and add_err: "ks_add_wireguard sys n w = (Inl e, w') \<Longrightarrow> links w' = links w"
    and del_frame: "ks_del_link sys i w = (r1, w') \<Longrightarrow> jfile w' = jfile w"
    and del_ok: "ks_del_link sys i w = (Inr u, w') \<Longrightarrow> links w n = Some l \<Longrightarrow> lk_index l = i
      \<Longrightarrow> links w' = (links w)(n := None)"
    and del_err: "ks_del_link sys i w = (Inl e, w') \<Longrightarrow> links w' = links w"
    and set_frame: "ks_set_device sys a w = (r2, w') \<Longrightarrow> links w' = links w \<and> jfile w' = jfile w"
    and dir_frame: "ks_create_dir sys w = (r, w') \<Longrightarrow> links w' = links w \<and> jfile w' = jfile w"
    and write_links: "ks_write_atomic sys c w = (r, w') \<Longrightarrow> links w' = links w"
    and write_ok: "ks_write_atomic sys c w = (Inr u, w') \<Longrightarrow> jfile w' = Some c"
    and write_err: "ks_write_atomic sys c w = (Inl m, w') \<Longrightarrow> jfile w' = jfile w \<or> jfile w' = Some c"
    and read_frame: "ks_read_journal sys w = (r3, w') \<Longrightarrow> links w' = links w \<and> jfile w' = jfile w"
    and read_ok: "ks_read_journal sys w = (Inr c, w') \<Longrightarrow> jfile w = Some c"
    and read_missing: "ks_read_journal sys w = (Inl ReadNotFound, w') \<Longrightarrow> jfile w = None"
    and remove_links: "ks_remove_journal sys w = (r4, w') \<Longrightarrow> links w' = links w"
    and remove_ok: "ks_remove_journal sys w = (Inr u, w') \<Longrightarrow> jfile w' = None"
    and remove_missing: "ks_remove_journal sys w = (Inl RemoveNotFound, w') \<Longrightarrow> jfile w' = None"
    and remove_err: "ks_remove_journal sys w = (Inl (RemoveFailed m), w') \<Longrightarrow> jfile w' = jfile w"
    and rename_links: "ks_rename_corrupt sys w = (r, w') \<Longrightarrow> links w' = links w"
    and rename_ok: "ks_rename_corrupt sys w = (Inr u, w') \<Longrightarrow> jfile w' = None"
    and rename_err: "ks_rename_corrupt sys w = (Inl m, w') \<Longrightarrow> jfile w' = jfile w"
    and codec: "ks_encode sys j = Inr c \<Longrightarrow> ks_decode sys c = Inr j"
begin

abbreviation journaled :: "'w \<Rightarrow> string option" where
  "journaled \<equiv> journaled_name sys jfile"

lemmas journaled_def = journaled_name_def

text \<open>Each law once more as one destruction rule for every result.\<close>

lemma write_law: "ks_write_atomic sys c w = (r, w') \<Longrightarrow>
   links w' = links w \<and> (jfile w' = Some c \<or> \<not> is_ok r \<and> jfile w' = jfile w)"
  using write_links [of c w] write_ok [of c w] write_err [of c w] by (cases r) auto

lemma read_law: "ks_read_journal sys w = (r, w') \<Longrightarrow>
   links w' = links w \<and> jfile w' = jfile w \<and> (case r of Inr c \<Rightarrow> jfile w = Some c
     | Inl ReadNotFound \<Rightarrow> jfile w = None | Inl (ReadFailed _) \<Rightarrow> True)"
  using read_frame read_ok read_missing by (auto split: sum.splits read_error.splits)

lemma remove_law: "ks_remove_journal sys w = (r, w') \<Longrightarrow>
   links w' = links w \<and> jfile w' = (case r of Inl (RemoveFailed _) \<Rightarrow> jfile w | _ \<Rightarrow> None)"
  using remove_links remove_ok remove_missing remove_err
  by (auto split: sum.splits remove_error.splits)

lemma rename_law: "ks_rename_corrupt sys w = (r, w') \<Longrightarrow>
   links w' = links w \<and> jfile w' = (case r of Inr _ \<Rightarrow> None | Inl _ \<Rightarrow> jfile w)"
  using rename_links rename_ok rename_err by (cases r) auto

lemma get_law: "ks_get_link sys n w = (r, w') \<Longrightarrow>
   links w' = links w \<and> jfile w' = jfile w \<and> (case r of Inr l \<Rightarrow> l = links w n
     | Inl e \<Rightarrow> is_route_link_not_found_error e \<longrightarrow> links w n = None)"
  using get_frame get_ok get_enodev by (auto split: sum.splits)

lemma add_law: "ks_add_wireguard sys n w = (r, w') \<Longrightarrow> jfile w' = jfile w \<and>
   (case r of Inl _ \<Rightarrow> links w' = links w
    | Inr _ \<Rightarrow> links w n = None \<and> (\<exists>l. is_wireguard_link l \<and> links w' = (links w)(n \<mapsto> l)))"
  using add_frame add_ok add_err by (auto split: sum.splits)

lemma write_journal:
  assumes "write_kernel_backend_journal sys n ph w = (r, w')"
  shows "links w' = links w
    \<and> (journaled w' = Some n \<or> \<not> is_ok r \<and> journaled w' = journaled w)"
  using assms
  by (cases r) (auto simp: write_kernel_backend_journal_def opS_eqs journaled_def
      dest!: dir_frame write_law codec)

lemma load_journal:
  assumes "load_kernel_backend_journal sys w = (r, w')"
  shows "links w' = links w \<and> journaled w' = journaled w
    \<and> (case r of Inr j \<Rightarrow> map_option kj_tun_name j = journaled w | Inl _ \<Rightarrow> True)"
proof -
  obtain r1 w1 where rd: "ks_read_journal sys w = (r1, w1)" by fastforce
  note R = read_law [OF rd]
  show ?thesis
  proof (cases "\<exists>c e. r1 = Inr c \<and> ks_decode sys c = Inl e")
    case True
    then obtain c e where c: "r1 = Inr c" "ks_decode sys c = Inl e" by blast
    then show ?thesis
      using assms R rd
      by (cases r) (auto simp: load_kernel_backend_journal_def withS_step [of _ _ r1 w1]
          quarantine_kernel_backend_journal_def opS_eqs journaled_def dest!: rename_law)
  next
    case False
    then show ?thesis
      using assms R rd
      by (auto simp: load_kernel_backend_journal_def withS_step [of _ _ r1 w1] journaled_def
          split: sum.splits read_error.splits)
  qed
qed

lemma clear_journal:
  assumes "clear_kernel_backend_journal sys w = (r, w')"
  shows "links w' = links w
    \<and> journaled w' = (case r of Inr _ \<Rightarrow> None | Inl _ \<Rightarrow> journaled w)"
proof -
  obtain r1 w1 where rm: "ks_remove_journal sys w = (r1, w1)" by fastforce
  show ?thesis
    using assms remove_law [OF rm] rm
    by (auto simp: clear_kernel_backend_journal_def withS_step [of _ _ r1 w1] journaled_def
        split: sum.splits remove_error.splits)
qed

lemma find_link:
  assumes "find_link_by_name sys n w = (r, w')"
  shows "links w' = links w \<and> jfile w' = jfile w
    \<and> (case r of Inr l \<Rightarrow> l = links w n | Inl _ \<Rightarrow> True)"
proof -
  obtain r1 w1 where g: "ks_get_link sys n w = (r1, w1)" by fastforce
  show ?thesis
    using assms get_law [OF g] g
    by (auto simp: find_link_by_name_def withS_step [of _ _ r1 w1] split: sum.splits if_splits)
qed

lemma route: "route_connection sys w = (r, w') \<Longrightarrow> links w' = links w \<and> jfile w' = jfile w"
  by (cases r) (auto simp: route_connection_def opS_eqs dest!: open_route)

lemma journaled_cong: "jfile w' = jfile w \<Longrightarrow> journaled w' = journaled w"
  by (simp add: journaled_def)

lemma delete_device:
  assumes "delete_kernel_device sys n w = (r, w')"
  shows "jfile w' = jfile w
    \<and> (case r of
         Inr _ \<Rightarrow> links w' = (links w)(n := None)
           \<and> (links w n = None \<or> (\<exists>l. links w n = Some l \<and> is_wireguard_link l))
       | Inl _ \<Rightarrow> links w' = links w)"
proof -
  obtain r1 w1 where w1: "route_connection sys w = (r1, w1)" by fastforce
  note R = route [OF w1]
  show ?thesis
  proof (cases r1)
    case (Inl e)
    then show ?thesis using assms R w1 by (auto simp: delete_kernel_device_def bindS_step(2))
  next
    case (Inr u)
    obtain r2 w2 where w2: "find_link_by_name sys n w1 = (r2, w2)" by fastforce
    note F = find_link [OF w2]
    show ?thesis
    proof (cases "\<exists>lnk. r2 = Inr (Some lnk) \<and> is_wireguard_link lnk")
      case False
      then show ?thesis
        using assms R F w1 w2 Inr
        by (cases r2) (auto simp: delete_kernel_device_def bindS_step fun_upd_idem
            split: option.splits)
    next
      case True
      then obtain lnk where lnk: "r2 = Inr (Some lnk)" "is_wireguard_link lnk" by blast
      obtain r3 w3 where d: "ks_del_link sys (lk_index lnk) w2 = (r3, w3)" by fastforce
      have w': "w' = w3" "is_ok r = is_ok r3"
        using assms w1 w2 Inr lnk d
        by (auto simp: delete_kernel_device_def bindS_step map_errS_def withS_step
            split: sum.splits)
      show ?thesis
      proof (cases r3)
        case r3: (Inl e)
        then have "links w3 = links w2" using d by (auto intro: del_err)
        then show ?thesis using w' r3 R F del_frame [OF d] by (cases r) auto
      next
        case r3: (Inr u)
        then have "links w3 = (links w2)(n := None)"
          using del_ok [of "lk_index lnk" w2 u w3 n lnk] d lnk F R by auto
        then show ?thesis using w' r3 R F lnk del_frame [OF d] by (cases r) auto
      qed
    qed
  qed
qed

lemma create_link:
  assumes "create_wireguard_link sys n w = (r, w')"
  shows "jfile w' = jfile w
    \<and> (case r of
         Inr _ \<Rightarrow> links w n = None \<and> (\<exists>l. is_wireguard_link l \<and> links w' = (links w)(n \<mapsto> l))
       | Inl _ \<Rightarrow> links w' = links w)"
  using assms
  by (cases r) (auto simp: create_wireguard_link_def opS_eqs split: if_splits
      dest!: route find_link add_law)

lemma set_config:
  "set_wireguard_config sys a c w = (r, w') \<Longrightarrow> links w' = links w \<and> jfile w' = jfile w"
  by (cases r) (auto simp: set_wireguard_config_def opS_eqs dest!: set_frame)

lemma cleanup_journaled:
  assumes "cleanup_journaled_link_before_create sys n w = (r, w')"
  shows "(links w' = links w \<or> (links w' = (links w)(n := None) \<and> journaled w = Some n
           \<and> (\<forall>l. links w n = Some l \<longrightarrow> is_wireguard_link l)))
    \<and> (journaled w' = journaled w \<or> (journaled w' = None \<and> links w' n = None
          \<and> journaled w = Some n))
    \<and> (is_ok r \<longrightarrow> journaled w = Some n \<longrightarrow> links w' n = None)"
proof -
  obtain r1 w1 where l: "load_kernel_backend_journal sys w = (r1, w1)" by fastforce
  note L = load_journal [OF l]
  show ?thesis
  proof (cases "\<exists>j. r1 = Inr (Some j) \<and> kj_tun_name j = n")
    case False
    then have "w' = w1" "is_ok r = is_ok r1"
      using assms l
      by (cases r; cases r1; auto simp: cleanup_journaled_link_before_create_def opS_eqs
          split: option.splits if_splits)+
    then show ?thesis using L False by (cases r1) auto
  next
    case True
    then have J: "journaled w = Some n" using L by auto
    obtain r2 w2 where d: "delete_kernel_device sys n w1 = (r2, w2)" by fastforce
    note D = delete_device [OF d]
    show ?thesis
    proof (cases r2)
      case (Inl e)
      then have "w' = w2" "\<not> is_ok r"
        using assms l True d
        by (cases r; auto simp: cleanup_journaled_link_before_create_def opS_eqs)+
      then show ?thesis using L D Inl journaled_cong [of w2 w1] by simp
    next
      case (Inr u)
      then have c: "clear_kernel_backend_journal sys w2 = (r, w')"
        using assms l True d
        by (cases r) (auto simp: cleanup_journaled_link_before_create_def opS_eqs)
      show ?thesis
        using L D Inr clear_journal [OF c] journaled_cong [of w2 w1] J
        by (cases r) auto
    qed
  qed
qed

text \<open>Links of another kind survive every operation.\<close>

abbreviation foreign_kept :: "'w \<Rightarrow> 'w \<Rightarrow> bool" where
  "foreign_kept \<equiv> foreign_links_kept links"

lemmas foreign_kept_def = foreign_links_kept_def

lemma foreign_refl [simp]: "reflp foreign_kept"
  by (simp add: reflp_def foreign_kept_def)

lemma foreign_trans [simp]: "transp foreign_kept"
  by (auto simp: transp_def foreign_kept_def)

lemma foreign_same: "links w' = links w \<Longrightarrow> foreign_kept w w'"
  by (simp add: foreign_kept_def)

lemma keeps_foreign:
  "keeps foreign_kept (write_kernel_backend_journal sys n ph)"
  "keeps foreign_kept (load_kernel_backend_journal sys)"
  "keeps foreign_kept (clear_kernel_backend_journal sys)"
  "keeps foreign_kept (delete_kernel_device sys n)"
  "keeps foreign_kept (create_wireguard_link sys n)"
  "keeps foreign_kept (set_wireguard_config sys a c)"
proof -
  show "keeps foreign_kept (write_kernel_backend_journal sys n ph)"
    by (auto intro!: keepsI foreign_same dest: write_journal)
  show "keeps foreign_kept (load_kernel_backend_journal sys)"
    by (auto intro!: keepsI foreign_same dest: load_journal)
  show "keeps foreign_kept (clear_kernel_backend_journal sys)"
    by (auto intro!: keepsI foreign_same dest: clear_journal)
  show "keeps foreign_kept (set_wireguard_config sys a c)"
    by (auto intro!: keepsI foreign_same dest: set_config)
  show "keeps foreign_kept (delete_kernel_device sys n)"
    by (rule keepsI, drule delete_device) (auto simp: foreign_kept_def split: sum.splits)
  show "keeps foreign_kept (create_wireguard_link sys n)"
    by (rule keepsI, drule create_link) (auto simp: foreign_kept_def split: sum.splits)
qed

lemma start_keeps_foreign: "keeps foreign_kept (start_kernel_device sys n s)"
  unfolding start_kernel_device_def cleanup_journaled_link_before_create_def
    configure_wireguard_device_def discard_link_def
  by (intro keeps_bindS keeps_withS keeps_foreign foreign_refl foreign_trans
      keeps_pure | simp add: keeps_foreign split: option.split sum.split
      | intro conjI impI allI)+

lemma repair_keeps_foreign: "keeps foreign_kept (repair_stale_kernel_device_from_journal sys)"
  unfolding repair_stale_kernel_device_from_journal_def
  by (intro keeps_bindS keeps_foreign foreign_refl foreign_trans
      | simp add: keeps_bindS keeps_foreign split: option.split
      | intro conjI impI allI)+

text \<open>What a start and a repair leave.\<close>

lemma discard:
  assumes "discard_link sys n (throwS e) w = (r, w')"
  shows "r = Inl e \<and> (\<forall>m. m \<noteq> n \<longrightarrow> links w' m = links w m)
    \<and> ((links w' = links w \<and> journaled w' = journaled w) \<or> links w' n = None)"
proof -
  obtain r1 w1 where d: "delete_kernel_device sys n w = (r1, w1)" by fastforce
  note D = delete_device [OF d]
  have j1: "journaled w1 = journaled w" using D journaled_cong by blast
  show ?thesis
  proof (cases r1)
    case (Inl e1)
    then have "w' = w1" "r = Inl e" using assms d by (auto simp: discard_link_def withS_step)
    then show ?thesis using D Inl j1 by simp
  next
    case (Inr u)
    obtain r2 w2 where c: "clear_kernel_backend_journal sys w1 = (r2, w2)" by fastforce
    have "w' = w2" "r = Inl e" using assms d c Inr by (auto simp: discard_link_def withS_step)
    then show ?thesis using D Inr clear_journal [OF c] by simp
  qed
qed

lemma start_device:
  assumes "start_kernel_device sys n s w = (r, w')"
  shows "(\<forall>m. m \<noteq> n \<longrightarrow> links w' m = links w m)
    \<and> (case r of
         Inr d \<Rightarrow> d = n \<and> journaled w' = Some n
           \<and> (\<exists>l. links w' n = Some l \<and> is_wireguard_link l)
       | Inl _ \<Rightarrow> (links w' n = None \<or> links w' n = links w n \<or> journaled w' = Some n)
           \<and> (journaled w = Some n \<longrightarrow> links w' n = None \<or> journaled w' = Some n))"
proof -
  obtain r1 w1 where c: "cleanup_journaled_link_before_create sys n w = (r1, w1)" by fastforce
  note C = cleanup_journaled [OF c]
  obtain r2 w2 where j: "write_kernel_backend_journal sys n CreatingLink w1 = (r2, w2)" by fastforce
  note J = write_journal [OF j]
  obtain r3 w3 where k: "create_wireguard_link sys n w2 = (r3, w3)" by fastforce
  note K = create_link [OF k]
  have jk: "journaled w3 = journaled w2" using K journaled_cong by blast
  show ?thesis
  proof (cases "is_ok r1 \<and> is_ok r2")
    case False
    then show ?thesis
      using assms c C j J
      by (cases r1; cases r2) (auto simp: start_kernel_device_def bindS_step)
  next
    case ok: True
    then obtain u1 u2 where ok12: "r1 = Inr u1" "r2 = Inr u2" by (cases r1; cases r2) auto
    show ?thesis
    proof (cases r3)
      case (Inl e)
      obtain r4 w4 where cl: "clear_kernel_backend_journal sys w3 = (r4, w4)" by fastforce
      have "w' = w4" "r = Inl e"
        using assms c j k cl ok12 Inl
        by (auto simp: start_kernel_device_def bindS_step withS_step)
      then show ?thesis using C J K Inl clear_journal [OF cl] ok by (cases r4) auto
    next
      case (Inr u3)
      obtain r5 w5 where j2: "write_kernel_backend_journal sys n LinkCreated w3 = (r5, w5)"
        by fastforce
      note J2 = write_journal [OF j2]
      have j5: "journaled w5 = Some n" using J2 jk J ok12 by (cases r5) auto
      have others: "\<forall>m. m \<noteq> n \<longrightarrow> links w5 m = links w m"
        using C J K J2 Inr ok12 by auto
      have here: "\<exists>l. links w5 n = Some l \<and> is_wireguard_link l"
        using K J2 Inr by auto
      show ?thesis
      proof (cases r5)
        case r5: (Inl e)
        then have "w' = w5" "r = Inl e"
          using assms c j k j2 ok12 Inr
          by (auto simp: start_kernel_device_def bindS_step withS_step)
        then show ?thesis using others j5 by simp
      next
        case r5: (Inr u5)
        obtain r6 w6 where cf: "configure_wireguard_device sys n s w5 = (r6, w6)" by fastforce
        note F0 = set_config [OF cf [unfolded configure_wireguard_device_def]]
        have F: "links w6 = links w5" "journaled w6 = journaled w5"
          using F0 journaled_cong [of w6 w5] by simp_all
        show ?thesis
        proof (cases r6)
          case r6: (Inl e)
          then have "discard_link sys n (throwS e) w6 = (r, w')"
            using assms c j k j2 cf ok12 Inr r5
            by (auto simp: start_kernel_device_def bindS_step withS_step)
          from discard [OF this] show ?thesis using others j5 F by auto
        next
          case r6: (Inr u6)
          then have "w' = w6" "r = Inr n"
            using assms c j k j2 cf ok12 Inr r5
            by (auto simp: start_kernel_device_def bindS_step withS_step)
          then show ?thesis using others here j5 F by auto
        qed
      qed
    qed
  qed
qed

lemma repair_device:
  assumes "repair_stale_kernel_device_from_journal sys w = (r, w')"
  shows "(\<forall>m. journaled w \<noteq> Some m \<longrightarrow> links w' m = links w m)
    \<and> (is_ok r \<longrightarrow> journaled w' = None \<and> (\<forall>m. journaled w = Some m \<longrightarrow> links w' m = None))"
proof -
  obtain r1 w1 where l: "load_kernel_backend_journal sys w = (r1, w1)" by fastforce
  note L = load_journal [OF l]
  show ?thesis
  proof (cases "\<exists>j. r1 = Inr (Some j)")
    case False
    then show ?thesis
      using assms l L
      by (cases r1) (auto simp: repair_stale_kernel_device_from_journal_def bindS_step
          split: option.splits)
  next
    case True
    then obtain jn where jn: "r1 = Inr (Some jn)" by blast
    then have J: "journaled w = Some (kj_tun_name jn)" using L by simp
    obtain r2 w2 where d: "delete_kernel_device sys (kj_tun_name jn) w1 = (r2, w2)" by fastforce
    note D = delete_device [OF d]
    show ?thesis
    proof (cases r2)
      case (Inl e)
      then show ?thesis
        using assms l jn d D L J
        by (auto simp: repair_stale_kernel_device_from_journal_def bindS_step)
    next
      case (Inr u)
      then have c: "clear_kernel_backend_journal sys w2 = (r, w')"
        using assms l jn d by (auto simp: repair_stale_kernel_device_from_journal_def bindS_step)
      show ?thesis
        using clear_journal [OF c] D L J Inr by (cases r) auto
    qed
  qed
qed

end

subsection \<open>A simulated system\<close>

text \<open>
  A system of named links and one journal file. Every call takes the next entry of a
  schedule of faults and fails when it says so; past the schedule every call succeeds.
\<close>

record sim_world =
  sm_links :: "string \<Rightarrow> info_kind option"
  sm_journal :: "string option"
  sm_faults :: "bool list"

text \<open>Interface indices: an injective code of the name.\<close>

fun name_code :: "string \<Rightarrow> nat" where
  "name_code [] = 0"
| "name_code (c # s) = 1 + of_char c + 257 * name_code s"

lemma name_code_inj: "name_code a = name_code b \<longleftrightarrow> a = b"
proof (induction a arbitrary: b)
  case Nil
  then show ?case by (cases b) auto
next
  case (Cons c a)
  show ?case
  proof (cases b)
    case Nil
    then show ?thesis by simp
  next
    case b: (Cons d b')
    have key: "x + 257 * m = y + 257 * n \<longleftrightarrow> x = y \<and> m = n"
      if "x < 256" "y < 256" for x y m n :: nat
    proof
      assume eq: "x + 257 * m = y + 257 * n"
      have "(x + 257 * m) mod 257 = x" "(y + 257 * n) mod 257 = y" using that by simp_all
      with eq show "x = y \<and> m = n" by simp
    qed simp
    show ?thesis using Cons.IH by (simp add: b key)
  qed
qed

definition sim_call :: "'e \<Rightarrow> ('e + 'a) \<times> sim_world \<Rightarrow> sim_world \<Rightarrow> ('e + 'a) \<times> sim_world" where
  "sim_call e ok w =
     (case sm_faults w of
        [] \<Rightarrow> ok
      | f # fs \<Rightarrow> if f then (Inl e, w\<lparr>sm_faults := fs\<rparr>)
                else (fst ok, (snd ok)\<lparr>sm_faults := fs\<rparr>))"

definition sim_route_error :: route_error where
  "sim_route_error = \<lparr>rte_code = Some 5, rte_text = ''i/o error''\<rparr>"

definition sim_link :: "string \<Rightarrow> info_kind \<Rightarrow> link" where
  "sim_link n k = \<lparr>lk_index = name_code n, lk_attributes = [AttrLinkInfo [InfoKind k]]\<rparr>"

definition sim_links :: "sim_world \<Rightarrow> string \<Rightarrow> link option" where
  "sim_links w n = map_option (sim_link n) (sm_links w n)"

definition phase_char :: "kernel_phase \<Rightarrow> char" where
  "phase_char p = (case p of CreatingLink \<Rightarrow> CHR ''c'' | LinkCreated \<Rightarrow> CHR ''l''
     | RunningPhase \<Rightarrow> CHR ''r'')"

definition sim_decode :: "string \<Rightarrow> string + kernel_journal" where
  "sim_decode s =
     (case s of
        [] \<Rightarrow> Inl ''empty''
      | c # n \<Rightarrow>
          if c = CHR ''c'' then Inr \<lparr>kj_tun_name = n, kj_phase = CreatingLink\<rparr>
          else if c = CHR ''l'' then Inr \<lparr>kj_tun_name = n, kj_phase = LinkCreated\<rparr>
          else if c = CHR ''r'' then Inr \<lparr>kj_tun_name = n, kj_phase = RunningPhase\<rparr>
          else Inl ''bad phase'')"

definition sim_sys :: "sim_world kernel_sys" where
  "sim_sys =
     \<lparr>ks_open_route = (\<lambda>w. sim_call ''i/o error'' (Inr (), w) w),
      ks_get_link = (\<lambda>n w. sim_call sim_route_error (Inr (sim_links w n), w) w),
      ks_add_wireguard = (\<lambda>n w.
        if sm_links w n \<noteq> None then (Inl sim_route_error, w)
        else sim_call sim_route_error
          (Inr (), w\<lparr>sm_links := (sm_links w)(n := Some KindWireguard)\<rparr>) w),
      ks_del_link = (\<lambda>i w. sim_call sim_route_error
          (Inr (), w\<lparr>sm_links := (\<lambda>n. if name_code n = i then None else sm_links w n)\<rparr>) w),
      ks_set_device = (\<lambda>_ w. sim_call (WgRequestFailed ''i/o error'') (Inr (), w) w),
      ks_create_dir = (\<lambda>w. sim_call ''i/o error'' (Inr (), w) w),
      ks_write_atomic = (\<lambda>c w. sim_call ''i/o error'' (Inr (), w\<lparr>sm_journal := Some c\<rparr>) w),
      ks_read_journal = (\<lambda>w. sim_call (ReadFailed ''i/o error'')
          (case sm_journal w of None \<Rightarrow> Inl ReadNotFound | Some c \<Rightarrow> Inr c, w) w),
      ks_remove_journal = (\<lambda>w. sim_call (RemoveFailed ''i/o error'')
          (case sm_journal w of None \<Rightarrow> Inl RemoveNotFound | Some _ \<Rightarrow> Inr (),
           w\<lparr>sm_journal := None\<rparr>) w),
      ks_rename_corrupt = (\<lambda>w. sim_call ''i/o error'' (Inr (), w\<lparr>sm_journal := None\<rparr>) w),
      ks_encode = (\<lambda>j. Inr (phase_char (kj_phase j) # kj_tun_name j)),
      ks_decode = sim_decode\<rparr>"

lemma sim_call_eq:
  "sim_call e ok w = (r, w') \<longleftrightarrow>
     (case sm_faults w of
        [] \<Rightarrow> ok = (r, w')
      | f # fs \<Rightarrow> if f then r = Inl e \<and> w' = w\<lparr>sm_faults := fs\<rparr>
                else r = fst ok \<and> w' = (snd ok)\<lparr>sm_faults := fs\<rparr>)"
  by (auto simp: sim_call_def split: list.split)

lemma sim_link_simps [simp]:
  "lk_index (sim_link n k) = name_code n" "is_wireguard_link (sim_link n k) = (k = KindWireguard)"
  by (simp_all add: sim_link_def is_wireguard_link_def)

lemma sim_links_update [simp]:
  "sim_links (w\<lparr>sm_faults := fs\<rparr>) = sim_links w"
  "sim_links (w\<lparr>sm_journal := j\<rparr>) = sim_links w"
  "sim_links (w\<lparr>sm_links := (sm_links w)(n := Some KindWireguard)\<rparr>)
     = (sim_links w)(n \<mapsto> sim_link n KindWireguard)"
  "sim_links (w\<lparr>sm_links := (\<lambda>m. if name_code m = name_code n then None else sm_links w m)\<rparr>)
     = (sim_links w)(n := None)"
  by (auto simp: sim_links_def fun_eq_iff name_code_inj)

lemma sim_links_None [simp]: "sim_links w n = None \<longleftrightarrow> sm_links w n = None"
  by (simp add: sim_links_def)

lemma sim_links_index: "sim_links w n = Some l \<Longrightarrow> lk_index l = name_code n"
  by (auto simp: sim_links_def)

lemma sim_add_exists:
  "\<exists>l. is_wireguard_link l \<and> (sim_links w)(n \<mapsto> sim_link n KindWireguard) = (sim_links w)(n \<mapsto> l)"
  by (rule exI [of _ "sim_link n KindWireguard"]) simp

lemma sim_decode_encode: "sim_decode (phase_char (kj_phase j) # kj_tun_name j) = Inr j"
  by (cases "kj_phase j") (simp_all add: sim_decode_def phase_char_def)

lemma sim_not_found [simp]: "\<not> is_route_link_not_found_error sim_route_error"
  by (simp add: is_route_link_not_found_error_def route_error_errno_def sim_route_error_def
      ENODEV_def)

interpretation sim: kernel_sys_laws sim_sys sim_links sm_journal
  by unfold_locales
    (auto simp: sim_sys_def sim_call_eq sim_decode_encode sim_add_exists sim_links_index
      split: list.splits if_splits option.splits)

end
