(* ===== verification/Backend_Properties.thy ===== *)
theory Backend_Properties
  imports Kernel_Laws
begin

text \<open>
  The properties of the ephemeral negotiation and of the kernel WireGuard backend. The
  kernel ones hold for every system that satisfies \<open>kernel_sys_laws\<close>, and are witnessed on
  the simulated system.
\<close>

subsection \<open>Ephemeral negotiation\<close>

text \<open>C22: a negotiation makes at most four attempts, in windows of 8, 16, 32 and 48 seconds, and
  its outcome is that of the first attempt that does not time out.\<close>

theorem negotiation_first_answer:
  "map negotiation_timeout_for_attempt [0..<Suc NEGOTIATION_RETRY_ATTEMPTS] = [8, 16, 32, 48]
   \<and> negotiate_ephemeral_peer k pq daita world =
     (case find (\<lambda>i. \<not> timed_out world i) [0..<4] of
        None \<Rightarrow> Inl TimeoutError
      | Some i \<Rightarrow>
          (case world i (negotiation_timeout_for_attempt i) of
             Attempt conn rpc \<Rightarrow> negotiate_ephemeral_peer_inner k pq daita conn rpc
           | TimedOut \<Rightarrow> Inl TimeoutError))"
  by (rule conjI [OF negotiation_windows negotiate_ephemeral_peer_first])

text \<open>C23: an upgrade reports a protection exactly when it was asked for, and then carries it: a
  preshared key for the quantum upgrade, machines for DAITA, under the fresh private key;
  the peer, its endpoint and its networks stay the configured ones.\<close>

theorem upgrade_reports_truth:
  assumes "negotiate_tunnel_upgrade cr k q d c base fresh world = Inr u"
  shows "(uo_quantum_applied (update_outcome u) \<longleftrightarrow> quantum_enabled q)
       \<and> (uo_daita_applied (update_outcome u) \<longleftrightarrow> daita_enabled d)
       \<and> (quantum_enabled q \<longrightarrow> dp_preshared_key (eu_peer u) \<noteq> None \<and> eu_private_key u = fresh)
       \<and> (daita_enabled d \<longrightarrow> eu_daita u \<noteq> None \<and> eu_private_key u = fresh)
       \<and> dp_public_key (eu_peer u) = dp_public_key base
       \<and> dp_endpoint (eu_peer u) = dp_endpoint base
       \<and> dp_allowed_ips (eu_peer u) = dp_allowed_ips base"
  using assms by (rule upgrade_truthful)

definition toy_eph_crates :: "nat eph_crates" where
  "toy_eph_crates =
     \<lparr>ek_mlkem_length = 1, ek_mlkem_decapsulate = (\<lambda>c. Some c), ek_hqc_length = 1,
      ek_hqc_decapsulate = (\<lambda>c. c), ek_sha256 = (\<lambda>c. c), ek_parse_machine = (\<lambda>s. Inr (length s))\<rparr>"

definition toy_config :: wireguard_config where
  "toy_config =
     \<lparr>wc_interface = \<lparr>if_private_key = Key [], if_listen_port = None, if_fwmark = None,
        if_addresses = [InterfaceAddress (V4 0x0A400002) 32], if_dns_servers = [],
        if_dns_search = [], if_mtu = None, if_table = None\<rparr>,
      wc_peers = [\<lparr>pc_public_key = Key [], pc_preshared_key = None, pc_allowed_ips = [],
        pc_endpoint = None, pc_persistent_keepalive = None\<rparr>]\<rparr>"

definition toy_peer :: kernel_peer where
  "toy_peer = \<lparr>dp_public_key = [1], dp_endpoint = None, dp_allowed_ips = [],
     dp_preshared_key = None, dp_keepalive = None\<rparr>"

definition toy_attempts :: "nat \<Rightarrow> nat \<Rightarrow> attempt" where
  "toy_attempts i secs = (if i = 0 then TimedOut else Attempt (Inr ())
     (Inr \<lparr>rg_post_quantum = Some [[1], [2]], rg_daita = None\<rparr>))"

lemma toy_upgrade:
  "\<exists>u. negotiate_tunnel_upgrade (cr :: (u8 list, u8 list, allowed_ip) device_crates)
      toy_eph_crates QOn DOff toy_config toy_peer [9] toy_attempts = Inr u"
  by (simp add: negotiate_tunnel_upgrade_def ensure_supported_ephemeral_config_def toy_config_def
      is_mullvad_tunnel_address_def octet_def negotiate_ephemeral_peer_first upt_rec [of _ 4]
      timed_out_def toy_attempts_def negotiate_ephemeral_peer_inner_def derive_psk_def
      mlkem_decapsulate_def hqc_decapsulate_def toy_eph_crates_def quantum_enabled_def
      daita_enabled_def Let_def)

theorem upgrade_reports_truth_witness:
  "\<exists>u. negotiate_tunnel_upgrade
       \<lparr>lookup_host = (\<lambda>_ _ _. None), ip_network_new = (\<lambda>a n. Some (AllowedIp a n)),
        static_secret_from = (\<lambda>k. k), public_key_from = (\<lambda>k. k)\<rparr>
       toy_eph_crates QOn DOff toy_config toy_peer [9] toy_attempts = Inr u
     \<and> uo_quantum_applied (update_outcome u) \<and> eu_private_key u = [9]"
proof -
  let ?cr = "\<lparr>lookup_host = (\<lambda>_ _ _. None), ip_network_new = (\<lambda>a n. Some (AllowedIp a n)),
        static_secret_from = (\<lambda>k. k), public_key_from = (\<lambda>k. k)\<rparr>
      :: (u8 list, u8 list, allowed_ip) device_crates"
  obtain u where u: "negotiate_tunnel_upgrade ?cr toy_eph_crates QOn DOff toy_config toy_peer [9]
      toy_attempts = Inr u"
    using toy_upgrade by blast
  have "quantum_enabled QOn" by (simp add: quantum_enabled_def)
  with upgrade_reports_truth [OF u] u show ?thesis by blast
qed

text \<open>The DAITA check passes exactly for a single peer with an endpoint, a Mullvad tunnel
  address and a cached relay of the peer's key that offers DAITA.\<close>

theorem daita_check_iff:
  "validate_daita_config enc read c = Inr () \<longleftrightarrow>
     (\<exists>p ci r. wc_peers c = [p] \<and> pc_endpoint p \<noteq> None
        \<and> list_ex is_mullvad_tunnel_address (if_addresses (wc_interface c))
        \<and> read = Inr (Some ci)
        \<and> find_by_public_key (ci_relays ci) (enc (as_bytes (pc_public_key p))) = Some r
        \<and> rm_daita r)"
  by (rule validate_daita_iff)

subsection \<open>The kernel interface\<close>

text \<open>C7: starting and repairing never remove or change a link of another kind, whatever call
  fails.\<close>

theorem kernel_spares_foreign_links:
  assumes "kernel_sys_laws sys links jfile"
  shows "keeps (foreign_links_kept links) (start_kernel_device sys n s)
    \<and> keeps (foreign_links_kept links) (repair_stale_kernel_device_from_journal sys)"
  using kernel_sys_laws.start_keeps_foreign [OF assms] kernel_sys_laws.repair_keeps_foreign [OF assms]
  by blast

theorem kernel_spares_foreign_links_witness:
  "keeps (foreign_links_kept sim_links) (repair_stale_kernel_device_from_journal sim_sys)"
  using kernel_spares_foreign_links [OF sim.kernel_sys_laws_axioms] by blast

text \<open>C8: a start changes no link but the one of its own name \<open>n\<close>. When it succeeds that link is a
  WireGuard link and the journal names it. When it fails, the link \<open>n\<close> is gone, or what it was
  before the start, or named by the journal; and if the journal named \<open>n\<close> before the start, the
  link is gone or still named. (Nothing is claimed of a link of another name that the journal
  named: see \<open>start_forgets_other_link\<close>.)\<close>

theorem kernel_start_journaled:
  assumes "kernel_sys_laws sys links jfile" "start_kernel_device sys n s w = (r, w')"
  shows "(\<forall>m. m \<noteq> n \<longrightarrow> links w' m = links w m)
    \<and> (case r of
         Inr d \<Rightarrow> d = n \<and> journaled_name sys jfile w' = Some n
           \<and> (\<exists>l. links w' n = Some l \<and> is_wireguard_link l)
       | Inl _ \<Rightarrow> (links w' n = None \<or> links w' n = links w n
             \<or> journaled_name sys jfile w' = Some n)
           \<and> (journaled_name sys jfile w = Some n
               \<longrightarrow> links w' n = None \<or> journaled_name sys jfile w' = Some n))"
  using kernel_sys_laws.start_device [OF assms] .

text \<open>A link of another name that the journal named is left in place by a successful start and is
  not named any more: the repair will never find it.\<close>

theorem start_forgets_other_link:
  assumes "kernel_sys_laws sys links jfile" "start_kernel_device sys n s w = (Inr d, w')"
    and "journaled_name sys jfile w = Some m" "m \<noteq> n"
  shows "links w' m = links w m \<and> journaled_name sys jfile w' = Some n"
  using kernel_sys_laws.start_device [OF assms(1,2)] assms(4) by simp

definition toy_settings :: kernel_settings where
  "toy_settings = \<lparr>ds_private_key = [], ds_listen_port = None, ds_fwmark = None, ds_peers = []\<rparr>"

definition toy_world :: sim_world where
  "toy_world = \<lparr>sm_links = [''eth0'' \<mapsto> KindOther ''veth''], sm_journal = None,
     sm_faults = [False, False, False, True]\<rparr>"

theorem kernel_start_journaled_witness:
  "sim_links (snd (start_kernel_device sim_sys ''wg0'' toy_settings toy_world)) ''eth0''
     = Some (sim_link ''eth0'' (KindOther ''veth''))"
proof -
  obtain r w' where r: "start_kernel_device sim_sys ''wg0'' toy_settings toy_world = (r, w')"
    by fastforce
  have "sim_links w' ''eth0'' = sim_links toy_world ''eth0''"
    using kernel_start_journaled [OF sim.kernel_sys_laws_axioms r] by simp
  also have "\<dots> = Some (sim_link ''eth0'' (KindOther ''veth''))"
    by (simp add: toy_world_def sim_links_def)
  finally show ?thesis by (simp only: r snd_conv)
qed

text \<open>C9: a repair touches only the link the journal names; when it succeeds that link is gone
  and the journal is empty.\<close>

theorem kernel_repair_clears:
  assumes "kernel_sys_laws sys links jfile"
    and "repair_stale_kernel_device_from_journal sys w = (r, w')"
  shows "(\<forall>m. journaled_name sys jfile w \<noteq> Some m \<longrightarrow> links w' m = links w m)
    \<and> (is_ok r \<longrightarrow> journaled_name sys jfile w' = None
        \<and> (\<forall>m. journaled_name sys jfile w = Some m \<longrightarrow> links w' m = None))"
  using kernel_sys_laws.repair_device [OF assms] .

theorem kernel_repair_clears_witness:
  "sim_links (snd (repair_stale_kernel_device_from_journal sim_sys
     \<lparr>sm_links = [''wg0'' \<mapsto> KindWireguard], sm_journal = Some ''rwg0'', sm_faults = []\<rparr>)) ''wg0''
     = None"
proof -
  let ?w = "\<lparr>sm_links = [''wg0'' \<mapsto> KindWireguard], sm_journal = Some ''rwg0'', sm_faults = []\<rparr>"
  obtain r w' where r: "repair_stale_kernel_device_from_journal sim_sys ?w = (r, w')" by fastforce
  have j: "journaled_name sim_sys sm_journal ?w = Some ''wg0''"
    by (simp add: journaled_name_def sim_sys_def sim_decode_def)
  have "is_ok r"
    using r by (auto simp: repair_stale_kernel_device_from_journal_def load_kernel_backend_journal_def
        delete_kernel_device_def route_connection_def find_link_by_name_def
        clear_kernel_backend_journal_def sim_sys_def sim_call_def sim_decode_def sim_links_def
        opS_defs)
  with kernel_repair_clears [OF sim.kernel_sys_laws_axioms r] j r show ?thesis by simp
qed

end
