(* ===== verification/Op_Logic.thy ===== *)
theory Op_Logic
  imports Prelude
begin

text \<open>
  Operations on a pair of a component's state and the world, and weakest preconditions for
  the operations of the development: the proofs about pipelines with rollbacks run on the
  rules collected in \<open>wp_rules\<close>.
\<close>

subsection \<open>Operations on a state and a world\<close>

text \<open>\<open>onW\<close> runs an operation on the world, \<open>setS\<close> and \<open>updS\<close> assign to the state, \<open>readS\<close> reads it.\<close>

definition onW :: "('w, 'e, 'a) op \<Rightarrow> ('s \<times> 'w, 'e, 'a) op" where
  "onW m sw = (case m (snd sw) of (r, w') \<Rightarrow> (r, (fst sw, w')))"

definition updS :: "('s \<times> 'w \<Rightarrow> 's \<times> 'w) \<Rightarrow> ('s \<times> 'w, 'e, 'a) op \<Rightarrow> ('s \<times> 'w, 'e, 'a) op" where
  "updS f k sw = k (f sw)"

definition setS :: "('s \<Rightarrow> 's) \<Rightarrow> ('s \<times> 'w, 'e, 'a) op \<Rightarrow> ('s \<times> 'w, 'e, 'a) op" where
  "setS f k sw = k (f (fst sw), snd sw)"

definition readS :: "('s \<times> 'w \<Rightarrow> ('s \<times> 'w, 'e, 'a) op) \<Rightarrow> ('s \<times> 'w, 'e, 'a) op" where
  "readS f sw = f sw sw"

definition askS :: "('w \<Rightarrow> ('w, 'e, 'a) op) \<Rightarrow> ('w, 'e, 'a) op" where
  "askS f w = f w w"

text \<open>An operation whose result is dropped.\<close>

definition ignoreS :: "('w, 'e, 'a) op \<Rightarrow> ('w, 'f, 'b) op \<Rightarrow> ('w, 'f, 'b) op" where
  "ignoreS m k = withS m (\<lambda>_. k)"

subsection \<open>Weakest preconditions of the operations\<close>

definition wp :: "('w, 'e, 'a) op \<Rightarrow> ('e + 'a \<Rightarrow> 'w \<Rightarrow> bool) \<Rightarrow> 'w \<Rightarrow> bool" where
  "wp m Q w = (case m w of (r, w') \<Rightarrow> Q r w')"

named_theorems wp_rules \<open>weakest preconditions of the program constructs\<close>

lemma wpI: "(\<And>r w'. m w = (r, w') \<Longrightarrow> Q r w') \<Longrightarrow> wp m Q w"
  by (cases "m w") (simp add: wp_def)

lemma wpD: "wp m Q w \<Longrightarrow> m w = (r, w') \<Longrightarrow> Q r w'"
  by (simp add: wp_def)

lemma wp_mono: "wp m Q w \<Longrightarrow> (\<And>r w'. Q r w' \<Longrightarrow> R r w') \<Longrightarrow> wp m R w"
  by (auto simp: wp_def split: prod.splits)

lemma wp_pure [wp_rules]:
  "wp (returnS x) Q w = Q (Inr x) w" "wp (throwS e) Q w = Q (Inl e) w" "wp (liftS r) Q w = Q r w"
  by (auto simp: wp_def opS_defs)

lemma wp_withS [wp_rules]: "wp (withS m f) Q w = wp m (\<lambda>r. wp (f r) Q) w"
  by (simp add: wp_def opS_defs split: prod.splits)

lemma wp_bindS [wp_rules]:
  "wp (bindS m f) Q w = wp m (\<lambda>r. case r of Inl e \<Rightarrow> Q (Inl e) | Inr x \<Rightarrow> wp (f x) Q) w"
  by (auto simp: wp_def opS_defs split: prod.splits sum.splits)

lemma wp_map_errS [wp_rules]: "wp (map_errS h m) Q w = wp m (\<lambda>r. Q (map_err h r)) w"
  by (auto simp: wp_def opS_defs map_err_def split: prod.splits sum.splits)

lemma wp_state [wp_rules]:
  "wp (onW n) P (es, v) = wp n (\<lambda>r v'. P r (es, v')) v"
  "wp (updS g k) P (es, v) = wp k P (g (es, v))"
  "wp (setS f k) P (es, v) = wp k P (f es, v)"
  "wp (readS h) P (es, v) = wp (h (es, v)) P (es, v)"
  by (auto simp: wp_def onW_def updS_def setS_def readS_def split: prod.splits)

lemma wp_askS [wp_rules]: "wp (askS f) Q w = wp (f w) Q w"
  by (simp add: wp_def askS_def)

lemma wp_ignoreS [wp_rules]: "wp (ignoreS m k) Q w = wp m (\<lambda>_. wp k Q) w"
  by (simp add: ignoreS_def wp_withS)

lemma wp_updS: "wp (updS g k) P s = wp k P (g s)"
  by (simp add: wp_def updS_def)

lemma wp_if [wp_rules]: "wp (if b then m else n) Q w = (if b then wp m Q w else wp n Q w)"
  by simp

lemma wp_keeps: "keeps R m \<Longrightarrow> (\<And>r w'. R w w' \<Longrightarrow> Q r w') \<Longrightarrow> wp m Q w"
  by (auto intro: wpI dest: keepsD)

lemma wp_any: "(\<And>r w'. Q r w') \<Longrightarrow> wp m Q w"
  by (rule wpI)


subsection \<open>Frames\<close>

text \<open>The constructs keep a relation that their parts keep; the cases of a branch, each on its own.\<close>

lemma keeps_ignoreS: "transp R \<Longrightarrow> keeps R m \<Longrightarrow> keeps R k \<Longrightarrow> keeps R (ignoreS m k)"
  unfolding ignoreS_def by (rule keeps_withS)

lemma keeps_askS: "(\<And>w. keeps R (f w)) \<Longrightarrow> keeps R (askS f)"
  by (simp add: keeps_def askS_def)

lemma keeps_branches:
  "(b \<Longrightarrow> keeps R m) \<Longrightarrow> (\<not> b \<Longrightarrow> keeps R n) \<Longrightarrow> keeps R (if b then m else n)"
  "(x = None \<Longrightarrow> keeps R m) \<Longrightarrow> (\<And>y. x = Some y \<Longrightarrow> keeps R (f y))
     \<Longrightarrow> keeps R (case x of None \<Rightarrow> m | Some y \<Rightarrow> f y)"
  "(\<And>e. r = Inl e \<Longrightarrow> keeps R (g e)) \<Longrightarrow> (\<And>y. r = Inr y \<Longrightarrow> keeps R (h y))
     \<Longrightarrow> keeps R (case r of Inl e \<Rightarrow> g e | Inr y \<Rightarrow> h y)"
  "keeps R (k z) \<Longrightarrow> keeps R (let y = z in k y)"
  by (auto split: option.split sum.split)

lemma wp_conj: "wp m P w \<Longrightarrow> wp m Q w \<Longrightarrow> wp m (\<lambda>r w'. P r w' \<and> Q r w') w"
  by (simp add: wp_def split: prod.splits)

end
