(* ===== verification/Engine.thy ===== *)
theory Engine
  imports Kernel_Laws Route_Report Op_Logic
begin

text \<open>
  \<open>backend/wg/engine/\<close>: the state of the backend thread, the choice of the data plane, the
  start and stop pipelines with their rollbacks, the snapshot and the command loop. The
  state is the pair of \<open>EngineState\<close> and the world; the GotaTun device, the network
  platform and the surroundings of a negotiation are the operations of \<open>engine_ops\<close>, the
  kernel interface is the model of \<open>Kernel_Backend\<close> over its system calls. Handles of
  devices, network states and traffic guards are numbers. A panic of the configuration
  parser is the value \<open>Panic\<close>, caught by the runner.
\<close>

subsection \<open>Data\<close>

datatype engine_error =
  ChannelClosed
| AlreadyRunning
| NotRunning
| AccessDenied
| DeviceError string
| ConfigErr config_error
| NetworkErr string
| KernelWireGuard string
| UnsupportedBackend string
| EphemeralErr string
| VersionMismatch u32 u32
| RemoteErr string

fun show_engine_error :: "engine_error \<Rightarrow> string" where
  "show_engine_error ChannelClosed = ''backend channel closed''"
| "show_engine_error AlreadyRunning = ''backend already running''"
| "show_engine_error NotRunning = ''backend not running''"
| "show_engine_error AccessDenied = ''access denied to privileged backend''"
| "show_engine_error (DeviceError e) = ''device error: '' @ e"
| "show_engine_error (ConfigErr e) = ''config error: '' @ show_config_error e"
| "show_engine_error (NetworkErr e) = ''network error: '' @ e"
| "show_engine_error (KernelWireGuard m) = ''kernel WireGuard error: '' @ m"
| "show_engine_error (UnsupportedBackend m) = ''unsupported WireGuard backend: '' @ m"
| "show_engine_error (EphemeralErr m) = ''ephemeral negotiation error: '' @ m"
| "show_engine_error (VersionMismatch x a) =
     ''privileged backend protocol mismatch (expected v'' @ show_nat (unat x) @ '', got v''
       @ show_nat (unat a) @ '')''"
| "show_engine_error (RemoteErr m) = m"

datatype backend_preference = PrefAuto | PrefKernel | PrefUserspace

definition default_preference :: "bool \<Rightarrow> backend_preference" where
  "default_preference linux = (if linux then PrefAuto else PrefUserspace)"

fun preference_as_str :: "backend_preference \<Rightarrow> string" where
  "preference_as_str PrefAuto = ''Auto''"
| "preference_as_str PrefKernel = ''Kernel''"
| "preference_as_str PrefUserspace = ''UserspaceGotaTun''"

datatype backend_decision = DecUserspace | DecKernel

record start_request =
  srq_tun_name :: string
  srq_config_text :: string
  srq_dns :: dns_selection
  srq_quantum_mode :: quantum_mode
  srq_daita_mode :: daita_mode
  srq_kill_switch :: bool
  srq_preference :: backend_preference

record device_slot =
  slot_device :: nat
  slot_tun_name :: string

datatype active_backend = BUserspace device_slot | BKernel string

datatype active_backend_status = LinuxKernelStatus | UserspaceStatus

fun backend_status :: "active_backend \<Rightarrow> active_backend_status" where
  "backend_status (BUserspace _) = UserspaceStatus"
| "backend_status (BKernel _) = LinuxKernelStatus"

record engine_state =
  es_cached :: "device_slot option"
  es_active :: "active_backend option"
  es_net :: "nat option"
  es_report :: "apply_report option"
  es_running :: bool
  es_quantum :: bool
  es_daita :: bool
  es_ephemeral_key :: bool
  es_last_quantum :: "eph_failure_kind option"
  es_last_daita :: "eph_failure_kind option"

definition engine_initial :: "apply_report option \<Rightarrow> engine_state" where
  "engine_initial persisted =
     \<lparr>es_cached = None, es_active = None, es_net = None, es_report = persisted,
      es_running = False, es_quantum = False, es_daita = False, es_ephemeral_key = False,
      es_last_quantum = None, es_last_daita = None\<rparr>"

datatype 'm device_command =
  SetPrivateKey "u8 list"
| SetListenPort u16
| SetFwmark u32
| ClearPeers
| AddPeers "(kernel_peer \<times> 'm daita_settings option) list"

record ('w, 'm) engine_ops =
  eo_linux :: bool
  eo_platform :: route_plan_platform
  eo_kernel :: "'w kernel_sys"
  eo_b64_decode :: "string \<Rightarrow> u8 list option"
  eo_b64_encode :: "u8 list \<Rightarrow> string"
  eo_device_crates :: "'w \<Rightarrow> (u8 list, u8 list, allowed_ip) device_crates"
  eo_eph_crates :: "'m eph_crates"
  eo_inventory :: "'w \<Rightarrow> string + cached_inventory option"
  eo_panic_message :: "string \<Rightarrow> string"
  eo_create_device :: "string \<Rightarrow> ('w, string, nat) op"
  eo_device_write :: "nat \<Rightarrow> 'm device_command list \<Rightarrow> ('w, string, unit) op"
  eo_clear_peers :: "nat \<Rightarrow> ('w, string, unit) op"
  eo_stop_device :: "nat \<Rightarrow> 'w \<Rightarrow> 'w"
  eo_drop_device :: "nat \<Rightarrow> 'w \<Rightarrow> 'w"
  eo_apply_network ::
    "string \<Rightarrow> wireguard_config \<Rightarrow> route_plan \<Rightarrow> bool
     \<Rightarrow> ('w, string \<times> apply_report, nat \<times> apply_report) op"
  eo_cleanup_network :: "nat \<Rightarrow> ('w, string, unit) op"
  eo_apply_guard :: "string \<Rightarrow> bool \<Rightarrow> ('w, string, nat) op"
  eo_cleanup_guard :: "nat \<Rightarrow> ('w, string, unit) op"
  eo_draw :: "'w \<Rightarrow> (u8 list \<times> (nat \<Rightarrow> nat \<Rightarrow> attempt)) \<times> 'w"

subsection \<open>\<open>backend_strategy.rs\<close>\<close>

definition resolve_backend ::
  "bool \<Rightarrow> backend_preference \<Rightarrow> daita_mode \<Rightarrow> quantum_mode \<Rightarrow> engine_error + backend_decision" where
  "resolve_backend linux pref daita quantum =
     (if daita_enabled daita then
        (case pref of
           PrefKernel \<Rightarrow> Inl (UnsupportedBackend ''DAITA currently requires GotaTun; switch WireGuard implementation to Userspace'')
         | _ \<Rightarrow> Inr DecUserspace)
      else
        (case pref of
           PrefUserspace \<Rightarrow> Inr DecUserspace
         | PrefKernel \<Rightarrow>
             if linux then Inr DecKernel
             else Inl (UnsupportedBackend ''kernel WireGuard backend is only supported on Linux'')
         | PrefAuto \<Rightarrow> Inr (if linux then DecKernel else DecUserspace)))"

subsection \<open>\<open>stop_pipeline.rs\<close>\<close>

definition stop_userspace_slot :: "('w, 'm) engine_ops \<Rightarrow> device_slot \<Rightarrow> 'w \<Rightarrow> 'w" where
  "stop_userspace_slot ops slot w = eo_stop_device ops (slot_device slot) w"

definition cleanup_active_network_state ::
  "('w, 'm) engine_ops \<Rightarrow> (engine_state \<times> 'w, engine_error, unit) op" where
  "cleanup_active_network_state ops =
     readS (\<lambda>s. case es_net (fst s) of
       Some n \<Rightarrow> setS (es_net_update (\<lambda>_. None))
                  (map_errS NetworkErr (onW (eo_cleanup_network ops n)))
     | None \<Rightarrow> returnS ())"

definition clear_run_flags :: "engine_state \<Rightarrow> engine_state" where
  "clear_run_flags es =
     es\<lparr>es_running := False, es_quantum := False, es_daita := False, es_ephemeral_key := False,
        es_last_quantum := None, es_last_daita := None\<rparr>"

definition shutdown_active_backend ::
  "('w, 'm) engine_ops \<Rightarrow> engine_state \<times> 'w \<Rightarrow> engine_state \<times> 'w" where
  "shutdown_active_backend ops s =
     (let w = (case es_active (fst s) of
           None \<Rightarrow> snd s
         | Some (BUserspace slot) \<Rightarrow> stop_userspace_slot ops slot (snd s)
         | Some (BKernel name) \<Rightarrow>
             (case delete_kernel_device (eo_kernel ops) name (snd s) of
                (Inl _, w') \<Rightarrow> w'
              | (Inr _, w') \<Rightarrow> snd (clear_kernel_backend_journal (eo_kernel ops) w')))
      in ((clear_run_flags (fst s))\<lparr>es_active := None, es_net := None, es_report := None\<rparr>, w))"

definition shutdown_cached_userspace_device ::
  "('w, 'm) engine_ops \<Rightarrow> engine_state \<times> 'w \<Rightarrow> engine_state \<times> 'w" where
  "shutdown_cached_userspace_device ops s =
     (case es_cached (fst s) of
        None \<Rightarrow> s
      | Some slot \<Rightarrow> ((fst s)\<lparr>es_cached := None\<rparr>, stop_userspace_slot ops slot (snd s)))"

definition cache_cleared_userspace_slot ::
  "('w, 'm) engine_ops \<Rightarrow> device_slot \<Rightarrow> engine_state \<times> 'w \<Rightarrow> engine_state \<times> 'w" where
  "cache_cleared_userspace_slot ops slot s =
     (case eo_clear_peers ops (slot_device slot) (snd s) of
        (Inl _, w') \<Rightarrow> (fst s, stop_userspace_slot ops slot w')
      | (Inr _, w') \<Rightarrow> ((fst s)\<lparr>es_cached := Some slot\<rparr>, w'))"

text \<open>The slot that \<open>stop_active_backend\<close> still owns when \<open>clear_peers\<close> fails is dropped.\<close>

definition stop_active_backend ::
  "('w, 'm) engine_ops \<Rightarrow> (engine_state \<times> 'w, engine_error, unit) op" where
  "stop_active_backend ops =
     readS (\<lambda>s. case es_active (fst s) of
       None \<Rightarrow> returnS ()
     | Some b \<Rightarrow> setS (es_active_update (\<lambda>_. None))
         (case b of
            BUserspace slot \<Rightarrow>
              if es_ephemeral_key (fst s)
              then updS (\<lambda>s. (fst s, stop_userspace_slot ops slot (snd s))) (returnS ())
              else withS (onW (eo_clear_peers ops (slot_device slot))) (\<lambda>r. case r of
                     Inl e \<Rightarrow> updS (\<lambda>s. (fst s, eo_drop_device ops (slot_device slot) (snd s)))
                               (throwS (DeviceError e))
                   | Inr _ \<Rightarrow> setS (es_cached_update (\<lambda>_. Some slot)) (returnS ()))
          | BKernel name \<Rightarrow>
              withS (onW (delete_kernel_device (eo_kernel ops) name)) (\<lambda>r. case r of
                Inl e \<Rightarrow> setS (es_active_update (\<lambda>_. Some (BKernel name)))
                  (throwS (KernelWireGuard (''failed to delete kernel WireGuard interface: ''
                     @ show_kernel_error e)))
              | Inr _ \<Rightarrow> map_errS (\<lambda>e. KernelWireGuard (show_kernel_error e))
                  (onW (clear_kernel_backend_journal (eo_kernel ops))))))"

definition stop :: "('w, 'm) engine_ops \<Rightarrow> (engine_state \<times> 'w, engine_error, unit) op" where
  "stop ops =
     readS (\<lambda>s. if \<not> es_running (fst s) then throwS NotRunning else
     withS (cleanup_active_network_state ops) (\<lambda>cleanup.
     withS (stop_active_backend ops) (\<lambda>r. case r of
       Inl e \<Rightarrow>
         if is_ok cleanup
         then setS (\<lambda>es. (clear_run_flags es)\<lparr>es_report := None\<rparr>) (throwS e)
         else throwS e
     | Inr _ \<Rightarrow> setS (\<lambda>es. (clear_run_flags es)\<lparr>es_report := None\<rparr>) (liftS cleanup))))"

subsection \<open>\<open>start_pipeline.rs\<close>: userspace\<close>

definition configure_commands :: "bool \<Rightarrow> kernel_settings \<Rightarrow> 'm device_command list" where
  "configure_commands linux s =
     [SetPrivateKey (ds_private_key s)]
     @ (case ds_listen_port s of Some p \<Rightarrow> [SetListenPort p] | None \<Rightarrow> [])
     @ (if linux then (case ds_fwmark s of Some m \<Rightarrow> [SetFwmark m] | None \<Rightarrow> []) else [])
     @ [ClearPeers, AddPeers (map (\<lambda>p. (p, None)) (ds_peers s))]"

definition take_or_create_slot ::
  "('w, 'm) engine_ops \<Rightarrow> string \<Rightarrow> (engine_state \<times> 'w, engine_error, device_slot \<times> bool) op" where
  "take_or_create_slot ops name =
     readS (\<lambda>s. case es_cached (fst s) of
       Some slot \<Rightarrow> setS (es_cached_update (\<lambda>_. None)) (returnS (slot, False))
     | None \<Rightarrow>
         bindS (map_errS DeviceError (onW (eo_create_device ops name))) (\<lambda>d.
         returnS (\<lparr>slot_device = d, slot_tun_name = name\<rparr>, True)))"

definition recover_userspace_slot ::
  "('w, 'm) engine_ops \<Rightarrow> device_slot \<Rightarrow> bool \<Rightarrow> engine_state \<times> 'w \<Rightarrow> engine_state \<times> 'w" where
  "recover_userspace_slot ops slot created_new s =
     (if created_new then (fst s, stop_userspace_slot ops slot (snd s))
      else cache_cleared_userspace_slot ops slot s)"

definition note_failure :: "start_request \<Rightarrow> eph_failure_kind \<Rightarrow> engine_state \<Rightarrow> engine_state" where
  "note_failure req k es =
     (let es1 = (if quantum_enabled (srq_quantum_mode req)
                 then es\<lparr>es_last_quantum := Some k\<rparr> else es)
      in if daita_enabled (srq_daita_mode req) then es1\<lparr>es_last_daita := Some k\<rparr> else es1)"

definition note_outcome :: "upgrade_outcome \<Rightarrow> engine_state \<Rightarrow> engine_state" where
  "note_outcome u es =
     es\<lparr>es_quantum := uo_quantum_applied u, es_daita := uo_daita_applied u,
        es_ephemeral_key := (uo_quantum_applied u \<or> uo_daita_applied u),
        es_last_quantum := None, es_last_daita := None\<rparr>"

definition negotiate_op ::
  "('w, 'm) engine_ops \<Rightarrow> wireguard_config \<Rightarrow> start_request \<Rightarrow> kernel_peer
   \<Rightarrow> (engine_state \<times> 'w, eph_error, (u8 list, u8 list, allowed_ip, 'm) eph_update) op" where
  "negotiate_op ops parsed req base =
     onW (\<lambda>w. case eo_draw ops w of ((fresh, attempts), w') \<Rightarrow>
       (negotiate_tunnel_upgrade (eo_device_crates ops w) (eo_eph_crates ops)
          (srq_quantum_mode req) (srq_daita_mode req) parsed base fresh attempts, w'))"

definition upgrade_tunnel ::
  "('w, 'm) engine_ops \<Rightarrow> wireguard_config \<Rightarrow> device_slot \<Rightarrow> start_request \<Rightarrow> kernel_peer
   \<Rightarrow> (engine_state \<times> 'w, eph_error, upgrade_outcome) op" where
  "upgrade_tunnel ops parsed slot req base =
     bindS (negotiate_op ops parsed req base) (\<lambda>u.
     bindS (map_errS ReconfigureError (onW (eo_device_write ops (slot_device slot)
         [SetPrivateKey (eu_private_key u), ClearPeers, AddPeers [(eu_peer u, eu_daita u)]])))
       (\<lambda>_. returnS (update_outcome u)))"

definition upgrade_userspace_ephemeral ::
  "('w, 'm) engine_ops \<Rightarrow> wireguard_config \<Rightarrow> kernel_settings \<Rightarrow> device_slot \<Rightarrow> start_request
   \<Rightarrow> (engine_state \<times> 'w, engine_error, unit) op" where
  "upgrade_userspace_ephemeral ops parsed settings slot req =
     (case ds_peers settings of
        [] \<Rightarrow>
          let e = UnsupportedConfig ''ephemeral peer negotiation requires exactly one configured peer''
          in setS (note_failure req (eph_kind e)) (throwS (EphemeralErr (show_eph_error e)))
      | base # _ \<Rightarrow>
          withS (upgrade_tunnel ops parsed slot req base) (\<lambda>r. case r of
            Inr u \<Rightarrow> setS (note_outcome u) (returnS ())
          | Inl e \<Rightarrow> setS (note_failure req (eph_kind e)) (throwS (EphemeralErr (show_eph_error e)))))"

text \<open>The body of \<open>start_userspace_gotatun\<close>, from its end: the upgrade, the network, the device.\<close>

definition negotiate_userspace ::
  "('w, 'm) engine_ops \<Rightarrow> wireguard_config \<Rightarrow> kernel_settings \<Rightarrow> start_request \<Rightarrow> device_slot
   \<Rightarrow> bool \<Rightarrow> (engine_state \<times> 'w, engine_error, unit) op" where
  "negotiate_userspace ops parsed settings req slot created_new =
     withS (if quantum_enabled (srq_quantum_mode req) \<or> daita_enabled (srq_daita_mode req)
            then upgrade_userspace_ephemeral ops parsed settings slot req else returnS ())
       (\<lambda>r. case r of
       Inl e \<Rightarrow> withS (cleanup_active_network_state ops) (\<lambda>c.
           updS (recover_userspace_slot ops slot created_new)
             (case c of Inr _ \<Rightarrow> throwS e | Inl e' \<Rightarrow> throwS e'))
     | Inr _ \<Rightarrow> setS (\<lambda>es. es\<lparr>es_active := Some (BUserspace slot), es_running := True\<rparr>)
           (returnS ()))"

definition connect_userspace ::
  "('w, 'm) engine_ops \<Rightarrow> wireguard_config \<Rightarrow> route_plan \<Rightarrow> kernel_settings \<Rightarrow> start_request
   \<Rightarrow> device_slot \<Rightarrow> bool \<Rightarrow> (engine_state \<times> 'w, engine_error, unit) op" where
  "connect_userspace ops parsed plan settings req slot created_new =
     withS (onW (eo_apply_network ops (srq_tun_name req) parsed plan (srq_kill_switch req)))
       (\<lambda>r. case r of
       Inl x \<Rightarrow> setS (es_report_update (\<lambda>_. Some (snd x)))
           (updS (recover_userspace_slot ops slot created_new) (throwS (NetworkErr (fst x))))
     | Inr x \<Rightarrow>
     setS (\<lambda>es. es\<lparr>es_net := Some (fst x), es_report := Some (snd x)\<rparr>)
       (negotiate_userspace ops parsed settings req slot created_new))"

definition configure_userspace_device ::
  "('w, 'm) engine_ops \<Rightarrow> kernel_settings \<Rightarrow> device_slot \<Rightarrow> (engine_state \<times> 'w, string, unit) op" where
  "configure_userspace_device ops settings slot =
     onW (eo_device_write ops (slot_device slot) (configure_commands (eo_linux ops) settings))"

definition start_userspace_gotatun ::
  "('w, 'm) engine_ops \<Rightarrow> wireguard_config \<Rightarrow> route_plan \<Rightarrow> kernel_settings \<Rightarrow> start_request
   \<Rightarrow> (engine_state \<times> 'w, engine_error, unit) op" where
  "start_userspace_gotatun ops parsed plan settings req =
     updS (\<lambda>s. if es_active (fst s) \<noteq> None then shutdown_active_backend ops s else s) (
     updS (\<lambda>s. case es_cached (fst s) of
                 Some slot \<Rightarrow> if slot_tun_name slot \<noteq> srq_tun_name req
                             then shutdown_cached_userspace_device ops s else s
               | None \<Rightarrow> s) (
     bindS (take_or_create_slot ops (srq_tun_name req)) (\<lambda>x.
     withS (configure_userspace_device ops settings (fst x)) (\<lambda>r. case r of
       Inl e \<Rightarrow> updS (recover_userspace_slot ops (fst x) (snd x)) (throwS (DeviceError e))
     | Inr _ \<Rightarrow> connect_userspace ops parsed plan settings req (fst x) (snd x)))))"

subsection \<open>\<open>start_pipeline.rs\<close>: kernel\<close>

datatype kernel_start_error = KseKernel kernel_error | KseEngine engine_error

definition into_engine_error :: "kernel_start_error \<Rightarrow> engine_error" where
  "into_engine_error e =
     (case e of KseKernel k \<Rightarrow> KernelWireGuard (show_kernel_error k) | KseEngine x \<Rightarrow> x)"

definition route_plan_has_ipv6_tunnel_routes :: "route_plan \<Rightarrow> bool" where
  "route_plan_has_ipv6_tunnel_routes p = list_ex (\<lambda>r. \<not> is_ipv4 (addr r)) (rp_allowed_routes p)"

definition discard_kernel ::
  "('w, 'm) engine_ops \<Rightarrow> string \<Rightarrow> (engine_state \<times> 'w, 'e, 'a) op \<Rightarrow> (engine_state \<times> 'w, 'e, 'a) op" where
  "discard_kernel ops name after =
     withS (onW (delete_kernel_device (eo_kernel ops) name)) (\<lambda>r.
       if is_ok r
       then withS (onW (clear_kernel_backend_journal (eo_kernel ops))) (\<lambda>_. after)
       else after)"

definition cleanup_guard_opt ::
  "('w, 'm) engine_ops \<Rightarrow> nat option \<Rightarrow> (engine_state \<times> 'w, string, unit) op" where
  "cleanup_guard_opt ops guard =
     (case guard of None \<Rightarrow> returnS () | Some g \<Rightarrow> onW (eo_cleanup_guard ops g))"

definition upgrade_kernel_ephemeral ::
  "('w, 'm) engine_ops \<Rightarrow> wireguard_config \<Rightarrow> kernel_settings \<Rightarrow> start_request
   \<Rightarrow> (engine_state \<times> 'w, kernel_start_error, unit) op" where
  "upgrade_kernel_ephemeral ops parsed settings req =
     (if daita_enabled (srq_daita_mode req)
      then throwS (KseEngine (UnsupportedBackend ''DAITA requires userspace GotaTun''))
      else case ds_peers settings of
        [] \<Rightarrow>
          let e = UnsupportedConfig ''ephemeral peer negotiation requires exactly one configured peer''
          in setS (es_last_quantum_update (\<lambda>_. Some (eph_kind e)))
               (throwS (KseEngine (EphemeralErr (show_eph_error e))))
      | base # _ \<Rightarrow>
          withS (negotiate_op ops parsed req base) (\<lambda>r. case r of
            Inl e \<Rightarrow> setS (es_last_quantum_update (\<lambda>_. Some (eph_kind e)))
               (throwS (KseEngine (EphemeralErr (show_eph_error e))))
          | Inr u \<Rightarrow>
          withS (onW (apply_ephemeral_update (eo_kernel ops) (srq_tun_name req) u)) (\<lambda>r. case r of
            Inl e \<Rightarrow> setS (es_last_quantum_update (\<lambda>_. Some EkReconfigure))
               (throwS (KseEngine (EphemeralErr
                  (''failed to apply kernel ephemeral update: '' @ show_kernel_error e))))
          | Inr _ \<Rightarrow> setS (note_outcome (update_outcome u)) (returnS ()))))"

text \<open>The body of \<open>start_linux_kernel\<close>, from its end: the removal of the traffic guard, the
  upgrade, the running mark of the journal, the network, the guard.\<close>

definition finish_kernel ::
  "('w, 'm) engine_ops \<Rightarrow> start_request \<Rightarrow> string \<Rightarrow> nat option
   \<Rightarrow> (engine_state \<times> 'w, kernel_start_error, unit) op" where
  "finish_kernel ops req dev guard =
     withS (if quantum_enabled (srq_quantum_mode req) then cleanup_guard_opt ops guard
            else returnS ()) (\<lambda>gc. case gc of
       Inl ge \<Rightarrow>
         withS (cleanup_active_network_state ops) (\<lambda>c.
         discard_kernel ops dev
           (case c of Inr _ \<Rightarrow> throwS (KseEngine (NetworkErr ge)) | Inl x \<Rightarrow> throwS (KseEngine x)))
     | Inr _ \<Rightarrow>
     setS (\<lambda>es. es\<lparr>es_active := Some (BKernel dev), es_running := True\<rparr>) (returnS ()))"

definition negotiate_kernel ::
  "('w, 'm) engine_ops \<Rightarrow> wireguard_config \<Rightarrow> kernel_settings \<Rightarrow> start_request \<Rightarrow> string
   \<Rightarrow> nat option \<Rightarrow> (engine_state \<times> 'w, kernel_start_error, unit) op" where
  "negotiate_kernel ops parsed settings req dev guard =
     withS (if quantum_enabled (srq_quantum_mode req)
            then upgrade_kernel_ephemeral ops parsed settings req else returnS ()) (\<lambda>r. case r of
       Inl e \<Rightarrow>
         withS (cleanup_guard_opt ops guard) (\<lambda>gc.
         withS (cleanup_active_network_state ops) (\<lambda>c.
         discard_kernel ops dev
           (case gc of
              Inl ge \<Rightarrow> throwS (KseEngine (NetworkErr ge))
            | Inr _ \<Rightarrow> (case c of Inr _ \<Rightarrow> throwS e | Inl x \<Rightarrow> throwS (KseEngine x)))))
     | Inr _ \<Rightarrow> finish_kernel ops req dev guard)"

definition mark_kernel ::
  "('w, 'm) engine_ops \<Rightarrow> wireguard_config \<Rightarrow> kernel_settings \<Rightarrow> start_request \<Rightarrow> string
   \<Rightarrow> nat option \<Rightarrow> (engine_state \<times> 'w, kernel_start_error, unit) op" where
  "mark_kernel ops parsed settings req dev guard =
     withS (onW (mark_kernel_device_running (eo_kernel ops) (srq_tun_name req))) (\<lambda>r. case r of
       Inl e \<Rightarrow>
         withS (cleanup_guard_opt ops guard) (\<lambda>_.
         withS (cleanup_active_network_state ops) (\<lambda>c.
         discard_kernel ops dev
           (case c of Inr _ \<Rightarrow> throwS (KseKernel e) | Inl x \<Rightarrow> throwS (KseEngine x))))
     | Inr _ \<Rightarrow> negotiate_kernel ops parsed settings req dev guard)"

definition connect_kernel ::
  "('w, 'm) engine_ops \<Rightarrow> wireguard_config \<Rightarrow> route_plan \<Rightarrow> kernel_settings \<Rightarrow> start_request
   \<Rightarrow> string \<Rightarrow> nat option \<Rightarrow> (engine_state \<times> 'w, kernel_start_error, unit) op" where
  "connect_kernel ops parsed plan settings req dev guard =
     withS (onW (eo_apply_network ops (srq_tun_name req) parsed plan (srq_kill_switch req)))
       (\<lambda>r. case r of
       Inl x \<Rightarrow>
         withS (cleanup_guard_opt ops guard) (\<lambda>_.
         setS (es_report_update (\<lambda>_. Some (snd x)))
           (discard_kernel ops dev (throwS (KseEngine (NetworkErr (fst x))))))
     | Inr x \<Rightarrow>
     setS (\<lambda>es. es\<lparr>es_net := Some (fst x), es_report := Some (snd x)\<rparr>)
       (mark_kernel ops parsed settings req dev guard))"

definition guard_kernel ::
  "('w, 'm) engine_ops \<Rightarrow> route_plan \<Rightarrow> start_request \<Rightarrow> string
   \<Rightarrow> (engine_state \<times> 'w, kernel_start_error, nat option) op" where
  "guard_kernel ops plan req dev =
     (if quantum_enabled (srq_quantum_mode req) then
        withS (onW (eo_apply_guard ops (srq_tun_name req)
                 (route_plan_has_ipv6_tunnel_routes plan))) (\<lambda>r. case r of
          Inr g \<Rightarrow> returnS (Some g)
        | Inl e \<Rightarrow> discard_kernel ops dev (throwS (KseEngine (NetworkErr e))))
      else returnS None)"

definition start_linux_kernel ::
  "('w, 'm) engine_ops \<Rightarrow> wireguard_config \<Rightarrow> route_plan \<Rightarrow> kernel_settings \<Rightarrow> start_request
   \<Rightarrow> (engine_state \<times> 'w, kernel_start_error, unit) op" where
  "start_linux_kernel ops parsed plan settings req =
     updS (\<lambda>s. if es_active (fst s) \<noteq> None then shutdown_active_backend ops s else s) (
     updS (shutdown_cached_userspace_device ops) (
     bindS (map_errS KseKernel (onW (start_kernel_device (eo_kernel ops) (srq_tun_name req) settings)))
       (\<lambda>dev.
     bindS (guard_kernel ops plan req dev) (\<lambda>guard.
     connect_kernel ops parsed plan settings req dev guard))))"

subsection \<open>\<open>start_pipeline.rs\<close>: start\<close>

definition reset_for_start :: "('w, 'm) engine_ops \<Rightarrow> engine_state \<times> 'w \<Rightarrow> engine_state \<times> 'w" where
  "reset_for_start ops s =
     (let s1 = ((fst s)\<lparr>es_report := None\<rparr>, snd s);
          s2 = (if es_active (fst s1) \<noteq> None then shutdown_active_backend ops s1 else s1)
      in ((fst s2)\<lparr>es_quantum := False, es_daita := False, es_ephemeral_key := False,
             es_last_quantum := None, es_last_daita := None\<rparr>, snd s2))"

definition check_daita ::
  "('w, 'm) engine_ops \<Rightarrow> start_request \<Rightarrow> wireguard_config \<Rightarrow> (engine_state \<times> 'w, engine_error, unit) op" where
  "check_daita ops req parsed =
     (if daita_enabled (srq_daita_mode req) then
        readS (\<lambda>s. case validate_daita_config (eo_b64_encode ops) (eo_inventory ops (snd s)) parsed of
          Inr _ \<Rightarrow> returnS ()
        | Inl e \<Rightarrow> setS (es_last_daita_update (\<lambda>_. Some (eph_kind e)))
            (throwS (EphemeralErr (show_eph_error e))))
      else returnS ())"

text \<open>The configuration as the pipelines get it: parsed and normalised.\<close>

definition load_config ::
  "('w, 'm) engine_ops \<Rightarrow> start_request \<Rightarrow> engine_error failure + wireguard_config" where
  "load_config ops req =
     (case parse_config (eo_b64_decode ops) (srq_config_text req) of
        Inl Panic \<Rightarrow> Inl Panic
      | Inl (Err e) \<Rightarrow> Inl (Err (ConfigErr e))
      | Inr c \<Rightarrow> ok_or Panic (normalize_config_for_runtime c (srq_dns req)))"

definition start_with_backend ::
  "('w, 'm) engine_ops \<Rightarrow> start_request \<Rightarrow> backend_decision \<Rightarrow> wireguard_config \<Rightarrow> kernel_settings
   \<Rightarrow> (engine_state \<times> 'w, engine_error, unit) op" where
  "start_with_backend ops req dec parsed settings =
     (let plan = build (eo_platform ops) parsed in
      case dec of
        DecUserspace \<Rightarrow> start_userspace_gotatun ops parsed plan settings req
      | DecKernel \<Rightarrow>
          if eo_linux ops then
            withS (start_linux_kernel ops parsed plan settings req) (\<lambda>r. case r of
              Inr _ \<Rightarrow> returnS ()
            | Inl e \<Rightarrow>
                if srq_preference req = PrefAuto
                   \<and> (case e of KseKernel k \<Rightarrow> is_unavailable k | KseEngine _ \<Rightarrow> False)
                then start_userspace_gotatun ops parsed plan settings req
                else throwS (into_engine_error e))
          else throwS (UnsupportedBackend ''kernel WireGuard backend is only supported on Linux''))"

definition start ::
  "('w, 'm) engine_ops \<Rightarrow> start_request \<Rightarrow> (engine_state \<times> 'w, engine_error failure, unit) op" where
  "start ops req =
     readS (\<lambda>s. if es_running (fst s) then throwS (Err AlreadyRunning) else
     updS (reset_for_start ops) (
     bindS (map_errS Err (liftS (resolve_backend (eo_linux ops) (srq_preference req)
              (srq_daita_mode req) (srq_quantum_mode req)))) (\<lambda>dec.
     bindS (liftS (load_config ops req)) (\<lambda>parsed.
     bindS (map_errS Err (check_daita ops req parsed)) (\<lambda>_.
     readS (\<lambda>s. bindS (map_errS (\<lambda>e. Err (ConfigErr e))
              (liftS (to_device_settings (eo_device_crates ops (snd s)) parsed))) (\<lambda>settings.
     map_errS Err (start_with_backend ops req dec parsed settings))))))))"

subsection \<open>\<open>snapshot.rs\<close>\<close>

datatype engine_status = Stopped | RunningStatus

definition status :: "engine_state \<Rightarrow> engine_status" where
  "status es = (if es_running es then RunningStatus else Stopped)"

record runtime_snapshot =
  rs_status :: engine_status
  rs_active_backend :: "active_backend_status option"
  rs_apply_report :: "apply_report option"
  rs_quantum_protected :: bool
  rs_last_quantum :: "eph_failure_kind option"
  rs_daita_active :: bool
  rs_last_daita :: "eph_failure_kind option"

definition snapshot :: "engine_state \<Rightarrow> runtime_snapshot" where
  "snapshot es =
     \<lparr>rs_status = status es, rs_active_backend = map_option backend_status (es_active es),
      rs_apply_report = es_report es,
      rs_quantum_protected = (es_running es \<and> es_quantum es),
      rs_last_quantum = es_last_quantum es,
      rs_daita_active = (es_running es \<and> es_daita es),
      rs_last_daita = es_last_daita es\<rparr>"

text \<open>\<open>stats\<close>, up to the source the numbers are read from.\<close>

definition stats_source :: "engine_state \<Rightarrow> engine_error + active_backend" where
  "stats_source es =
     (if \<not> es_running es then Inl NotRunning else ok_or NotRunning (es_active es))"

subsection \<open>\<open>runner.rs\<close>\<close>

definition recover_after_worker_panic ::
  "('w, 'm) engine_ops \<Rightarrow> engine_state \<times> 'w \<Rightarrow> engine_state \<times> 'w" where
  "recover_after_worker_panic ops s =
     (let report = es_report (fst s);
          s1 = snd (cleanup_active_network_state ops s);
          s2 = shutdown_cached_userspace_device ops (shutdown_active_backend ops s1)
      in ((fst s2)\<lparr>es_report := report\<rparr>, snd s2))"

definition catch_start_panic ::
  "('w, 'm) engine_ops \<Rightarrow> start_request \<Rightarrow> (engine_state \<times> 'w, engine_error, unit) op" where
  "catch_start_panic ops req =
     withS (start ops req) (\<lambda>r. case r of
       Inr _ \<Rightarrow> returnS ()
     | Inl (Err e) \<Rightarrow> throwS e
     | Inl Panic \<Rightarrow> updS (recover_after_worker_panic ops)
         (throwS (RemoteErr (''backend worker panicked while starting tunnel: ''
            @ eo_panic_message ops (srq_config_text req)))))"

text \<open>The queries of the protocol read the state only; they are one command here.\<close>

datatype command = CmdStart start_request | CmdStop | CmdQuery

fun run_command :: "('w, 'm) engine_ops \<Rightarrow> command \<Rightarrow> engine_state \<times> 'w \<Rightarrow> engine_state \<times> 'w" where
  "run_command ops (CmdStart req) s = snd (catch_start_panic ops req s)"
| "run_command ops CmdStop s = snd (stop ops s)"
| "run_command ops CmdQuery s = s"

definition finish_run :: "('w, 'm) engine_ops \<Rightarrow> engine_state \<times> 'w \<Rightarrow> engine_state \<times> 'w" where
  "finish_run ops s =
     shutdown_cached_userspace_device ops (shutdown_active_backend ops (snd (stop ops s)))"

definition run ::
  "('w, 'm) engine_ops \<Rightarrow> apply_report option \<Rightarrow> command list \<Rightarrow> 'w \<Rightarrow> engine_state \<times> 'w" where
  "run ops persisted cmds w =
     finish_run ops (fold (run_command ops) cmds (engine_initial persisted, w))"

end
