(* ===== verification/Engine_Laws.thy ===== *)
theory Engine_Laws
  imports Engine
begin

text \<open>
  Ownership in the engine. The platform hands out devices, network states and traffic
  guards; a handle is owed until it is stopped, dropped or handed to its cleanup. The
  locale states what the platform promises about the handles it has given out; inside it,
  the engine is shown to keep account of every one of them through all its rollbacks.
\<close>

subsection \<open>Handles\<close>

record owned =
  ow_devs :: "nat set"
  ow_nets :: "nat set"
  ow_guards :: "nat set"

definition same_view :: "('w \<Rightarrow> owned) \<Rightarrow> 'w \<Rightarrow> 'w \<Rightarrow> bool" where
  "same_view view w w' = (view w' = view w)"

lemma same_view_pre [simp]: "reflp (same_view view)" "transp (same_view view)"
  by (simp_all add: same_view_def reflp_def transp_def)

text \<open>No call of the kernel interface gives out or takes back a handle.\<close>

definition kernel_frames :: "('w \<Rightarrow> owned) \<Rightarrow> 'w kernel_sys \<Rightarrow> bool" where
  "kernel_frames view sys =
     (keeps (same_view view) (ks_open_route sys) \<and> (\<forall>n. keeps (same_view view) (ks_get_link sys n))
    \<and> (\<forall>n. keeps (same_view view) (ks_add_wireguard sys n))
    \<and> (\<forall>i. keeps (same_view view) (ks_del_link sys i))
    \<and> (\<forall>a. keeps (same_view view) (ks_set_device sys a)) \<and> keeps (same_view view) (ks_create_dir sys)
    \<and> (\<forall>c. keeps (same_view view) (ks_write_atomic sys c))
    \<and> keeps (same_view view) (ks_read_journal sys) \<and> keeps (same_view view) (ks_remove_journal sys)
    \<and> keeps (same_view view) (ks_rename_corrupt sys))"

lemma kernel_keeps_view:
  assumes "kernel_frames view sys"
  shows "keeps (same_view view) (write_kernel_backend_journal sys n ph)"
    and "keeps (same_view view) (load_kernel_backend_journal sys)"
    and "keeps (same_view view) (clear_kernel_backend_journal sys)"
    and "keeps (same_view view) (find_link_by_name sys n)"
    and "keeps (same_view view) (route_connection sys)"
  using assms
  by (auto simp: kernel_frames_def write_kernel_backend_journal_def load_kernel_backend_journal_def
      clear_kernel_backend_journal_def find_link_by_name_def route_connection_def
      quarantine_kernel_backend_journal_def
      intro!: keeps_bindS keeps_withS keeps_map_errS split: sum.split read_error.split
      remove_error.split if_split)

lemma kernel_device_keeps_view:
  assumes "kernel_frames view sys"
  shows "keeps (same_view view) (delete_kernel_device sys n)"
    and "keeps (same_view view) (create_wireguard_link sys n)"
    and "keeps (same_view view) (set_wireguard_config sys a c)"
  using assms kernel_keeps_view [OF assms]
  by (auto simp: kernel_frames_def delete_kernel_device_def create_wireguard_link_def
      set_wireguard_config_def
      intro!: keeps_bindS keeps_withS keeps_map_errS split: option.split)

lemma start_keeps_view:
  assumes "kernel_frames view sys"
  shows "keeps (same_view view) (start_kernel_device sys n s)"
  using kernel_keeps_view [OF assms] kernel_device_keeps_view [OF assms]
  by (auto simp: start_kernel_device_def cleanup_journaled_link_before_create_def
      configure_wireguard_device_def discard_link_def
      intro!: keeps_bindS keeps_withS split: option.split sum.split)

subsection \<open>The invariant\<close>

definition es_devs :: "engine_state \<Rightarrow> nat set" where
  "es_devs es = slot_device ` (set_option (es_cached es)
     \<union> (case es_active es of Some (BUserspace slot) \<Rightarrow> {slot} | _ \<Rightarrow> {}))"

text \<open>
  The handles owed are the cached device, the active device and the network state of the
  engine state, no other; a network state belongs to a running tunnel; and no device is
  cached while a backend is active.
\<close>

definition engine_inv :: "('w \<Rightarrow> owned) \<Rightarrow> engine_state \<times> 'w \<Rightarrow> bool" where
  "engine_inv view s =
     (view (snd s) = \<lparr>ow_devs = es_devs (fst s), ow_nets = set_option (es_net (fst s)),
        ow_guards = {}\<rparr>
    \<and> (es_net (fst s) \<noteq> None \<longrightarrow> es_running (fst s))
    \<and> (es_active (fst s) \<noteq> None \<longrightarrow> es_cached (fst s) = None)
    \<and> (es_running (fst s) \<and> es_active (fst s) = None \<longrightarrow> es_net (fst s) = None))"

definition idle :: "engine_state \<Rightarrow> bool" where
  "idle es = (es_active es = None \<and> es_net es = None \<and> \<not> es_running es)"

text \<open>What a start leaves: a running backend with its network state, or nothing.\<close>

definition start_post :: "('w \<Rightarrow> owned) \<Rightarrow> 'e + unit \<Rightarrow> engine_state \<times> 'w \<Rightarrow> bool" where
  "start_post view r s =
     (engine_inv view s
    \<and> (if is_ok r then es_running (fst s) \<and> es_active (fst s) \<noteq> None \<and> es_net (fst s) \<noteq> None
       else idle (fst s)))"

text \<open>
  A stop always hands the network state to its cleanup, and a successful one leaves the
  engine idle.
\<close>

definition stop_post :: "('w \<Rightarrow> owned) \<Rightarrow> 'e + unit \<Rightarrow> engine_state \<times> 'w \<Rightarrow> bool" where
  "stop_post view r s = (engine_inv view s \<and> es_net (fst s) = None
     \<and> (is_ok r \<longrightarrow> idle (fst s)))"

locale engine_platform =
  fixes ops :: "('w, 'm) engine_ops" and view :: "'w \<Rightarrow> owned"
  assumes create: "wp (eo_create_device ops n) (\<lambda>r w'. case r of
        Inl _ \<Rightarrow> view w' = view w
      | Inr d \<Rightarrow> d \<notin> ow_devs (view w)
          \<and> view w' = (view w)\<lparr>ow_devs := insert d (ow_devs (view w))\<rparr>) w"
    and write_dev: "keeps (same_view view) (eo_device_write ops d cs)"
    and clear_dev: "keeps (same_view view) (eo_clear_peers ops d)"
    and stop_dev: "view (eo_stop_device ops d w) = (view w)\<lparr>ow_devs := ow_devs (view w) - {d}\<rparr>"
    and drop_dev: "view (eo_drop_device ops d w) = (view w)\<lparr>ow_devs := ow_devs (view w) - {d}\<rparr>"
    and apply_net: "wp (eo_apply_network ops n c p k) (\<lambda>r w'. case r of
        Inl _ \<Rightarrow> view w' = view w
      | Inr x \<Rightarrow> fst x \<notin> ow_nets (view w)
          \<and> view w' = (view w)\<lparr>ow_nets := insert (fst x) (ow_nets (view w))\<rparr>) w"
    and cleanup_net: "wp (eo_cleanup_network ops i)
        (\<lambda>r w'. view w' = (view w)\<lparr>ow_nets := ow_nets (view w) - {i}\<rparr>) w"
    and apply_guard: "wp (eo_apply_guard ops n b) (\<lambda>r w'. case r of
        Inl _ \<Rightarrow> view w' = view w
      | Inr g \<Rightarrow> g \<notin> ow_guards (view w)
          \<and> view w' = (view w)\<lparr>ow_guards := insert g (ow_guards (view w))\<rparr>) w"
    and cleanup_guard: "wp (eo_cleanup_guard ops g)
        (\<lambda>r w'. view w' = (view w)\<lparr>ow_guards := ow_guards (view w) - {g}\<rparr>) w"
    and kernel: "kernel_frames view (eo_kernel ops)"
    and draw: "view (snd (eo_draw ops w)) = view w"
begin

text \<open>The laws as rules for weakest preconditions.\<close>

lemma wp_same:
  "keeps (same_view view) m \<Longrightarrow> (\<And>r w'. view w' = view w \<Longrightarrow> Q r w') \<Longrightarrow> wp m Q w"
  by (erule wp_keeps) (simp add: same_view_def)

lemmas wp_frame = wp_same [OF write_dev] wp_same [OF clear_dev]

lemma wp_kernel_config:
  assumes "\<And>r w'. view w' = view w \<Longrightarrow> Q r w'"
  shows "wp (mark_kernel_device_running (eo_kernel ops) n) Q w"
    and "wp (apply_ephemeral_update (eo_kernel ops) n u) Q w"
proof -
  show "wp (mark_kernel_device_running (eo_kernel ops) n) Q w"
    unfolding mark_kernel_device_running_def
    by (rule wp_same [OF kernel_keeps_view(1) [OF kernel]]) (rule assms)
qed (unfold apply_ephemeral_update_def,
  rule wp_same [OF kernel_device_keeps_view(3) [OF kernel]], rule assms)

lemmas wp_kernel_frame =
  wp_same [OF kernel_device_keeps_view(1) [OF kernel]]
  wp_same [OF kernel_keeps_view(3) [OF kernel]]
  wp_same [OF start_keeps_view [OF kernel]]
  wp_kernel_config

lemma wp_create:
  assumes "\<And>e w'. view w' = view w \<Longrightarrow> Q (Inl e) w'"
    and "\<And>d w'. d \<notin> ow_devs (view w) \<Longrightarrow>
      view w' = (view w)\<lparr>ow_devs := insert d (ow_devs (view w))\<rparr> \<Longrightarrow> Q (Inr d) w'"
  shows "wp (eo_create_device ops n) Q w"
  by (rule wp_mono [OF create]) (use assms in \<open>auto split: sum.splits\<close>)

lemma wp_apply_net:
  assumes "\<And>e rep w'. view w' = view w \<Longrightarrow> Q (Inl (e, rep)) w'"
    and "\<And>i rep w'. i \<notin> ow_nets (view w) \<Longrightarrow>
      view w' = (view w)\<lparr>ow_nets := insert i (ow_nets (view w))\<rparr> \<Longrightarrow> Q (Inr (i, rep)) w'"
  shows "wp (eo_apply_network ops n c p k) Q w"
  by (rule wp_mono [OF apply_net]) (use assms in \<open>auto split: sum.splits\<close>)

lemma wp_cleanup_net:
  assumes "\<And>r w'. view w' = (view w)\<lparr>ow_nets := ow_nets (view w) - {i}\<rparr> \<Longrightarrow> Q r w'"
  shows "wp (eo_cleanup_network ops i) Q w"
  by (rule wp_mono [OF cleanup_net]) (use assms in auto)

lemma wp_apply_guard:
  assumes "\<And>e w'. view w' = view w \<Longrightarrow> Q (Inl e) w'"
    and "\<And>g w'. g \<notin> ow_guards (view w) \<Longrightarrow>
      view w' = (view w)\<lparr>ow_guards := insert g (ow_guards (view w))\<rparr> \<Longrightarrow> Q (Inr g) w'"
  shows "wp (eo_apply_guard ops n b) Q w"
  by (rule wp_mono [OF apply_guard]) (use assms in \<open>auto split: sum.splits\<close>)

lemma wp_cleanup_guard:
  assumes "\<And>r w'. view w' = (view w)\<lparr>ow_guards := ow_guards (view w) - {g}\<rparr> \<Longrightarrow> Q r w'"
  shows "wp (eo_cleanup_guard ops g) Q w"
  by (rule wp_mono [OF cleanup_guard]) (use assms in auto)

subsection \<open>The parts of the pipelines\<close>

lemma wp_cleanup_active:
  assumes "\<And>r w'. view w' = (view w)\<lparr>ow_nets := ow_nets (view w) - set_option (es_net es)\<rparr>
      \<Longrightarrow> Q r (es\<lparr>es_net := None\<rparr>, w')"
  shows "wp (cleanup_active_network_state ops) Q (es, w)"
proof (cases "es_net es")
  case None
  then have "es\<lparr>es_net := None\<rparr> = es" by simp
  with None assms [of w "Inr ()"] show ?thesis
    by (simp add: cleanup_active_network_state_def wp_rules)
next
  case (Some n)
  then show ?thesis using assms
    by (auto simp: cleanup_active_network_state_def wp_rules intro!: wp_cleanup_net)
qed

lemma view_shutdown_active:
  "view (snd (shutdown_active_backend ops (es, w))) = (view w)\<lparr>ow_devs := ow_devs (view w)
      - (case es_active es of Some (BUserspace slot) \<Rightarrow> {slot_device slot} | _ \<Rightarrow> {})\<rparr>"
proof (cases "es_active es")
  case None
  then show ?thesis by (simp add: shutdown_active_backend_def)
next
  case (Some b)
  show ?thesis
  proof (cases b)
    case (BUserspace slot)
    with Some show ?thesis
      by (simp add: shutdown_active_backend_def stop_userspace_slot_def stop_dev)
  next
    case (BKernel n)
    obtain r w1 where d: "delete_kernel_device (eo_kernel ops) n w = (r, w1)" by fastforce
    then have "view w1 = view w"
      using keepsD [OF kernel_device_keeps_view(1) [OF kernel]] by (simp add: same_view_def)
    moreover obtain r2 w2 where c: "clear_kernel_backend_journal (eo_kernel ops) w1 = (r2, w2)"
      by fastforce
    then have "view w2 = view w1"
      using keepsD [OF kernel_keeps_view(3) [OF kernel]] by (simp add: same_view_def)
    ultimately show ?thesis using Some BKernel d
      by (simp add: shutdown_active_backend_def c split: sum.split)
  qed
qed

lemma fst_shutdown_active:
  "fst (shutdown_active_backend ops (es, w))
     = (clear_run_flags es)\<lparr>es_active := None, es_net := None, es_report := None\<rparr>"
  by (simp add: shutdown_active_backend_def)

lemma shutdown_cached:
  "fst (shutdown_cached_userspace_device ops (es, w)) = es\<lparr>es_cached := None\<rparr>"
  "view (snd (shutdown_cached_userspace_device ops (es, w)))
     = (view w)\<lparr>ow_devs := ow_devs (view w) - slot_device ` set_option (es_cached es)\<rparr>"
  by (auto simp: shutdown_cached_userspace_device_def stop_userspace_slot_def stop_dev
      split: option.split)

lemma shutdown_active_inv:
  assumes "engine_inv view s" "es_net (fst s) = None"
  shows "engine_inv view (shutdown_active_backend ops s)"
    and "idle (fst (shutdown_active_backend ops s))"
    and "es_cached (fst (shutdown_active_backend ops s)) = es_cached (fst s)"
proof -
  obtain es w where s: "s = (es, w)" by fastforce
  show "engine_inv view (shutdown_active_backend ops s)"
    using assms
    by (auto simp: s engine_inv_def es_devs_def view_shutdown_active fst_shutdown_active
        clear_run_flags_def split: option.splits active_backend.splits)
  show "idle (fst (shutdown_active_backend ops s))"
    by (simp add: s fst_shutdown_active idle_def clear_run_flags_def)
  show "es_cached (fst (shutdown_active_backend ops s)) = es_cached (fst s)"
    by (simp add: s fst_shutdown_active clear_run_flags_def)
qed

lemma shutdown_cached_inv:
  assumes "engine_inv view s" "idle (fst s)"
  shows "engine_inv view (shutdown_cached_userspace_device ops s)"
    and "idle (fst (shutdown_cached_userspace_device ops s))"
    and "es_cached (fst (shutdown_cached_userspace_device ops s)) = None"
  using assms by (cases s; auto simp: shutdown_cached engine_inv_def es_devs_def idle_def)+

text \<open>An operation that only writes the flags of the negotiation.\<close>

definition flags_only :: "engine_state \<Rightarrow> engine_state \<Rightarrow> bool" where
  "flags_only es es' =
     (es_cached es' = es_cached es \<and> es_active es' = es_active es \<and> es_net es' = es_net es
    \<and> es_running es' = es_running es)"

lemma wp_negotiate:
  assumes "\<And>r w'. view w' = view w \<Longrightarrow> Q r (es, w')"
  shows "wp (negotiate_op ops c req base) Q (es, w)"
  using assms draw [of w]
  by (auto simp: negotiate_op_def onW_def wp_def split: prod.splits)

lemma flags_only_notes [simp]:
  "flags_only es (note_failure req k es)" "flags_only es (note_outcome u es)"
  "flags_only es (es\<lparr>es_last_quantum := x\<rparr>)" "flags_only es (es\<lparr>es_last_daita := x\<rparr>)"
  by (auto simp: flags_only_def note_failure_def note_outcome_def Let_def)

lemma wp_upgrade_userspace:
  assumes "\<And>r es' w'. view w' = view w \<Longrightarrow> flags_only es es' \<Longrightarrow> Q r (es', w')"
  shows "wp (upgrade_userspace_ephemeral ops c s slot req) Q (es, w)"
  using assms
  by (auto simp: upgrade_userspace_ephemeral_def upgrade_tunnel_def wp_rules Let_def
      intro!: wp_negotiate wp_frame split: list.split sum.split)

lemma wp_upgrade_kernel:
  assumes "\<And>r es' w'. view w' = view w \<Longrightarrow> flags_only es es' \<Longrightarrow> Q r (es', w')"
  shows "wp (upgrade_kernel_ephemeral ops c s req) Q (es, w)"
proof -
  have "flags_only es es" by (simp add: flags_only_def)
  then show ?thesis using assms
    by (auto simp: upgrade_kernel_ephemeral_def wp_rules Let_def
        intro!: wp_negotiate wp_kernel_frame split: list.split sum.split)
qed

lemma recover_slot:
  assumes "view w = \<lparr>ow_devs = {slot_device slot}, ow_nets = {}, ow_guards = {}\<rparr>"
    and "es_cached es = None" "idle es"
  shows "engine_inv view (recover_userspace_slot ops slot c (es, w))"
    and "idle (fst (recover_userspace_slot ops slot c (es, w)))"
proof -
  obtain r w1 where c: "eo_clear_peers ops (slot_device slot) w = (r, w1)" by fastforce
  then have "view w1 = view w"
    using keepsD [OF clear_dev] by (simp add: same_view_def)
  then show "engine_inv view (recover_userspace_slot ops slot c (es, w))"
    and "idle (fst (recover_userspace_slot ops slot c (es, w)))"
    using assms c
    by (auto simp: recover_userspace_slot_def cache_cleared_userspace_slot_def engine_inv_def
        es_devs_def stop_userspace_slot_def stop_dev idle_def split: sum.split)
qed

subsection \<open>Starting\<close>

lemma wp_take_slot:
  assumes "engine_inv view (es, w)" "idle es"
    and "\<And>e w'. view w' = view w \<Longrightarrow> Q (Inl e) (es, w')"
    and "\<And>slot c w'. view w' = \<lparr>ow_devs = {slot_device slot}, ow_nets = {}, ow_guards = {}\<rparr>
      \<Longrightarrow> Q (Inr (slot, c)) (es\<lparr>es_cached := None\<rparr>, w')"
  shows "wp (take_or_create_slot ops n) Q (es, w)"
proof (cases "es_cached es")
  case None
  then have "es\<lparr>es_cached := None\<rparr> = es" by simp
  moreover have "view w = \<lparr>ow_devs = {}, ow_nets = {}, ow_guards = {}\<rparr>"
    using assms(1,2) None by (simp add: engine_inv_def es_devs_def idle_def)
  moreover have "Q (Inr (\<lparr>slot_device = d, slot_tun_name = n\<rparr>, True)) (es, w')"
    if "view w' = \<lparr>ow_devs = {d}, ow_nets = {}, ow_guards = {}\<rparr>" for d w'
    using assms(4) [of w' "\<lparr>slot_device = d, slot_tun_name = n\<rparr>" True] that calculation(1)
    by simp
  ultimately have "wp (eo_create_device ops n) (\<lambda>r v'.
      case map_err DeviceError r of Inl e \<Rightarrow> Q (Inl e) (es, v')
      | Inr x \<Rightarrow> Q (Inr (\<lparr>slot_device = x, slot_tun_name = n\<rparr>, True)) (es, v')) w"
    using assms(3) by (intro wp_create) simp_all
  then show ?thesis using None
    by (simp add: take_or_create_slot_def wp_rules)
      (erule wp_mono, auto simp: wp_rules split: sum.splits)
next
  case (Some slot)
  then have "view w = \<lparr>ow_devs = {slot_device slot}, ow_nets = {}, ow_guards = {}\<rparr>"
    using assms(1,2) by (simp add: engine_inv_def es_devs_def idle_def)
  then show ?thesis using Some assms(4) by (simp add: take_or_create_slot_def wp_rules)
qed

lemma wp_sum [wp_rules]:
  "wp (case r of Inl e \<Rightarrow> f e | Inr x \<Rightarrow> g x) Q w
     = (case r of Inl e \<Rightarrow> wp (f e) Q w | Inr x \<Rightarrow> wp (g x) Q w)"
  by (cases r) simp_all

lemma recover_post:
  assumes "view w = \<lparr>ow_devs = {slot_device slot}, ow_nets = {}, ow_guards = {}\<rparr>"
    and "es_cached es = None" "es_active es = None" "es_net es = None" "\<not> es_running es"
  shows "start_post view (Inl e) (recover_userspace_slot ops slot c (es, w))"
  using recover_slot [OF assms(1,2)] assms(3-5) by (simp add: start_post_def idle_def)

lemma wp_opt_upgrade:
  assumes "\<And>r es' w'. view w' = view w \<Longrightarrow> flags_only es es' \<Longrightarrow> Q r (es', w')"
  shows "wp (if b then upgrade_userspace_ephemeral ops c s slot req else returnS ()) Q (es, w)"
  using assms by (auto simp: wp_rules flags_only_def intro!: wp_upgrade_userspace)

lemma wp_negotiate_userspace:
  assumes "view w = \<lparr>ow_devs = {slot_device slot}, ow_nets = {n}, ow_guards = {}\<rparr>"
    and "es_cached es = None" "es_active es = None" "es_net es = Some n" "\<not> es_running es"
  shows "wp (negotiate_userspace ops c s req slot b) (start_post view) (es, w)"
  unfolding negotiate_userspace_def wp_withS
proof (rule wp_opt_upgrade)
  fix r es' w' assume s: "view w' = view w" "flags_only es es'"
  show "wp (case r of
       Inl e \<Rightarrow> withS (cleanup_active_network_state ops) (\<lambda>c.
           updS (recover_userspace_slot ops slot b)
             (case c of Inr _ \<Rightarrow> throwS e | Inl e' \<Rightarrow> throwS e'))
     | Inr _ \<Rightarrow> setS (\<lambda>es. es\<lparr>es_active := Some (BUserspace slot), es_running := True\<rparr>)
           (returnS ())) (start_post view) (es', w')"
  proof (cases r)
    case (Inl e)
    then show ?thesis using assms s
      by (auto simp: wp_rules flags_only_def intro!: wp_cleanup_active recover_post split: sum.split)
  next
    case (Inr u)
    then show ?thesis using assms s
      by (simp add: wp_rules start_post_def engine_inv_def es_devs_def flags_only_def)
  qed
qed

lemma wp_connect_userspace:
  assumes "view w = \<lparr>ow_devs = {slot_device slot}, ow_nets = {}, ow_guards = {}\<rparr>"
    and "es_cached es = None" "idle es"
  shows "wp (connect_userspace ops c p s req slot b) (start_post view) (es, w)"
  using assms
  by (auto simp: connect_userspace_def wp_rules idle_def
      intro!: wp_apply_net recover_post wp_negotiate_userspace)

lemma wp_start_userspace:
  assumes "engine_inv view s" "es_net (fst s) = None" "\<not> es_running (fst s)"
  shows "wp (start_userspace_gotatun ops c p st req) (start_post view) s"
proof -
  let ?s1 = "if es_active (fst s) \<noteq> None then shutdown_active_backend ops s else s"
  have s1: "engine_inv view ?s1" "idle (fst ?s1)"
    using assms shutdown_active_inv [OF assms(1,2)] by (auto simp: idle_def)
  let ?s2 = "case es_cached (fst ?s1) of
      Some slot \<Rightarrow> if slot_tun_name slot \<noteq> srq_tun_name req
                  then shutdown_cached_userspace_device ops ?s1 else ?s1
    | None \<Rightarrow> ?s1"
  have s2: "engine_inv view ?s2" "idle (fst ?s2)"
    using s1 shutdown_cached_inv [OF s1] by (auto split: option.split)
  have "wp (bindS (take_or_create_slot ops (srq_tun_name req)) (\<lambda>x.
     withS (configure_userspace_device ops st (fst x)) (\<lambda>r. case r of
       Inl e \<Rightarrow> updS (recover_userspace_slot ops (fst x) (snd x)) (throwS (DeviceError e))
     | Inr _ \<Rightarrow> connect_userspace ops c p st req (fst x) (snd x)))) (start_post view) (es, w)"
    if "engine_inv view (es, w)" "idle es" for es w
  proof -
    have "start_post view (Inl e) (es, w')" if "view w' = view w" for e :: engine_error and w'
      using \<open>engine_inv view (es, w)\<close> \<open>idle es\<close> that by (simp add: start_post_def engine_inv_def)
    moreover have "idle (es\<lparr>es_cached := None\<rparr>)" using \<open>idle es\<close> by (simp add: idle_def)
    ultimately show ?thesis
      using that by (auto simp: wp_rules configure_userspace_device_def idle_def split: sum.split
          intro!: wp_take_slot wp_frame wp_connect_userspace recover_post)
  qed
  from this [of "fst ?s2" "snd ?s2"] s2 show ?thesis
    by (simp only: start_userspace_gotatun_def wp_updS prod.collapse)
qed

text \<open>The kernel pipeline: nothing is owed but the guard and the network state.\<close>

lemma wp_discard_kernel:
  assumes "\<And>w'. view w' = view w \<Longrightarrow> wp after Q (es, w')"
  shows "wp (discard_kernel ops n after) Q (es, w)"
  using assms by (auto simp: discard_kernel_def wp_rules intro!: wp_kernel_frame)

lemma wp_cleanup_guard_opt:
  assumes "\<And>r w'. view w' = (view w)\<lparr>ow_guards := ow_guards (view w) - set_option guard\<rparr>
      \<Longrightarrow> Q r (es, w')"
  shows "wp (cleanup_guard_opt ops guard) Q (es, w)"
  using assms
  by (cases guard) (auto simp: cleanup_guard_opt_def wp_rules intro!: wp_cleanup_guard)

definition owing :: "engine_state \<Rightarrow> nat option \<Rightarrow> 'w \<Rightarrow> bool" where
  "owing es guard w =
     (view w = \<lparr>ow_devs = {}, ow_nets = set_option (es_net es), ow_guards = set_option guard\<rparr>
    \<and> es_cached es = None \<and> es_active es = None \<and> \<not> es_running es)"

lemma owing_post: "owing es None w \<Longrightarrow> es_net es = None \<Longrightarrow> start_post view (Inl e) (es, w)"
  by (simp add: owing_def start_post_def engine_inv_def es_devs_def idle_def)

lemma owing_flags: "owing es guard w \<Longrightarrow> flags_only es es' \<Longrightarrow> view w' = view w \<Longrightarrow> owing es' guard w'"
  by (simp add: owing_def flags_only_def)

text \<open>Every failure path ends in these steps, the guard first when there is one.\<close>

lemma wp_unwind:
  assumes "owing es None w" "\<And>c. wp (after c) (start_post view) = (\<lambda>s. start_post view (Inl (x c)) s)"
  shows "wp (withS (cleanup_active_network_state ops) (\<lambda>c. discard_kernel ops n (after c)))
      (start_post view) (es, w)"
  using assms(1)
  by (auto simp: wp_rules assms(2) owing_def intro!: wp_cleanup_active wp_discard_kernel owing_post)

lemma wp_opt_guard:
  assumes "owing es guard w" "\<not> b \<longrightarrow> guard = None" "\<And>r w'. owing es None w' \<Longrightarrow> Q r (es, w')"
  shows "wp (if b then cleanup_guard_opt ops guard else returnS ()) Q (es, w)"
  using assms by (auto simp: wp_rules owing_def intro!: wp_cleanup_guard_opt)

lemma wp_finish_kernel:
  assumes "owing es guard w" "es_net es = Some i"
    and "\<not> quantum_enabled (srq_quantum_mode req) \<longrightarrow> guard = None"
  shows "wp (finish_kernel ops req dev guard) (start_post view) (es, w)"
  unfolding finish_kernel_def wp_withS [of "if _ then _ else _"]
proof (rule wp_opt_guard [OF assms(1,3)])
  fix r w' assume o: "owing es None w'"
  show "wp (case r of
       Inl ge \<Rightarrow>
         withS (cleanup_active_network_state ops) (\<lambda>c.
         discard_kernel ops dev
           (case c of Inr _ \<Rightarrow> throwS (KseEngine (NetworkErr ge)) | Inl x \<Rightarrow> throwS (KseEngine x)))
     | Inr _ \<Rightarrow> setS (\<lambda>es. es\<lparr>es_active := Some (BKernel dev), es_running := True\<rparr>) (returnS ()))
     (start_post view) (es, w')"
  proof (cases r)
    case (Inl ge)
    have "wp (case c of Inr _ \<Rightarrow> throwS (KseEngine (NetworkErr ge)) | Inl x \<Rightarrow> throwS (KseEngine x))
        (start_post view)
      = (\<lambda>s. start_post view (Inl (case c of Inr _ \<Rightarrow> KseEngine (NetworkErr ge) | Inl x \<Rightarrow> KseEngine x)) s)"
      for c :: "engine_error + unit"
      by (cases c) (simp_all add: wp_rules fun_eq_iff)
    with Inl o show ?thesis by (simp add: wp_unwind)
  next
    case (Inr u)
    then show ?thesis using o assms(2)
      by (simp add: wp_rules start_post_def engine_inv_def es_devs_def owing_def)
  qed
qed

lemma wp_opt_upgrade_kernel:
  assumes "\<And>r es' w'. view w' = view w \<Longrightarrow> flags_only es es' \<Longrightarrow> Q r (es', w')"
  shows "wp (if b then upgrade_kernel_ephemeral ops c s req else returnS ()) Q (es, w)"
  using assms by (auto simp: wp_rules flags_only_def intro!: wp_upgrade_kernel)

lemma wp_negotiate_kernel:
  assumes "owing es guard w" "es_net es = Some i"
    and "\<not> quantum_enabled (srq_quantum_mode req) \<longrightarrow> guard = None"
  shows "wp (negotiate_kernel ops c s req dev guard) (start_post view) (es, w)"
proof -
  have body: "wp (case r of
       Inl e \<Rightarrow>
         withS (cleanup_guard_opt ops guard) (\<lambda>gc.
         withS (cleanup_active_network_state ops) (\<lambda>c.
         discard_kernel ops dev
           (case gc of
              Inl ge \<Rightarrow> throwS (KseEngine (NetworkErr ge))
            | Inr _ \<Rightarrow> (case c of Inr _ \<Rightarrow> throwS e | Inl x \<Rightarrow> throwS (KseEngine x)))))
     | Inr _ \<Rightarrow> finish_kernel ops req dev guard) (start_post view) (es', w')"
    if o: "owing es' guard w'" and n: "es_net es' = Some i" for r :: "kernel_start_error + unit" and es' w'
  proof (cases r)
    case (Inl e)
    have "wp (case gc of Inl ge \<Rightarrow> throwS (KseEngine (NetworkErr ge))
            | Inr _ \<Rightarrow> (case c of Inr _ \<Rightarrow> throwS e | Inl x \<Rightarrow> throwS (KseEngine x))) (start_post view)
      = (\<lambda>s. start_post view (Inl (case gc of Inl ge \<Rightarrow> KseEngine (NetworkErr ge)
            | Inr _ \<Rightarrow> (case c of Inr _ \<Rightarrow> e | Inl x \<Rightarrow> KseEngine x))) s)"
      for gc :: "string + unit" and c :: "engine_error + unit"
      by (cases gc; cases c) (simp_all add: wp_rules fun_eq_iff)
    moreover have "owing es' None w''"
      if "view w'' = (view w')\<lparr>ow_guards := ow_guards (view w') - set_option guard\<rparr>" for w''
      using o that by (simp add: owing_def)
    ultimately show ?thesis using Inl
      by (auto simp only: sum.case wp_withS [of "cleanup_guard_opt ops guard"]
          intro!: wp_cleanup_guard_opt wp_unwind)
  next
    case (Inr u)
    then show ?thesis using o n assms(3) by (simp add: wp_finish_kernel)
  qed
  show ?thesis
    unfolding negotiate_kernel_def wp_withS [of "if _ then _ else _"]
    by (rule wp_opt_upgrade_kernel)
      (use assms(1,2) in \<open>auto intro!: body elim: owing_flags simp: flags_only_def\<close>)
qed

lemma wp_mark_kernel:
  assumes "owing es guard w" "es_net es = Some i"
    and "\<not> quantum_enabled (srq_quantum_mode req) \<longrightarrow> guard = None"
  shows "wp (mark_kernel ops c s req dev guard) (start_post view) (es, w)"
proof -
  have "wp (withS (cleanup_guard_opt ops guard) (\<lambda>_.
         withS (cleanup_active_network_state ops) (\<lambda>c.
         discard_kernel ops dev
           (case c of Inr _ \<Rightarrow> throwS (KseKernel e) | Inl x \<Rightarrow> throwS (KseEngine x)))))
       (start_post view) (es, w')" if "view w' = view w" for e w'
  proof -
    have "wp (case c of Inr _ \<Rightarrow> throwS (KseKernel e) | Inl x \<Rightarrow> throwS (KseEngine x)) (start_post view)
      = (\<lambda>s. start_post view (Inl (case c of Inr _ \<Rightarrow> KseKernel e | Inl x \<Rightarrow> KseEngine x)) s)"
      for c :: "engine_error + unit"
      by (cases c) (simp_all add: wp_rules fun_eq_iff)
    moreover have "owing es None w''"
      if "view w'' = (view w')\<lparr>ow_guards := ow_guards (view w') - set_option guard\<rparr>" for w''
      using assms(1) that \<open>view w' = view w\<close> by (simp add: owing_def)
    ultimately show ?thesis
      by (auto simp only: wp_withS [of "cleanup_guard_opt ops guard"]
          intro!: wp_cleanup_guard_opt wp_unwind)
  qed
  moreover have "owing es guard w'" if "view w' = view w" for w'
    using assms(1) that by (simp add: owing_def)
  ultimately show ?thesis
    unfolding mark_kernel_def wp_withS [of "onW _"] wp_state wp_sum
    using assms(2,3) by (auto split: sum.split intro!: wp_kernel_frame wp_negotiate_kernel)
qed

lemma wp_connect_kernel:
  assumes "owing es guard w" "es_net es = None"
    and "\<not> quantum_enabled (srq_quantum_mode req) \<longrightarrow> guard = None"
  shows "wp (connect_kernel ops c p s req dev guard) (start_post view) (es, w)"
  using assms
  by (auto simp: connect_kernel_def wp_rules owing_def
      intro!: wp_apply_net wp_cleanup_guard_opt wp_discard_kernel owing_post wp_mark_kernel)

lemma wp_guard_kernel:
  assumes "owing es None w" "es_net es = None"
    and "\<And>e w'. owing es None w' \<Longrightarrow> Q (Inl e) (es, w')"
    and "\<And>g w'. owing es g w' \<Longrightarrow> \<not> quantum_enabled (srq_quantum_mode req) \<longrightarrow> g = None
      \<Longrightarrow> Q (Inr g) (es, w')"
  shows "wp (guard_kernel ops p req dev) Q (es, w)"
  using assms
  by (auto simp: guard_kernel_def wp_rules owing_def intro!: wp_apply_guard wp_discard_kernel)

lemma wp_start_kernel:
  assumes "engine_inv view s" "es_net (fst s) = None" "\<not> es_running (fst s)"
  shows "wp (start_linux_kernel ops c p st req) (start_post view) s"
proof -
  let ?s1 = "if es_active (fst s) \<noteq> None then shutdown_active_backend ops s else s"
  have s1: "engine_inv view ?s1" "idle (fst ?s1)"
    using assms shutdown_active_inv [OF assms(1,2)] by (auto simp: idle_def)
  let ?s2 = "shutdown_cached_userspace_device ops ?s1"
  have "owing (fst ?s2) None (snd ?s2)" "es_net (fst ?s2) = None"
    using shutdown_cached_inv [OF s1] by (auto simp: owing_def idle_def engine_inv_def es_devs_def)
  note s2 = this
  have body: "wp (bindS (map_errS KseKernel (onW (start_kernel_device (eo_kernel ops)
         (srq_tun_name req) st))) (\<lambda>dev. bindS (guard_kernel ops p req dev) (\<lambda>guard.
     connect_kernel ops c p st req dev guard))) (start_post view) (es, w)"
    if o: "owing es None w" and n: "es_net es = None" for es w
  proof -
    have "wp (bindS (guard_kernel ops p req dev) (\<lambda>guard. connect_kernel ops c p st req dev guard))
        (start_post view) (es, w')" if "owing es None w'" for dev w'
      using that n by (auto simp: wp_rules intro!: wp_guard_kernel owing_post wp_connect_kernel)
    moreover have "owing es None w'" if "view w' = view w" for w'
      using o that by (simp add: owing_def)
    ultimately show ?thesis
      using n by (auto simp only: wp_bindS [of "map_errS _ _"] wp_map_errS wp_state split: sum.split
          intro!: wp_kernel_frame owing_post)
  qed
  show ?thesis
    using body [OF s2] by (simp only: start_linux_kernel_def wp_updS prod.collapse)
qed

lemma wp_start_backend:
  assumes "engine_inv view s" "es_net (fst s) = None" "\<not> es_running (fst s)"
    and "idle (fst s)"
  shows "wp (start_with_backend ops req dec c st) (start_post view) s"
proof (cases "dec = DecKernel \<and> eo_linux ops")
  case False
  then show ?thesis
    using assms wp_start_userspace [OF assms(1-3)]
    by (cases dec) (auto simp: start_with_backend_def Let_def wp_rules start_post_def)
next
  case True
  let ?p = "build (eo_platform ops) c"
  have "wp (case r of Inr _ \<Rightarrow> returnS ()
            | Inl e \<Rightarrow>
                if srq_preference req = PrefAuto
                   \<and> (case e of KseKernel k \<Rightarrow> is_unavailable k | KseEngine _ \<Rightarrow> False)
                then start_userspace_gotatun ops c ?p st req
                else throwS (into_engine_error e)) (start_post view) s'"
    if "start_post view r s'" for r s'
  proof (cases r)
    case (Inl e)
    then have "engine_inv view s'" "es_net (fst s') = None" "\<not> es_running (fst s')" "idle (fst s')"
      using that by (auto simp: start_post_def idle_def)
    with Inl wp_start_userspace [of s'] show ?thesis by (auto simp: wp_rules start_post_def)
  next
    case (Inr u)
    with that show ?thesis by (simp add: wp_rules start_post_def)
  qed
  then have "wp (withS (start_linux_kernel ops c ?p st req) (\<lambda>r. case r of Inr _ \<Rightarrow> returnS ()
            | Inl e \<Rightarrow>
                if srq_preference req = PrefAuto
                   \<and> (case e of KseKernel k \<Rightarrow> is_unavailable k | KseEngine _ \<Rightarrow> False)
                then start_userspace_gotatun ops c ?p st req
                else throwS (into_engine_error e))) (start_post view) s"
    unfolding wp_withS by (rule wp_mono [OF wp_start_kernel [OF assms(1-3)]])
  moreover have "dec = DecKernel" "eo_linux ops = True" using True by simp_all
  ultimately show ?thesis
    by (simp only: start_with_backend_def Let_def backend_decision.case if_True)
qed

lemma reset_inv:
  assumes "engine_inv view s" "\<not> es_running (fst s)"
  shows "engine_inv view (reset_for_start ops s)" "idle (fst (reset_for_start ops s))"
proof -
  have net: "es_net (fst s) = None" using assms by (auto simp: engine_inv_def)
  let ?s = "((fst s)\<lparr>es_report := None\<rparr>, snd s)"
  have "engine_inv view ?s" "es_net (fst ?s) = None"
    using assms(1) net by (simp_all add: engine_inv_def es_devs_def)
  from shutdown_active_inv [OF this] show "engine_inv view (reset_for_start ops s)"
    "idle (fst (reset_for_start ops s))"
    using assms net
    by (auto simp: reset_for_start_def Let_def engine_inv_def es_devs_def idle_def)
qed

text \<open>A start either refuses and changes nothing, or leaves what \<open>start_post\<close> says.\<close>

lemma wp_start:
  assumes "engine_inv view s" "\<not> es_running (fst s)"
  shows "wp (start ops req) (start_post view) s"
proof -
  obtain es w where s: "reset_for_start ops s = (es, w)" by fastforce
  have i: "engine_inv view (es, w)" "idle es" using reset_inv [OF assms] by (simp_all add: s)
  have err: "start_post view (Inl e) (es', w)"
    if "flags_only es es'" for e :: "engine_error failure" and es'
    using i that by (simp add: start_post_def engine_inv_def es_devs_def idle_def flags_only_def)
  have refl: "flags_only es es" by (simp add: flags_only_def)
  have run: "wp (map_errS Err (start_with_backend ops req dec c st)) (start_post view) (es, w)" for dec c st
    using wp_start_backend [of "(es, w)" req dec c st] i
    by (auto simp: wp_map_errS idle_def start_post_def map_err_def elim!: wp_mono split: sum.splits)
  have "wp (bindS (map_errS Err (liftS (resolve_backend (eo_linux ops) (srq_preference req)
              (srq_daita_mode req) (srq_quantum_mode req)))) (\<lambda>dec.
     bindS (liftS (load_config ops req)) (\<lambda>parsed.
     bindS (map_errS Err (check_daita ops req parsed)) (\<lambda>_.
     readS (\<lambda>s. bindS (map_errS (\<lambda>e. Err (ConfigErr e))
              (liftS (to_device_settings (eo_device_crates ops (snd s)) parsed))) (\<lambda>settings.
     map_errS Err (start_with_backend ops req dec parsed settings)))))))
    (start_post view) (es, w)"
    by (auto simp: wp_rules check_daita_def map_err_def run [unfolded wp_map_errS map_err_def]
        intro!: err refl split: sum.split option.split)
  then show ?thesis using assms(2) s
    by (cases s) (simp add: start_def wp_state(4) wp_updS)
qed

subsection \<open>Stopping, panics and the command loop\<close>

lemma wp_stop_active:
  assumes "engine_inv view (es, w)" "es_net es = None"
  shows "wp (stop_active_backend ops) (\<lambda>r s. engine_inv view s \<and> es_net (fst s) = None
      \<and> es_running (fst s) = es_running es \<and> (is_ok r \<longrightarrow> es_active (fst s) = None)) (es, w)"
proof (cases "es_active es")
  case None
  then show ?thesis using assms by (simp add: stop_active_backend_def wp_rules)
next
  case (Some b)
  with assms have c: "es_cached es = None" by (simp add: engine_inv_def)
  show ?thesis
  proof (cases b)
    case (BUserspace slot)
    with Some c assms show ?thesis
      by (auto simp: stop_active_backend_def wp_rules engine_inv_def es_devs_def stop_userspace_slot_def
          stop_dev drop_dev intro!: wp_frame split: sum.split)
  next
    case (BKernel n)
    with Some c assms show ?thesis
      by (auto simp: stop_active_backend_def wp_rules engine_inv_def es_devs_def
          intro!: wp_kernel_frame split: sum.split)
  qed
qed

lemma wp_stop:
  assumes "engine_inv view s" "es_running (fst s)"
  shows "wp (stop ops) (stop_post view) s"
proof -
  obtain es w where s: "s = (es, w)" by fastforce
  let ?es = "es\<lparr>es_net := None\<rparr>"
  have inv: "engine_inv view (?es, w')"
    if "view w' = (view w)\<lparr>ow_nets := ow_nets (view w) - set_option (es_net es)\<rparr>" for w'
    using assms that by (auto simp: s engine_inv_def es_devs_def)
  have "wp (withS (stop_active_backend ops) (\<lambda>r. case r of
       Inl e \<Rightarrow>
         if is_ok cleanup
         then setS (\<lambda>es. (clear_run_flags es)\<lparr>es_report := None\<rparr>) (throwS e)
         else throwS e
     | Inr _ \<Rightarrow> setS (\<lambda>es. (clear_run_flags es)\<lparr>es_report := None\<rparr>) (liftS cleanup)))
     (stop_post view) (?es, w')"
    if "engine_inv view (?es, w')" for cleanup w'
    using wp_stop_active [OF that]
    by (simp add: wp_withS, elim wp_mono)
      (auto simp: wp_rules stop_post_def engine_inv_def es_devs_def clear_run_flags_def idle_def
        split: sum.split)
  with inv show ?thesis using assms(2)
    by (simp add: s stop_def wp_state(4) wp_withS wp_cleanup_active)
qed

lemma recover_panic_inv:
  assumes "engine_inv view s" "idle (fst s)"
  shows "engine_inv view (recover_after_worker_panic ops s)"
    and "idle (fst (recover_after_worker_panic ops s))"
proof -
  have "snd (cleanup_active_network_state ops s) = s"
    using assms(2) by (cases s)
      (simp add: cleanup_active_network_state_def readS_def returnS_def idle_def)
  note s1 = this
  have net: "es_net (fst s) = None" using assms(2) by (simp add: idle_def)
  note A = shutdown_active_inv [OF assms(1) net]
  note B = shutdown_cached_inv [OF A(1,2)]
  show "engine_inv view (recover_after_worker_panic ops s)"
    "idle (fst (recover_after_worker_panic ops s))"
    using B by (simp_all add: recover_after_worker_panic_def s1 Let_def engine_inv_def es_devs_def
        idle_def)
qed

lemma wp_catch_start:
  assumes "engine_inv view s" "\<not> es_running (fst s)"
  shows "wp (catch_start_panic ops req) (start_post view) s"
  unfolding catch_start_panic_def wp_withS
proof (rule wp_mono [OF wp_start [OF assms]])
  fix r :: "engine_error failure + unit" and s'
  assume p: "start_post view r s'"
  show "wp (case r of
       Inr _ \<Rightarrow> returnS ()
     | Inl (Err e) \<Rightarrow> throwS e
     | Inl Panic \<Rightarrow> updS (recover_after_worker_panic ops)
         (throwS (RemoteErr (''backend worker panicked while starting tunnel: ''
            @ eo_panic_message ops (srq_config_text req))))) (start_post view) s'"
  proof (cases r)
    case (Inl f)
    then have "engine_inv view s'" "idle (fst s')" using p by (simp_all add: start_post_def)
    with Inl recover_panic_inv [of s'] show ?thesis
      by (cases f) (simp_all add: wp_pure wp_updS start_post_def)
  next
    case (Inr u)
    with p show ?thesis by (simp add: wp_pure start_post_def)
  qed
qed

lemma catch_start_running:
  "es_running (fst s) \<Longrightarrow> catch_start_panic ops req s = (Inl AlreadyRunning, s)"
  by (simp add: catch_start_panic_def withS_def start_def readS_def throwS_def)

lemma stop_idle: "\<not> es_running (fst s) \<Longrightarrow> stop ops s = (Inl NotRunning, s)"
  by (simp add: stop_def readS_def throwS_def)

lemma run_command_inv:
  assumes "engine_inv view s"
  shows "engine_inv view (run_command ops c s)"
proof (cases c)
  case (CmdStart req)
  show ?thesis
  proof (cases "es_running (fst s)")
    case True
    with assms CmdStart show ?thesis by (simp add: catch_start_running)
  next
    case False
    obtain r s' where "catch_start_panic ops req s = (r, s')"
      by (cases "catch_start_panic ops req s") blast
    with wpD [OF wp_catch_start [OF assms False] this] CmdStart show ?thesis
      by (simp add: start_post_def)
  qed
next
  case CmdStop
  obtain r s' where "stop ops s = (r, s')" by (cases "stop ops s") blast
  with wpD [OF wp_stop [OF assms] this] CmdStop assms stop_idle [of s] show ?thesis
    by (cases "es_running (fst s)") (auto simp: stop_post_def)
qed (use assms in simp)

lemma finish_run_empty:
  assumes "engine_inv view s"
  shows "view (snd (finish_run ops s)) = \<lparr>ow_devs = {}, ow_nets = {}, ow_guards = {}\<rparr>"
proof -
  obtain r s1 where st: "stop ops s = (r, s1)" by (cases "stop ops s") blast
  have "engine_inv view s1 \<and> es_net (fst s1) = None"
  proof (cases "es_running (fst s)")
    case True
    from wpD [OF wp_stop [OF assms True] st] show ?thesis by (simp add: stop_post_def)
  next
    case False
    with st stop_idle [OF False, of] assms show ?thesis by (auto simp: engine_inv_def)
  qed
  then have A: "engine_inv view (shutdown_active_backend ops s1)"
    "idle (fst (shutdown_active_backend ops s1))"
    by (simp_all add: shutdown_active_inv)
  note B = shutdown_cached_inv [OF A]
  show ?thesis
    using B by (simp add: finish_run_def st engine_inv_def es_devs_def idle_def)
qed

end

end
