(* ===== verification/Engine_Sim.thy ===== *)
theory Engine_Sim
  imports Engine_Laws Config_Sample
begin

text \<open>
  A platform for the engine: handles are numbers taken from a counter, the kernel interface
  is the simulated system, and a schedule of faults decides which calls fail. The laws of
  \<open>engine_platform\<close> hold of it for every schedule.
\<close>

record plat_world =
  pw_kernel :: sim_world
  pw_owned :: owned
  pw_next :: nat
  pw_faults :: "bool list"

definition plat_call :: "'e \<Rightarrow> ('e + 'a) \<times> plat_world \<Rightarrow> plat_world \<Rightarrow> ('e + 'a) \<times> plat_world" where
  "plat_call e ok w =
     (case pw_faults w of
        [] \<Rightarrow> ok
      | f # fs \<Rightarrow> if f then (Inl e, w\<lparr>pw_faults := fs\<rparr>)
                else (fst ok, (snd ok)\<lparr>pw_faults := fs\<rparr>))"

definition on_kernel :: "(sim_world, 'e, 'a) op \<Rightarrow> (plat_world, 'e, 'a) op" where
  "on_kernel m w = (case m (pw_kernel w) of (r, k) \<Rightarrow> (r, w\<lparr>pw_kernel := k\<rparr>))"

definition plat_sys :: "plat_world kernel_sys" where
  "plat_sys =
     \<lparr>ks_open_route = on_kernel (ks_open_route sim_sys),
      ks_get_link = (\<lambda>n. on_kernel (ks_get_link sim_sys n)),
      ks_add_wireguard = (\<lambda>n. on_kernel (ks_add_wireguard sim_sys n)),
      ks_del_link = (\<lambda>i. on_kernel (ks_del_link sim_sys i)),
      ks_set_device = (\<lambda>a. on_kernel (ks_set_device sim_sys a)),
      ks_create_dir = on_kernel (ks_create_dir sim_sys),
      ks_write_atomic = (\<lambda>c. on_kernel (ks_write_atomic sim_sys c)),
      ks_read_journal = on_kernel (ks_read_journal sim_sys),
      ks_remove_journal = on_kernel (ks_remove_journal sim_sys),
      ks_rename_corrupt = on_kernel (ks_rename_corrupt sim_sys),
      ks_encode = ks_encode sim_sys, ks_decode = ks_decode sim_sys\<rparr>"

text \<open>A new handle of one of the three kinds, given out unless it is still owed.\<close>

definition plat_take ::
  "(owned \<Rightarrow> nat set) \<Rightarrow> ((nat set \<Rightarrow> nat set) \<Rightarrow> owned \<Rightarrow> owned) \<Rightarrow> 'e \<Rightarrow> (nat \<Rightarrow> 'a)
   \<Rightarrow> (plat_world, 'e, 'a) op" where
  "plat_take get upd e ok w =
     (if pw_next w \<in> get (pw_owned w) then (Inl e, w)
      else plat_call e
        (Inr (ok (pw_next w)),
         w\<lparr>pw_owned := upd (insert (pw_next w)) (pw_owned w), pw_next := Suc (pw_next w)\<rparr>) w)"

definition plat_give ::
  "((nat set \<Rightarrow> nat set) \<Rightarrow> owned \<Rightarrow> owned) \<Rightarrow> nat \<Rightarrow> plat_world \<Rightarrow> plat_world" where
  "plat_give upd h w = w\<lparr>pw_owned := upd (\<lambda>s. s - {h}) (pw_owned w)\<rparr>"

text \<open>A cleanup that fails has still taken the handle.\<close>

definition plat_cleanup ::
  "((nat set \<Rightarrow> nat set) \<Rightarrow> owned \<Rightarrow> owned) \<Rightarrow> nat \<Rightarrow> (plat_world, string, unit) op" where
  "plat_cleanup upd h w =
     (let w' = plat_give upd h w in plat_call ''cleanup failed'' (Inr (), w') w')"

definition plat_report :: apply_report where
  "plat_report = report_new PfLinux"

definition plat_attempts :: "nat \<Rightarrow> nat \<Rightarrow> attempt" where
  "plat_attempts i secs = TimedOut"

definition plat_ops :: "bool \<Rightarrow> (plat_world, nat) engine_ops" where
  "plat_ops linux =
     \<lparr>eo_linux = linux, eo_platform = (if linux then PfLinux else PfWindows),
      eo_kernel = plat_sys,
      eo_b64_decode = (\<lambda>_. None), eo_b64_encode = (\<lambda>_. []),
      eo_device_crates = (\<lambda>_. \<lparr>lookup_host = (\<lambda>_ _ _. Some [SocketAddr (V4 0x0A000001) 51820]),
        ip_network_new = (\<lambda>a n. Some (AllowedIp a n)), static_secret_from = (\<lambda>k. k),
        public_key_from = (\<lambda>k. k)\<rparr>),
      eo_eph_crates = \<lparr>ek_mlkem_length = 1, ek_mlkem_decapsulate = (\<lambda>c. Some c),
        ek_hqc_length = 1, ek_hqc_decapsulate = (\<lambda>c. c), ek_sha256 = (\<lambda>c. c),
        ek_parse_machine = (\<lambda>s. Inr (length s))\<rparr>,
      eo_inventory = (\<lambda>_. Inr None), eo_panic_message = (\<lambda>_. ''panic''),
      eo_create_device = (\<lambda>_. plat_take ow_devs ow_devs_update ''no device'' (\<lambda>d. d)),
      eo_device_write = (\<lambda>_ _ w. plat_call ''write failed'' (Inr (), w) w),
      eo_clear_peers = (\<lambda>_ w. plat_call ''clear failed'' (Inr (), w) w),
      eo_stop_device = plat_give ow_devs_update, eo_drop_device = plat_give ow_devs_update,
      eo_apply_network = (\<lambda>_ _ _ _. plat_take ow_nets ow_nets_update
        (''no network'', plat_report) (\<lambda>i. (i, plat_report))),
      eo_cleanup_network = plat_cleanup ow_nets_update,
      eo_apply_guard = (\<lambda>_ _. plat_take ow_guards ow_guards_update ''no guard'' (\<lambda>g. g)),
      eo_cleanup_guard = plat_cleanup ow_guards_update,
      eo_draw = (\<lambda>w. (([9], plat_attempts), w))\<rparr>"

text \<open>The contract of each of these, then the interpretation.\<close>

lemma keeps_on_kernel: "keeps (same_view pw_owned) (on_kernel m)"
  by (rule keepsI) (auto simp: on_kernel_def same_view_def split: prod.splits)

lemma plat_sys_frames: "kernel_frames pw_owned plat_sys"
  by (simp add: kernel_frames_def plat_sys_def keeps_on_kernel)

lemma plat_call_owned:
  "pw_owned (snd (plat_call e (Inr x, w) w)) = pw_owned w"
  by (simp add: plat_call_def split: list.split)

lemma keeps_plat_call: "keeps (same_view pw_owned) (\<lambda>w. plat_call e (Inr x, w) w)"
  by (rule keepsI) (metis plat_call_owned same_view_def snd_conv)

lemma wp_plat_take:
  assumes "\<And>w'. pw_owned w' = pw_owned w \<Longrightarrow> Q (Inl e) w'"
    and "\<And>w'. pw_next w \<notin> get (pw_owned w)
      \<Longrightarrow> pw_owned w' = upd (insert (pw_next w)) (pw_owned w) \<Longrightarrow> Q (Inr (ok (pw_next w))) w'"
  shows "wp (plat_take get upd e ok) Q w"
  using assms by (auto simp: wp_def plat_take_def plat_call_def split: list.split)

lemma wp_plat_cleanup:
  assumes "\<And>r w'. pw_owned w' = upd (\<lambda>s. s - {h}) (pw_owned w) \<Longrightarrow> Q r w'"
  shows "wp (plat_cleanup upd h) Q w"
  using assms by (auto simp: wp_def plat_cleanup_def plat_give_def plat_call_def Let_def
      split: list.splits if_splits)

interpretation plat: engine_platform "plat_ops linux" pw_owned for linux
  by unfold_locales
    (auto simp: plat_ops_def plat_sys_frames keeps_plat_call plat_give_def
      intro!: wp_plat_take wp_plat_cleanup)

subsection \<open>A start on the platform\<close>

definition no_handles :: owned where
  "no_handles = \<lparr>ow_devs = {}, ow_nets = {}, ow_guards = {}\<rparr>"

definition sample_request :: start_request where
  "sample_request =
     \<lparr>srq_tun_name = ''wg0'', srq_config_text = sample_text,
      srq_dns = \<lparr>dsel_mode = FollowConfig, dsel_preset = AdguardFamily\<rparr>,
      srq_quantum_mode = QOff, srq_daita_mode = DOff, srq_kill_switch = False,
      srq_preference = PrefUserspace\<rparr>"

definition plat_initial :: "bool list \<Rightarrow> plat_world" where
  "plat_initial faults =
     \<lparr>pw_kernel = \<lparr>sm_links = Map.empty, sm_journal = None, sm_faults = []\<rparr>,
      pw_owned = no_handles, pw_next = 0, pw_faults = faults\<rparr>"

lemma plat_initial_owned [simp]: "pw_owned (plat_initial faults) = no_handles"
  by (simp add: plat_initial_def)

lemma sample_host_name: "parse_ip (trim ''relay'') = None"
  by (simp add: eval_simps)

lemma load_sample:
  "load_config (plat_ops linux) sample_request = Inr (sample_config\<lparr>wc_interface :=
     (wc_interface sample_config)\<lparr>if_fwmark := Some DEFAULT_FULL_TUNNEL_FWMARK\<rparr>\<rparr>)"
  by (simp add: load_config_def plat_ops_def sample_request_def parse_sample_text
      normalize_config_for_runtime_def apply_dns_selection_def sample_config_def Let_def
      wants_full_tunnel_def)

lemma sample_settings:
  "\<exists>st. to_device_settings (eo_device_crates (plat_ops linux) w) (sample_config\<lparr>wc_interface :=
     (wc_interface sample_config)\<lparr>if_fwmark := Some DEFAULT_FULL_TUNNEL_FWMARK\<rparr>\<rparr>) = Inr st"
  by (simp add: to_device_settings_def to_device_peer_def plat_ops_def sample_config_def
      resolve_socket_addr_def sample_host_name allowed_ip_to_network_def)

text \<open>The start of the sample brings a userspace tunnel up; its handles are 0 and 1.\<close>

definition sample_running :: engine_state where
  "sample_running =
     (engine_initial None)\<lparr>es_active := Some (BUserspace \<lparr>slot_device = 0, slot_tun_name = ''wg0''\<rparr>),
        es_net := Some 1, es_report := Some plat_report, es_running := True\<rparr>"

lemma sample_backend:
  "\<exists>w'. start_with_backend (plat_ops False) sample_request DecUserspace c st
      (engine_initial None, plat_initial []) = (Inr (), sample_running, w')"
  by (simp add: start_with_backend_def start_userspace_gotatun_def updS_def take_or_create_slot_def
      readS_def engine_initial_def bindS_def map_errS_def onW_def withS_def plat_ops_def plat_take_def
      plat_call_def plat_initial_def no_handles_def returnS_def configure_userspace_device_def
      connect_userspace_def setS_def negotiate_userspace_def sample_request_def quantum_enabled_def
      daita_enabled_def sample_running_def)

lemma sample_start:
  "\<exists>w'. catch_start_panic (plat_ops False) sample_request (engine_initial None, plat_initial [])
     = (Inr (), sample_running, w')"
proof -
  obtain st where st: "to_device_settings (eo_device_crates (plat_ops False) w)
      (sample_config\<lparr>wc_interface := (wc_interface sample_config)\<lparr>if_fwmark :=
        Some DEFAULT_FULL_TUNNEL_FWMARK\<rparr>\<rparr>) = Inr st" for w
    using sample_settings [of False undefined] by (auto simp: plat_ops_def)
  have r: "resolve_backend (eo_linux (plat_ops False)) (srq_preference sample_request)
      (srq_daita_mode sample_request) (srq_quantum_mode sample_request) = Inr DecUserspace"
    by (simp add: resolve_backend_def plat_ops_def sample_request_def daita_enabled_def)
  have d: "check_daita (plat_ops False) sample_request c = returnS ()" for c
    by (simp add: check_daita_def sample_request_def daita_enabled_def)
  have i: "reset_for_start (plat_ops False) (engine_initial None, w) = (engine_initial None, w)" for w
    by (simp add: reset_for_start_def engine_initial_def)
  have n: "\<not> es_running (engine_initial None)" by (simp add: engine_initial_def)
  obtain w' where b: "start_with_backend (plat_ops False) sample_request DecUserspace
      (sample_config\<lparr>wc_interface := (wc_interface sample_config)\<lparr>if_fwmark :=
        Some DEFAULT_FULL_TUNNEL_FWMARK\<rparr>\<rparr>) st (engine_initial None, plat_initial [])
     = (Inr (), sample_running, w')"
    using sample_backend by blast
  show ?thesis
    by (simp add: catch_start_panic_def start_def withS_def readS_def n updS_def i bindS_def
        map_errS_def liftS_def r load_sample d returnS_def st b)
qed

end
