(* ===== verification/Engine_Refinement.thy ===== *)
theory Engine_Refinement
  imports Engine_Sim
begin

text \<open>
  Two views of the engine: the protections a successful start leaves, which need no law of
  the platform, and a tunnel as its user sees it, a machine of three phases that the engine
  refines on every platform that keeps its handles apart.
\<close>

subsection \<open>The protections of a start\<close>

text \<open>Running, with the protections that were asked for; and with none.\<close>

definition protected_as :: "start_request \<Rightarrow> engine_state \<Rightarrow> bool" where
  "protected_as req es =
     (es_running es \<and> es_quantum es = quantum_enabled (srq_quantum_mode req)
    \<and> es_daita es = daita_enabled (srq_daita_mode req))"

definition unprotected :: "engine_state \<Rightarrow> bool" where
  "unprotected es = (\<not> es_quantum es \<and> \<not> es_daita es)"

definition protects ::
  "start_request \<Rightarrow> ('e \<Rightarrow> bool) \<Rightarrow> 'e + 'a \<Rightarrow> engine_state \<times> 'w \<Rightarrow> bool" where
  "protects req P r s = (case r of Inr _ \<Rightarrow> protected_as req (fst s)
     | Inl e \<Rightarrow> P e \<longrightarrow> unprotected (fst s))"

lemma protects_simps [simp]:
  "protects req P (Inl e) s = (P e \<longrightarrow> unprotected (fst s))"
  "protects req P (Inr x) s = protected_as req (fst s)"
  by (simp_all add: protects_def)

lemma unprotected_updates [simp]:
  "unprotected (es\<lparr>es_net := n\<rparr>) = unprotected es"
  "unprotected (es\<lparr>es_report := p\<rparr>) = unprotected es"
  "unprotected (es\<lparr>es_cached := c\<rparr>) = unprotected es"
  "unprotected (es\<lparr>es_active := a\<rparr>) = unprotected es"
  by (simp_all add: unprotected_def)

lemma negotiated_protections:
  assumes "negotiate_tunnel_upgrade cr k q d c base fresh world = Inr u"
  shows "es_quantum (note_outcome (update_outcome u) es) = quantum_enabled q"
    and "es_daita (note_outcome (update_outcome u) es) = daita_enabled d"
  using upgrade_truthful [OF assms] by (simp_all add: note_outcome_def)

lemma wp_negotiate_ok:
  assumes "\<And>e w'. Q (Inl e) (es, w')"
    and "\<And>u cr k fresh world w'. negotiate_tunnel_upgrade cr k (srq_quantum_mode req)
      (srq_daita_mode req) c base fresh world = Inr u \<Longrightarrow> Q (Inr u) (es, w')"
  shows "wp (negotiate_op ops c req base) Q (es, w)"
proof (rule wpI)
  fix r s' assume "negotiate_op ops c req base (es, w) = (r, s')"
  then show "Q r s'" using assms
    by (cases r) (auto simp: negotiate_op_def onW_def split: prod.splits)
qed

text \<open>Calls whose result is all that matters here.\<close>

lemmas wp_calls =
  wp_any [where m = "cleanup_active_network_state ops" for ops]
  wp_any [where m = "eo_device_write ops d cs" for ops d cs]
  wp_any [where m = "eo_apply_network ops n c p k" for ops n c p k]
  wp_any [where m = "eo_create_device ops n" for ops n]
  wp_any [where m = "eo_apply_guard ops n b" for ops n b]
  wp_any [where m = "delete_kernel_device k n" for k n]
  wp_any [where m = "clear_kernel_backend_journal k" for k]
  wp_any [where m = "mark_kernel_device_running k n" for k n]
  wp_any [where m = "apply_ephemeral_update k n u" for k n u]
  wp_any [where m = "start_kernel_device k n st" for k n st]

lemma protects_negotiate_userspace:
  assumes "unprotected es"
  shows "wp (negotiate_userspace ops c st req slot new) (protects req (\<lambda>_. False)) (es, w)"
  using assms
  by (auto simp: negotiate_userspace_def upgrade_userspace_ephemeral_def upgrade_tunnel_def wp_rules
      protected_as_def unprotected_def negotiated_protections Let_def
      intro!: wp_negotiate_ok wp_calls split: list.split sum.split)

lemma unprotected_shutdown:
  "unprotected (fst (shutdown_active_backend ops s))"
  "unprotected (fst s) \<Longrightarrow> unprotected (fst (shutdown_cached_userspace_device ops s))"
  by (simp_all add: shutdown_active_backend_def shutdown_cached_userspace_device_def Let_def
      unprotected_def clear_run_flags_def split: option.split)

lemma protects_connect_userspace:
  assumes "unprotected es"
  shows "wp (connect_userspace ops c plan st req slot new) (protects req (\<lambda>_. False)) (es, w)"
  using assms
  by (auto simp: connect_userspace_def wp_rules intro!: wp_calls protects_negotiate_userspace
      split: sum.split)

lemma wp_userspace_flags:
  assumes "unprotected (fst s)"
  shows "wp (start_userspace_gotatun ops c plan st req) (protects req (\<lambda>_. False)) s"
proof -
  have main: "wp (bindS (take_or_create_slot ops (srq_tun_name req)) (\<lambda>x.
     withS (configure_userspace_device ops st (fst x)) (\<lambda>r. case r of
       Inl e \<Rightarrow> updS (recover_userspace_slot ops (fst x) (snd x)) (throwS (DeviceError e))
     | Inr _ \<Rightarrow> connect_userspace ops c plan st req (fst x) (snd x))))
     (protects req (\<lambda>_. False)) s" if "unprotected (fst s)" for s
    using that
    by (cases s) (auto simp: take_or_create_slot_def configure_userspace_device_def wp_rules
        intro!: wp_calls protects_connect_userspace split: option.split sum.split)
  show ?thesis using assms
    by (auto simp: start_userspace_gotatun_def wp_updS unprotected_shutdown intro!: main
        split: option.split)
qed

text \<open>A kernel start that fails in the kernel has not touched the protections yet.\<close>

definition kernel_failure :: "kernel_start_error \<Rightarrow> bool" where
  "kernel_failure e = (case e of KseKernel _ \<Rightarrow> True | KseEngine _ \<Rightarrow> False)"

lemma kernel_failure_simps [simp]: "kernel_failure (KseKernel k)" "\<not> kernel_failure (KseEngine e)"
  by (simp_all add: kernel_failure_def)

lemma wp_discard_throw:
  "(\<And>s. Q (Inl e) (es, s)) \<Longrightarrow> wp (discard_kernel ops dev (throwS e)) Q (es, w)"
  by (auto simp: discard_kernel_def wp_rules intro!: wp_any)

lemma wp_cleanup_unprotected:
  assumes "\<And>r es' w'. unprotected es \<Longrightarrow> unprotected es' \<Longrightarrow> Q r (es', w')" "unprotected es"
  shows "wp (cleanup_active_network_state ops) Q (es, w)"
  using assms
  by (auto simp: cleanup_active_network_state_def wp_rules intro!: wp_any split: option.split)

lemma protects_upgrade_kernel:
  assumes "\<And>e s. Q (Inl (KseEngine e)) s"
    and "\<And>es' w'. es_quantum es' = quantum_enabled (srq_quantum_mode req)
      \<Longrightarrow> es_daita es' = daita_enabled (srq_daita_mode req) \<Longrightarrow> Q (Inr ()) (es', w')"
  shows "wp (upgrade_kernel_ephemeral ops c st req) Q (es, w)"
  using assms
  by (auto simp: upgrade_kernel_ephemeral_def wp_rules Let_def negotiated_protections
      intro!: wp_negotiate_ok wp_calls
      split: list.split sum.split)

lemma wp_guard_opt:
  "(\<And>r w'. Q r (es, w')) \<Longrightarrow> wp (cleanup_guard_opt ops g) Q (es, w)"
  by (auto simp: cleanup_guard_opt_def wp_rules intro!: wp_any split: option.split)

lemma protects_finish_kernel:
  assumes "es_quantum es = quantum_enabled (srq_quantum_mode req)"
    "es_daita es = daita_enabled (srq_daita_mode req)"
  shows "wp (finish_kernel ops req dev g) (protects req kernel_failure) (es, w)"
  using assms
  by (auto simp: finish_kernel_def wp_rules protected_as_def discard_kernel_def
      intro!: wp_calls wp_guard_opt split: sum.split)

lemma protects_negotiate_kernel:
  assumes "unprotected es" "\<not> daita_enabled (srq_daita_mode req)"
  shows "wp (negotiate_kernel ops c st req dev g) (protects req kernel_failure) (es, w)"
  using assms
  by (auto simp: negotiate_kernel_def wp_rules discard_kernel_def unprotected_def
      intro!: wp_calls wp_guard_opt protects_finish_kernel protects_upgrade_kernel split: sum.split)

lemma protects_mark_kernel:
  assumes "unprotected es" "\<not> daita_enabled (srq_daita_mode req)"
  shows "wp (mark_kernel ops c st req dev g) (protects req kernel_failure) (es, w)"
  using assms
  by (auto simp: mark_kernel_def wp_rules discard_kernel_def
      intro!: wp_calls(3-) wp_guard_opt protects_negotiate_kernel wp_cleanup_unprotected split: sum.split)

lemma protects_connect_kernel:
  assumes "unprotected es" "\<not> daita_enabled (srq_daita_mode req)"
  shows "wp (connect_kernel ops c plan st req dev g) (protects req kernel_failure) (es, w)"
  using assms
  by (auto simp: connect_kernel_def wp_rules discard_kernel_def
      intro!: wp_calls wp_guard_opt protects_mark_kernel split: sum.split)

lemma wp_kernel_flags:
  assumes "unprotected (fst s)" "\<not> daita_enabled (srq_daita_mode req)"
  shows "wp (start_linux_kernel ops c plan st req) (protects req kernel_failure) s"
proof -
  have main: "wp (bindS (map_errS KseKernel (onW (start_kernel_device (eo_kernel ops)
        (srq_tun_name req) st))) (\<lambda>dev. bindS (guard_kernel ops plan req dev) (\<lambda>guard.
     connect_kernel ops c plan st req dev guard))) (protects req kernel_failure) s"
    if "unprotected (fst s)" for s
    using that assms(2)
    by (cases s) (auto simp: guard_kernel_def wp_rules discard_kernel_def map_err_def
        intro!: wp_calls protects_connect_kernel split: sum.split sum.splits)
  show ?thesis using assms
    by (auto simp: start_linux_kernel_def wp_updS unprotected_shutdown intro!: main)
qed

lemma resolve_kernel_iff:
  "resolve_backend linux pref daita q = Inr DecKernel \<longleftrightarrow>
     linux \<and> \<not> daita_enabled daita \<and> pref \<noteq> PrefUserspace"
  by (cases pref) (auto simp: resolve_backend_def)

lemma wp_backend_flags:
  assumes "unprotected (fst s)" "dec = DecKernel \<longrightarrow> \<not> daita_enabled (srq_daita_mode req)"
  shows "wp (start_with_backend ops req dec c st) (protects req (\<lambda>_. False)) s"
proof (cases "dec = DecKernel \<and> eo_linux ops")
  case True
  have "wp (start_linux_kernel ops c (build (eo_platform ops) c) st req) (\<lambda>r. wp (case r of
          Inr _ \<Rightarrow> returnS ()
        | Inl e \<Rightarrow>
            if srq_preference req = PrefAuto
               \<and> (case e of KseKernel k \<Rightarrow> is_unavailable k | KseEngine _ \<Rightarrow> False)
            then start_userspace_gotatun ops c (build (eo_platform ops) c) st req
            else throwS (into_engine_error e)) (protects req (\<lambda>_. False))) s"
    by (rule wp_mono [OF wp_kernel_flags])
      (use assms True in \<open>auto simp: wp_rules split: sum.split kernel_start_error.splits
        intro!: wp_userspace_flags\<close>)
  moreover from True have "dec = DecKernel" "eo_linux ops" by simp_all
  ultimately show ?thesis
    by (simp only: start_with_backend_def Let_def backend_decision.case if_True wp_withS)
next
  case False
  with assms show ?thesis
    by (cases dec) (auto simp: start_with_backend_def Let_def wp_rules intro!: wp_userspace_flags)
qed

lemma unprotected_reset: "unprotected (fst (reset_for_start ops s))"
  by (simp add: reset_for_start_def unprotected_def Let_def)

lemma wp_start_flags:
  "wp (start ops req) (protects req (\<lambda>_. False)) s"
proof -
  have run: "wp (map_errS Err (start_with_backend ops req dec c st)) (protects req (\<lambda>_. False)) s"
    if "unprotected (fst s)" "resolve_backend (eo_linux ops) (srq_preference req)
      (srq_daita_mode req) (srq_quantum_mode req) = Inr dec" for dec c st s
    unfolding wp_map_errS
    by (rule wp_mono [OF wp_backend_flags])
      (use that in \<open>auto simp: resolve_kernel_iff protects_def map_err_def split: sum.splits\<close>)
  have "wp (bindS (map_errS Err (liftS (resolve_backend (eo_linux ops) (srq_preference req)
              (srq_daita_mode req) (srq_quantum_mode req)))) (\<lambda>dec.
     bindS (liftS (load_config ops req)) (\<lambda>parsed.
     bindS (map_errS Err (check_daita ops req parsed)) (\<lambda>_.
     readS (\<lambda>s. bindS (map_errS (\<lambda>e. Err (ConfigErr e))
              (liftS (to_device_settings (eo_device_crates ops (snd s)) parsed))) (\<lambda>settings.
     map_errS Err (start_with_backend ops req dec parsed settings)))))))
    (protects req (\<lambda>_. False)) s" if "unprotected (fst s)" for s
    using that
    by (cases s) (auto simp: wp_bindS wp_pure wp_map_errS wp_state check_daita_def map_err_def
        split: sum.split option.split intro!: run [unfolded wp_map_errS map_err_def])
  then show ?thesis
    by (cases s) (auto simp: start_def wp_state(4) wp_updS wp_pure unprotected_reset)
qed

lemma catch_start_flags: "wp (catch_start_panic ops req) (protects req (\<lambda>_. False)) s"
  unfolding catch_start_panic_def wp_withS
  by (rule wp_mono [OF wp_start_flags])
    (auto simp: wp_pure wp_updS split: sum.split failure.split)

subsection \<open>The tunnel as its user sees it\<close>

text \<open>
  Down; up on one of the data planes; or stranded: reported as running although no data
  plane is left, which only a stop that failed twice over can cause.
\<close>

datatype tunnel_phase = Down | Up active_backend_status | Stranded

definition phase_of :: "engine_state \<Rightarrow> tunnel_phase" where
  "phase_of es =
     (if es_running es
      then (case es_active es of Some b \<Rightarrow> Up (backend_status b) | None \<Rightarrow> Stranded) else Down)"

datatype tunnel_event = EvStart bool | EvStop bool | EvQuery

text \<open>The event of a command: whether it was answered with success.\<close>

definition event_of :: "('w, 'm) engine_ops \<Rightarrow> command \<Rightarrow> engine_state \<times> 'w \<Rightarrow> tunnel_event" where
  "event_of ops c s =
     (case c of
        CmdStart req \<Rightarrow> EvStart (is_ok (fst (catch_start_panic ops req s)))
      | CmdStop \<Rightarrow> EvStop (is_ok (fst (stop ops s)))
      | CmdQuery \<Rightarrow> EvQuery)"

inductive tunnel_step :: "tunnel_phase \<Rightarrow> tunnel_event \<Rightarrow> tunnel_phase \<Rightarrow> bool" where
  started: "tunnel_step Down (EvStart True) (Up k)"
| not_started: "tunnel_step Down (EvStart False) Down"
| start_refused: "p \<noteq> Down \<Longrightarrow> tunnel_step p (EvStart False) p"
| stopped: "p \<noteq> Down \<Longrightarrow> tunnel_step p (EvStop True) Down"
| stop_refused: "tunnel_step Down (EvStop False) Down"
| stopped_with_error: "tunnel_step (Up k) (EvStop False) Down"
| stranded: "tunnel_step (Up k) (EvStop False) Stranded"
| link_not_deleted: "tunnel_step (Up LinuxKernelStatus) (EvStop False) (Up LinuxKernelStatus)"
| query: "tunnel_step p EvQuery p"

code_pred tunnel_step .

inductive_cases stop_downE: "tunnel_step Down (EvStop b) p"
inductive_cases stop_strandedE: "tunnel_step Stranded (EvStop b) p"
inductive_cases stop_userspaceE: "tunnel_step (Up UserspaceStatus) (EvStop b) p"

lemma wp_stop_active_phase:
  "wp (stop_active_backend ops) (\<lambda>r s. es_running (fst s) = es_running es
      \<and> (es_active (fst s) = None
         \<or> \<not> is_ok r \<and> (\<exists>n. es_active es = Some (BKernel n) \<and> es_active (fst s) = Some (BKernel n)))
      \<and> (es_active es = None \<longrightarrow> is_ok r)) (es, w)"
  by (auto simp: stop_active_backend_def wp_rules map_err_def intro!: wp_calls
      wp_any [where m = "eo_clear_peers ops d" for d] split: option.split active_backend.split sum.split)

lemma cleanup_no_net: "es_net (fst s) = None \<Longrightarrow> cleanup_active_network_state ops s = (Inr (), s)"
  by (simp add: cleanup_active_network_state_def readS_def returnS_def)

lemma wp_cleanup_keeps_active:
  assumes "\<And>r es' w'. es_active es' = es_active es \<Longrightarrow> es_running es' = es_running es \<Longrightarrow> Q r (es', w')"
  shows "wp (cleanup_active_network_state ops) Q (es, w)"
  using assms
  by (auto simp: cleanup_active_network_state_def wp_rules intro!: wp_any split: option.split)

text \<open>What a stop makes of a tunnel that is up on data plane \<open>b\<close>.\<close>

lemma wp_stop_up:
  assumes "es_running (fst s)" "es_active (fst s) = Some b"
  shows "wp (stop ops) (\<lambda>r s'. tunnel_step (Up (backend_status b)) (EvStop (is_ok r))
    (phase_of (fst s'))) s"
proof -
  obtain es w where s: "s = (es, w)" by fastforce
  have "wp (withS (stop_active_backend ops) (\<lambda>r. case r of
       Inl e \<Rightarrow>
         if is_ok cleanup
         then setS (\<lambda>es. (clear_run_flags es)\<lparr>es_report := None\<rparr>) (throwS e)
         else throwS e
     | Inr _ \<Rightarrow> setS (\<lambda>es. (clear_run_flags es)\<lparr>es_report := None\<rparr>) (liftS cleanup)))
     (\<lambda>r s'. tunnel_step (Up (backend_status b)) (EvStop (is_ok r)) (phase_of (fst s'))) (es', w')"
    if "es_active es' = Some b" "es_running es'" for cleanup es' w'
    unfolding wp_withS
    by (rule wp_mono [OF wp_stop_active_phase])
      (use that in \<open>auto simp: wp_rules phase_of_def clear_run_flags_def is_ok_def
        intro: tunnel_step.intros split: sum.splits\<close>)
  then show ?thesis using assms
    by (auto simp: s stop_def wp_state(4) wp_withS intro!: wp_cleanup_keeps_active)
qed

lemma stop_stranded:
  assumes "es_running (fst s)" "es_active (fst s) = None" "es_net (fst s) = None"
  shows "fst (stop ops s) = Inr ()" "phase_of (fst (snd (stop ops s))) = Down"
  using assms
  by (simp_all add: stop_def readS_def withS_def cleanup_no_net stop_active_backend_def returnS_def
      setS_def liftS_def phase_of_def clear_run_flags_def)

context engine_platform
begin

lemma stop_step:
  assumes "engine_inv view s"
  shows "tunnel_step (phase_of (fst s)) (EvStop (is_ok (fst (stop ops s))))
    (phase_of (fst (snd (stop ops s))))"
proof (cases "es_running (fst s)")
  case False
  with stop_idle [OF this] show ?thesis by (simp add: phase_of_def is_ok_def tunnel_step.intros)
next
  case True
  show ?thesis
  proof (cases "es_active (fst s)")
    case None
    with True assms have "es_net (fst s) = None" by (simp add: engine_inv_def)
    with stop_stranded [OF True None this, where ops = ops] True None show ?thesis
      by (simp add: phase_of_def is_ok_def tunnel_step.intros)
  next
    case (Some b)
    with True have "phase_of (fst s) = Up (backend_status b)" by (simp add: phase_of_def)
    with wp_stop_up [OF True Some, where ops = ops] show ?thesis
      by (simp add: wp_def split: prod.splits)
  qed
qed

lemma start_step:
  assumes "engine_inv view s"
  shows "tunnel_step (phase_of (fst s)) (EvStart (is_ok (fst (catch_start_panic ops req s))))
    (phase_of (fst (snd (catch_start_panic ops req s))))"
proof (cases "es_running (fst s)")
  case True
  with catch_start_running [OF this] show ?thesis
    by (auto simp: phase_of_def is_ok_def split: option.split intro: tunnel_step.intros)
next
  case False
  with wp_catch_start [OF assms False, of req] show ?thesis
    by (auto simp: phase_of_def wp_def start_post_def idle_def split: prod.splits if_splits
        intro: tunnel_step.intros)
qed

lemma command_step:
  assumes "engine_inv view s"
  shows "tunnel_step (phase_of (fst s)) (event_of ops c s) (phase_of (fst (run_command ops c s)))"
  using stop_step [OF assms] start_step [OF assms]
  by (cases c) (auto simp: event_of_def intro: tunnel_step.intros)

lemma two_stops_userspace:
  assumes "engine_inv view s" "phase_of (fst s) = Up UserspaceStatus"
  shows "phase_of (fst (run_command ops CmdStop (run_command ops CmdStop s))) = Down"
proof -
  let ?s1 = "run_command ops CmdStop s"
  have "tunnel_step (Up UserspaceStatus) (event_of ops CmdStop s) (phase_of (fst ?s1))"
    using command_step [OF assms(1), of CmdStop] assms(2) by simp
  then have "phase_of (fst ?s1) \<in> {Down, Stranded}"
    by (auto simp: event_of_def elim: stop_userspaceE)
  moreover have "tunnel_step (phase_of (fst ?s1)) (event_of ops CmdStop ?s1)
      (phase_of (fst (run_command ops CmdStop ?s1)))"
    by (rule command_step [OF run_command_inv [OF assms(1)]])
  ultimately show ?thesis
    by (auto simp: event_of_def elim: stop_downE stop_strandedE)
qed

end

text \<open>
  Stranding is real: when the cleanup of the network and \<open>clear_peers\<close> both fail, the device
  is dropped and the snapshot still says running.
\<close>

lemma stop_can_strand:
  "phase_of (fst (run_command (plat_ops False) CmdStop (sample_running, plat_initial [True, True])))
     = Stranded"
  by (simp add: stop_def readS_def sample_running_def engine_initial_def withS_def
      cleanup_active_network_state_def setS_def map_errS_def onW_def plat_ops_def plat_cleanup_def
      plat_call_def plat_give_def plat_initial_def throwS_def stop_active_backend_def updS_def
      is_ok_def phase_of_def Let_def)

end
