(* ===== verification/Engine_Properties.thy ===== *)
theory Engine_Properties
  imports Engine_Refinement
begin

text \<open>
  The properties of the engine: which data plane is chosen, what a start leaves, that every
  handle is accounted for in every reachable state and given back at the end, and that the
  engine refines the tunnel of three phases. They hold on every platform that satisfies
  \<open>engine_platform\<close>, and are witnessed on the platform of \<open>Engine_Sim\<close>.
\<close>

subsection \<open>Reachable states\<close>

text \<open>
  The thread starts with nothing owed, runs commands, and the world may change around it as
  long as no handle is taken away.
\<close>

inductive engine_reachable ::
  "('w, 'm) engine_ops \<Rightarrow> ('w \<Rightarrow> owned) \<Rightarrow> engine_state \<times> 'w \<Rightarrow> bool"
  for ops view where
  boot: "view w = no_handles \<Longrightarrow> engine_reachable ops view (engine_initial report, w)"
| command: "engine_reachable ops view s \<Longrightarrow> engine_reachable ops view (run_command ops c s)"
| environment: "engine_reachable ops view s \<Longrightarrow> view w = view (snd s)
    \<Longrightarrow> engine_reachable ops view (fst s, w)"

lemma engine_inv_initial:
  "view w = no_handles \<Longrightarrow> engine_inv view (engine_initial report, w)"
  by (simp add: engine_inv_def engine_initial_def no_handles_def es_devs_def)

lemma reachable_inv:
  assumes "engine_platform ops view" "engine_reachable ops view s"
  shows "engine_inv view s"
  using assms(2)
proof induction
  case (command s c)
  from command.IH show ?case by (rule engine_platform.run_command_inv [OF assms(1)])
next
  case (environment s w)
  then show ?case by (simp add: engine_inv_def)
qed (rule engine_inv_initial)

lemma fold_command_inv:
  assumes "engine_platform ops view"
  shows "engine_inv view s \<Longrightarrow> engine_inv view (fold (run_command ops) cmds s)"
  by (induction cmds arbitrary: s) (simp_all add: engine_platform.run_command_inv [OF assms])

lemma sample_reachable:
  "engine_reachable (plat_ops False) pw_owned
     (run_command (plat_ops False) (CmdStart sample_request) (engine_initial None, plat_initial []))"
  by (rule engine_reachable.intros, rule engine_reachable.intros) simp

lemma sample_running_state:
  "fst (run_command (plat_ops False) (CmdStart sample_request)
     (engine_initial None, plat_initial [])) = sample_running"
  using sample_start by auto

subsection \<open>The choice of the data plane\<close>

text \<open>The kernel data plane is chosen exactly on Linux, without DAITA, unless userspace is
  preferred; whenever a start asks for DAITA the decision is userspace or an error.\<close>

theorem backend_choice:
  "(resolve_backend linux pref daita quantum = Inr DecKernel \<longleftrightarrow>
      linux \<and> \<not> daita_enabled daita \<and> pref \<noteq> PrefUserspace)
   \<and> (resolve_backend linux pref daita quantum = Inr DecUserspace \<longleftrightarrow>
      pref = PrefUserspace \<or> pref = PrefAuto \<and> \<not> (linux \<and> \<not> daita_enabled daita))"
  by (cases pref) (auto simp: resolve_backend_def)

subsection \<open>Starting and stopping\<close>

text \<open>A start of a running tunnel and a stop of an idle one are refused and change
  nothing.\<close>

theorem refused_commands_change_nothing:
  "(es_running (fst s) \<longrightarrow> catch_start_panic ops req s = (Inl AlreadyRunning, s))
   \<and> (\<not> es_running (fst s) \<longrightarrow> stop ops s = (Inl NotRunning, s))"
  by (simp add: catch_start_panic_def withS_def start_def readS_def throwS_def stop_def)

theorem refused_commands_witness:
  "run_command (plat_ops False) CmdStop (engine_initial None, plat_initial [True])
     = (engine_initial None, plat_initial [True])"
proof -
  have "\<not> es_running (fst (engine_initial None, plat_initial [True]))"
    by (simp add: engine_initial_def)
  with refused_commands_change_nothing
    [of "(engine_initial None, plat_initial [True])" "plat_ops False" sample_request]
  show ?thesis by simp
qed

text \<open>C3: a start that succeeds reports each protection exactly as it was asked for: the quantum
  upgrade and DAITA are active in the snapshot if and only if the request enables them.\<close>

theorem start_protects_as_requested:
  assumes "catch_start_panic ops req s = (Inr (), s')"
  shows "rs_status (snapshot (fst s')) = RunningStatus
    \<and> rs_quantum_protected (snapshot (fst s')) = quantum_enabled (srq_quantum_mode req)
    \<and> rs_daita_active (snapshot (fst s')) = daita_enabled (srq_daita_mode req)"
  using wpD [OF catch_start_flags assms]
  by (simp add: protected_as_def snapshot_def status_def)

theorem start_protects_witness:
  "\<not> rs_quantum_protected (snapshot (fst (run_command (plat_ops False) (CmdStart sample_request)
     (engine_initial None, plat_initial []))))"
proof -
  obtain s' where s: "catch_start_panic (plat_ops False) sample_request
      (engine_initial None, plat_initial []) = (Inr (), s')"
    using sample_start by blast
  with start_protects_as_requested [OF s] show ?thesis
    by (simp add: sample_request_def quantum_enabled_def)
qed

text \<open>C2: a start on an idle engine either brings a backend and its network up, or leaves the
  engine idle; in both cases every device, network state and traffic guard is accounted
  for, whatever step of the pipeline failed, panics included.\<close>

theorem start_outcome:
  assumes "engine_platform ops view" "engine_reachable ops view s" "\<not> es_running (fst s)"
    and "catch_start_panic ops req s = (r, s')"
  shows "engine_inv view s'
    \<and> (is_ok r \<longrightarrow> es_running (fst s') \<and> es_active (fst s') \<noteq> None \<and> es_net (fst s') \<noteq> None)
    \<and> (\<not> is_ok r \<longrightarrow> idle (fst s'))"
  using wpD [OF engine_platform.wp_catch_start [OF assms(1) reachable_inv [OF assms(1,2)] assms(3)]
      assms(4)]
  by (simp add: start_post_def split: if_splits)

theorem start_outcome_witness:
  "es_net (fst (run_command (plat_ops False) (CmdStart sample_request)
     (engine_initial None, plat_initial []))) \<noteq> None"
proof -
  obtain s' where s: "catch_start_panic (plat_ops False) sample_request
      (engine_initial None, plat_initial []) = (Inr (), s')"
    using sample_start by blast
  have r: "engine_reachable (plat_ops False) pw_owned (engine_initial None, plat_initial [])"
    by (rule engine_reachable.intros) simp
  have n: "\<not> es_running (fst (engine_initial None, plat_initial []))"
    by (simp add: engine_initial_def)
  from start_outcome [OF plat.engine_platform_axioms r n s] s show ?thesis by (simp add: is_ok_def)
qed

subsection \<open>Every handle is accounted for\<close>

text \<open>C1: in every reachable state the devices, network states and traffic guards that are owed
  are exactly those the engine state names: nothing leaks and nothing is given back twice.\<close>

theorem reachable_accounts:
  assumes "engine_platform ops view" "engine_reachable ops view s"
  shows "view (snd s) = \<lparr>ow_devs = es_devs (fst s), ow_nets = set_option (es_net (fst s)),
           ow_guards = {}\<rparr>
    \<and> (es_net (fst s) \<noteq> None \<longrightarrow> es_running (fst s))
    \<and> (es_active (fst s) \<noteq> None \<longrightarrow> es_cached (fst s) = None)"
  using reachable_inv [OF assms] by (simp add: engine_inv_def)

theorem reachable_accounts_witness:
  "pw_owned (snd (run_command (plat_ops False) (CmdStart sample_request)
     (engine_initial None, plat_initial []))) = \<lparr>ow_devs = {0}, ow_nets = {1}, ow_guards = {}\<rparr>"
  using reachable_accounts [OF plat.engine_platform_axioms sample_reachable]
  unfolding sample_running_state
  by (simp add: sample_running_def es_devs_def engine_initial_def)

text \<open>C6: when the command loop ends, everything has been given back, whatever commands ran and
  whatever failed.\<close>

theorem run_releases_everything:
  assumes "engine_platform ops view" "view w = no_handles"
  shows "view (snd (run ops persisted cmds w)) = no_handles"
proof -
  have "engine_inv view (engine_initial persisted, w)" using assms(2) by (rule engine_inv_initial)
  then have "engine_inv view (fold (run_command ops) cmds (engine_initial persisted, w))"
    by (rule fold_command_inv [OF assms(1)])
  from engine_platform.finish_run_empty [OF assms(1) this] show ?thesis
    by (simp add: run_def no_handles_def)
qed

theorem run_releases_witness:
  "pw_owned (snd (run (plat_ops True) None [CmdStart sample_request, CmdQuery]
     (plat_initial [False, False, True, True]))) = no_handles"
  by (rule run_releases_everything [OF plat.engine_platform_axioms]) simp

subsection \<open>The tunnel of three phases\<close>

text \<open>C4: in every reachable state, every command is a step of the abstract tunnel: a tunnel is
  down, up or stranded, a start leads from down to up or stays, and only a failing stop can
  leave it stranded or, with the kernel data plane, up.\<close>

theorem engine_refines_tunnel:
  assumes "engine_platform ops view" "engine_reachable ops view s"
  shows "tunnel_step (phase_of (fst s)) (event_of ops c s) (phase_of (fst (run_command ops c s)))"
  by (rule engine_platform.command_step [OF assms(1) reachable_inv [OF assms]])

theorem engine_refines_witness:
  "tunnel_step Down (EvStart True) (phase_of sample_running)"
proof -
  have r: "engine_reachable (plat_ops False) pw_owned (engine_initial None, plat_initial [])"
    by (rule engine_reachable.intros) simp
  have e: "event_of (plat_ops False) (CmdStart sample_request) (engine_initial None, plat_initial [])
      = EvStart True" and p: "phase_of (engine_initial None) = Down"
    using sample_start by (auto simp: event_of_def is_ok_def phase_of_def engine_initial_def)
  from engine_refines_tunnel [OF plat.engine_platform_axioms r, of "CmdStart sample_request"]
  show ?thesis unfolding e sample_running_state by (simp add: p)
qed

text \<open>C5: a userspace tunnel is down after at most two stops, whatever fails.\<close>

theorem userspace_stops_in_two:
  assumes "engine_platform ops view" "engine_reachable ops view s"
    and "phase_of (fst s) = Up UserspaceStatus"
  shows "phase_of (fst (run_command ops CmdStop (run_command ops CmdStop s))) = Down"
  by (rule engine_platform.two_stops_userspace [OF assms(1) reachable_inv [OF assms(1,2)] assms(3)])

theorem userspace_stops_witness:
  "\<exists>s. engine_reachable (plat_ops False) pw_owned s \<and> phase_of (fst s) = Up UserspaceStatus
     \<and> phase_of (fst (run_command (plat_ops False) CmdStop (run_command (plat_ops False) CmdStop s)))
       = Down"
proof -
  have "phase_of sample_running = Up UserspaceStatus"
    by (simp add: phase_of_def sample_running_def)
  with userspace_stops_in_two [OF plat.engine_platform_axioms sample_reachable]
    sample_reachable sample_running_state show ?thesis by metis
qed

end
