(* ===== verification/Net_Policy.thy ===== *)
theory Net_Policy
  imports Route_Report Op_Logic
begin

text \<open>
  \<open>platform/linux/network\<close>: the errors, the plan of an application (\<open>apply_plan.rs\<close>), the
  policy rules with the recognition and removal of the rules of the program (\<open>policy.rs\<close>,
  \<open>recovery/netlink_match.rs\<close>, \<open>recovery/snapshot.rs\<close>, \<open>recovery/cleanup.rs\<close>), the removal
  of routes (\<open>netlink.rs\<close>) and the once-only flag. Of a netlink message the model has the
  fields the sources read or write; the flags of a rule are its invert bit.
\<close>

subsection \<open>Errors\<close>

type_synonym i32 = "32 word"

datatype network_error =
  NetIo string
| NetNetlink string
| CommandFailed string "i32 option" string
| DnsVerifyFailed string
| DnsNotSupported
| LinkNotFound string
| MissingFwmark
| KillSwitchUnavailable string

definition show_i32 :: "i32 \<Rightarrow> string" where
  "show_i32 a = (if sint a < 0 then ''-'' @ show_nat (nat (- sint a)) else show_nat (nat (sint a)))"

definition show_status :: "i32 option \<Rightarrow> string" where
  "show_status s = (case s of None \<Rightarrow> ''None'' | Some a \<Rightarrow> ''Some('' @ show_i32 a @ '')'')"

fun show_network_error :: "network_error \<Rightarrow> string" where
  "show_network_error (NetIo e) = ''io error: '' @ e"
| "show_network_error (CommandFailed c s e) =
     ''command failed: '' @ c @ '' (status='' @ show_status s @ '') '' @ e"
| "show_network_error (DnsVerifyFailed m) = ''dns verification failed: '' @ m"
| "show_network_error DnsNotSupported = ''no supported DNS backend found''"
| "show_network_error (NetNetlink e) = ''netlink error: '' @ e"
| "show_network_error (LinkNotFound n) = ''link not found: '' @ n"
| "show_network_error MissingFwmark = ''missing fwmark for policy routing''"
| "show_network_error (KillSwitchUnavailable m) = ''kill switch unavailable: '' @ m"

subsection \<open>\<open>apply_plan.rs\<close>\<close>

record policy_routing =
  pr_table_id :: u32
  pr_fwmark :: u32
  pr_v4 :: bool
  pr_v6 :: bool

record linux_apply_plan =
  lp_route_ops :: "route_op list"
  lp_policy_rule_ops :: "policy_rule_op list"
  lp_policy :: "policy_routing option"

definition DEFAULT_POLICY_TABLE :: u32 where
  "DEFAULT_POLICY_TABLE = 200"

text \<open>The error carries the report, which the failing branch has extended.\<close>

definition resolve_policy_state ::
  "wireguard_config \<Rightarrow> route_plan \<Rightarrow> apply_report
   \<Rightarrow> (network_error \<times> apply_report) + policy_routing option" where
  "resolve_policy_state c plan report =
     (let i = wc_interface c in
      if if_table i = Some RtOff \<or> \<not> ft_any (rp_full_tunnel plan) then Inr None
      else
        let table = (case rp_linux_policy_table_id plan of
              Some t \<Rightarrow> t
            | None \<Rightarrow> (case if_table i of Some (RtId v) \<Rightarrow> v | _ \<Rightarrow> DEFAULT_POLICY_TABLE))
        in case if_fwmark i of
          None \<Rightarrow> Inl (MissingFwmark, mark_failed (push_failed_kind ''apply:linux:fwmark'' KPolicyRule
            (Some FPrecondition)
            [''Full tunnel policy routing requires a fwmark before Linux routes can be applied.'']
            report))
        | Some m \<Rightarrow> Inr (Some \<lparr>pr_table_id = table, pr_fwmark = m,
            pr_v4 = ft_ipv4 (rp_full_tunnel plan), pr_v6 = ft_ipv6 (rp_full_tunnel plan)\<rparr>))"

definition build_apply_plan ::
  "wireguard_config \<Rightarrow> route_plan \<Rightarrow> apply_report
   \<Rightarrow> (network_error \<times> apply_report) + linux_apply_plan" where
  "build_apply_plan c plan report =
     bindE (resolve_policy_state c plan report) (\<lambda>policy.
     Inr \<lparr>lp_route_ops = filter (\<lambda>r. ro_kind r = RkAllowed) (rp_route_ops plan),
          lp_policy_rule_ops = rp_policy_rule_ops plan, lp_policy = policy\<rparr>)"

subsection \<open>Rule messages\<close>

datatype rule_family = AfUnspec | AfInet | AfInet6

datatype rule_action = ActUnspec | ActToTable | ActOther u8

datatype rule_attribute =
  RaPriority u32
| RaTable u32
| RaFwMark u32
| RaSuppressPrefixLen u32
| RaOther

record rule_message =
  rm_family :: rule_family
  rm_action :: rule_action
  rm_table :: u8
  rm_invert :: bool
  rm_attributes :: "rule_attribute list"

definition rule_default :: rule_message where
  "rule_default = \<lparr>rm_family = AfUnspec, rm_action = ActUnspec, rm_table = 0, rm_invert = False,
     rm_attributes = []\<rparr>"

definition RULE_PRIORITY_FWMARK :: u32 where "RULE_PRIORITY_FWMARK = 10000"
definition RULE_PRIORITY_TUNNEL :: u32 where "RULE_PRIORITY_TUNNEL = 10001"
definition RULE_PRIORITY_SUPPRESS :: u32 where "RULE_PRIORITY_SUPPRESS = 10002"
definition RT_TABLE_MAIN :: u8 where "RT_TABLE_MAIN = 254"

definition push_attribute :: "rule_attribute \<Rightarrow> rule_message \<Rightarrow> rule_message" where
  "push_attribute a r = r\<lparr>rm_attributes := rm_attributes r @ [a]\<rparr>"

definition set_rule_table_id :: "rule_message \<Rightarrow> u32 \<Rightarrow> rule_message" where
  "set_rule_table_id r t =
     (if t > 255 then (push_attribute (RaTable t) r)\<lparr>rm_table := RT_TABLE_MAIN\<rparr>
      else r\<lparr>rm_table := ucast t\<rparr>)"

definition base_policy_rule_message :: "rule_family \<Rightarrow> u32 \<Rightarrow> u32 \<Rightarrow> rule_message" where
  "base_policy_rule_message fam prio t =
     push_attribute (RaPriority prio)
       (set_rule_table_id (rule_default\<lparr>rm_family := fam, rm_action := ActToTable\<rparr>) t)"

definition fwmark_rule_message :: "rule_family \<Rightarrow> u32 \<Rightarrow> u32 \<Rightarrow> rule_message" where
  "fwmark_rule_message fam mark t =
     push_attribute (RaFwMark mark) (base_policy_rule_message fam RULE_PRIORITY_FWMARK t)"

definition tunnel_rule_message :: "rule_family \<Rightarrow> u32 \<Rightarrow> u32 \<Rightarrow> rule_message" where
  "tunnel_rule_message fam mark t =
     (push_attribute (RaFwMark mark) (base_policy_rule_message fam RULE_PRIORITY_TUNNEL t))
       \<lparr>rm_invert := True\<rparr>"

definition suppress_rule_message :: "rule_family \<Rightarrow> u32 \<Rightarrow> rule_message" where
  "suppress_rule_message fam t =
     push_attribute (RaSuppressPrefixLen 0) (base_policy_rule_message fam RULE_PRIORITY_SUPPRESS t)"

subsection \<open>Recognition\<close>

fun find_attribute :: "(rule_attribute \<Rightarrow> u32 option) \<Rightarrow> rule_attribute list \<Rightarrow> u32 option" where
  "find_attribute f [] = None"
| "find_attribute f (a # as) = (case f a of Some v \<Rightarrow> Some v | None \<Rightarrow> find_attribute f as)"

definition rule_priority :: "rule_message \<Rightarrow> u32 option" where
  "rule_priority r =
     find_attribute (\<lambda>a. case a of RaPriority v \<Rightarrow> Some v | _ \<Rightarrow> None) (rm_attributes r)"

definition rule_table_id :: "rule_message \<Rightarrow> u32" where
  "rule_table_id r =
     (case find_attribute (\<lambda>a. case a of RaTable v \<Rightarrow> Some v | _ \<Rightarrow> None) (rm_attributes r) of
        Some v \<Rightarrow> v
      | None \<Rightarrow> ucast (rm_table r))"

definition rule_fwmark :: "rule_message \<Rightarrow> u32 option" where
  "rule_fwmark r =
     find_attribute (\<lambda>a. case a of RaFwMark v \<Rightarrow> Some v | _ \<Rightarrow> None) (rm_attributes r)"

definition rule_suppress_prefix_len :: "rule_message \<Rightarrow> u32 option" where
  "rule_suppress_prefix_len r =
     find_attribute (\<lambda>a. case a of RaSuppressPrefixLen v \<Rightarrow> Some v | _ \<Rightarrow> None) (rm_attributes r)"

definition main_table :: u32 where
  "main_table = ucast RT_TABLE_MAIN"

definition is_exact_policy_rule :: "rule_message \<Rightarrow> policy_routing \<Rightarrow> bool" where
  "is_exact_policy_rule r p =
     (if rule_priority r = Some RULE_PRIORITY_FWMARK then
        rm_action r = ActToTable \<and> rule_table_id r = main_table
        \<and> rule_fwmark r = Some (pr_fwmark p) \<and> \<not> rm_invert r
        \<and> rule_suppress_prefix_len r = None
      else if rule_priority r = Some RULE_PRIORITY_TUNNEL then
        rm_action r = ActToTable \<and> rule_table_id r = pr_table_id p
        \<and> rule_fwmark r = Some (pr_fwmark p) \<and> rm_invert r
        \<and> rule_suppress_prefix_len r = None
      else if rule_priority r = Some RULE_PRIORITY_SUPPRESS then
        rm_action r = ActToTable \<and> rule_table_id r = main_table
        \<and> rule_fwmark r = None \<and> \<not> rm_invert r
        \<and> rule_suppress_prefix_len r = Some 0
      else False)"

definition is_managed_policy_rule_signature :: "rule_message \<Rightarrow> bool" where
  "is_managed_policy_rule_signature r =
     (if rule_priority r = Some RULE_PRIORITY_FWMARK then
        rm_action r = ActToTable \<and> rule_table_id r = main_table
        \<and> rule_fwmark r \<noteq> None \<and> \<not> rm_invert r
        \<and> rule_suppress_prefix_len r = None
      else if rule_priority r = Some RULE_PRIORITY_TUNNEL then
        rm_action r = ActToTable \<and> rule_fwmark r \<noteq> None \<and> rm_invert r
        \<and> rule_suppress_prefix_len r = None
      else if rule_priority r = Some RULE_PRIORITY_SUPPRESS then
        rm_action r = ActToTable \<and> rule_table_id r = main_table
        \<and> rule_fwmark r = None \<and> \<not> rm_invert r
        \<and> rule_suppress_prefix_len r = Some 0
      else False)"

definition is_policy_rule :: "rule_message \<Rightarrow> policy_routing option \<Rightarrow> bool" where
  "is_policy_rule r policy =
     (case policy of Some p \<Rightarrow> is_exact_policy_rule r p | None \<Rightarrow> is_managed_policy_rule_signature r)"

subsection \<open>Installing and removing rules\<close>

text \<open>
  A dump of the rules is the list the stream yields and the error it may end with.
\<close>

type_synonym 'a dump = "'a list \<times> network_error option"

record 'w rule_sys =
  rn_add_rule :: "bool \<Rightarrow> rule_message \<Rightarrow> ('w, network_error, unit) op"
  rn_get_rules :: "bool \<Rightarrow> 'w \<Rightarrow> rule_message dump \<times> 'w"
  rn_del_rule :: "rule_message \<Rightarrow> ('w, network_error, unit) op"

definition rule_family_of :: "bool \<Rightarrow> rule_family" where
  "rule_family_of v6 = (if v6 then AfInet6 else AfInet)"

definition apply_policy_rules_family ::
  "'w rule_sys \<Rightarrow> bool \<Rightarrow> u32 \<Rightarrow> u32 \<Rightarrow> ('w, network_error, unit) op" where
  "apply_policy_rules_family sys v6 mark t =
     (let fam = rule_family_of v6 in
      bindS (rn_add_rule sys v6 (fwmark_rule_message fam mark main_table)) (\<lambda>_.
      bindS (rn_add_rule sys v6 (tunnel_rule_message fam mark t)) (\<lambda>_.
      rn_add_rule sys v6 (suppress_rule_message fam main_table))))"

definition apply_policy_rules ::
  "'w rule_sys \<Rightarrow> u32 \<Rightarrow> u32 \<Rightarrow> bool \<Rightarrow> bool \<Rightarrow> ('w, network_error, unit) op" where
  "apply_policy_rules sys mark t v4 v6 =
     bindS (if v4 then apply_policy_rules_family sys False mark t else returnS ()) (\<lambda>_.
     if v6 then apply_policy_rules_family sys True mark t else returnS ())"

fun del_matching ::
  "(rule_message \<Rightarrow> ('w, network_error, unit) op) \<Rightarrow> (rule_message \<Rightarrow> bool) \<Rightarrow> network_error option
   \<Rightarrow> rule_message list \<Rightarrow> ('w, network_error, unit) op" where
  "del_matching del P err [] = (case err of None \<Rightarrow> returnS () | Some e \<Rightarrow> throwS e)"
| "del_matching del P err (r # rs) =
     (if P r then bindS (del r) (\<lambda>_. del_matching del P err rs) else del_matching del P err rs)"

definition cleanup_policy_rules_family ::
  "'w rule_sys \<Rightarrow> bool \<Rightarrow> policy_routing option \<Rightarrow> ('w, network_error, unit) op" where
  "cleanup_policy_rules_family sys v6 policy w =
     (case rn_get_rules sys v6 w of ((rules, err), w') \<Rightarrow>
        del_matching (rn_del_rule sys) (\<lambda>r. is_policy_rule r policy) err rules w')"

definition cleanup_policy_rules ::
  "'w rule_sys \<Rightarrow> policy_routing option \<Rightarrow> bool \<Rightarrow> bool \<Rightarrow> ('w, network_error, unit) op" where
  "cleanup_policy_rules sys policy v4 v6 =
     bindS (if v4 then cleanup_policy_rules_family sys False policy else returnS ()) (\<lambda>_.
     if v6 then cleanup_policy_rules_family sys True policy else returnS ())"

subsection \<open>Once per process\<close>

definition CLEANUP_STATE_IDLE :: u8 where "CLEANUP_STATE_IDLE = 0"
definition CLEANUP_STATE_IN_PROGRESS :: u8 where "CLEANUP_STATE_IN_PROGRESS = 1"
definition CLEANUP_STATE_DONE :: u8 where "CLEANUP_STATE_DONE = 2"

text \<open>The two atomic operations on the flag: compare-exchange and store.\<close>

definition begin_cleanup_once :: "u8 \<Rightarrow> bool \<times> u8" where
  "begin_cleanup_once flag =
     (if flag = CLEANUP_STATE_IDLE then (True, CLEANUP_STATE_IN_PROGRESS) else (False, flag))"

definition finish_cleanup_once :: "bool \<Rightarrow> u8 \<Rightarrow> u8" where
  "finish_cleanup_once success flag = (if success then CLEANUP_STATE_DONE else CLEANUP_STATE_IDLE)"

text \<open>\<open>cleanup_policy_rules_once\<close>, run by one caller alone: the flag is part of the state.\<close>

definition cleanup_policy_rules_once ::
  "'w rule_sys \<Rightarrow> policy_routing option \<Rightarrow> (u8 \<times> 'w, network_error, unit) op" where
  "cleanup_policy_rules_once sys policy =
     readS (\<lambda>s. case begin_cleanup_once (fst s) of
       (False, _) \<Rightarrow> returnS ()
     | (True, flag) \<Rightarrow> setS (\<lambda>_. flag)
         (withS (onW (cleanup_policy_rules sys policy True True)) (\<lambda>r.
          setS (finish_cleanup_once (is_ok r)) (liftS r))))"

subsection \<open>Snapshots and recovery\<close>

record route_snapshot =
  rsn_addr :: ip_addr
  rsn_cidr :: u8
  rsn_table_id :: "u32 option"

record policy_snapshot =
  ps_table_id :: u32
  ps_fwmark :: u32
  ps_v4 :: bool
  ps_v6 :: bool

definition route_snapshots_from_ops :: "route_op list \<Rightarrow> route_snapshot list" where
  "route_snapshots_from_ops ops =
     map (\<lambda>r. \<lparr>rsn_addr = addr (ro_route r), rsn_cidr = cidr (ro_route r),
               rsn_table_id = ro_table_id r\<rparr>)
       (filter (\<lambda>r. ro_kind r = RkAllowed) ops)"

definition route_snapshots :: "route_plan \<Rightarrow> route_snapshot list" where
  "route_snapshots plan = route_snapshots_from_ops (rp_route_ops plan)"

definition policy_snapshot :: "policy_routing \<Rightarrow> policy_snapshot" where
  "policy_snapshot p = \<lparr>ps_table_id = pr_table_id p, ps_fwmark = pr_fwmark p,
     ps_v4 = pr_v4 p, ps_v6 = pr_v6 p\<rparr>"

text \<open>The recovery builds the messages of the rules a second time, without \<open>policy.rs\<close>.\<close>

definition push_policy_rule_messages ::
  "rule_family \<Rightarrow> u32 \<Rightarrow> u32 \<Rightarrow> u8 \<Rightarrow> rule_message list" where
  "push_policy_rule_messages fam mark t main =
     [rule_default\<lparr>rm_family := fam, rm_action := ActToTable, rm_table := main,
        rm_attributes := [RaPriority RULE_PRIORITY_FWMARK, RaFwMark mark]\<rparr>,
      (if t > 255
       then rule_default\<lparr>rm_family := fam, rm_action := ActToTable, rm_table := main,
              rm_invert := True,
              rm_attributes := [RaTable t, RaPriority RULE_PRIORITY_TUNNEL, RaFwMark mark]\<rparr>
       else rule_default\<lparr>rm_family := fam, rm_action := ActToTable, rm_table := ucast t,
              rm_invert := True,
              rm_attributes := [RaPriority RULE_PRIORITY_TUNNEL, RaFwMark mark]\<rparr>),
      rule_default\<lparr>rm_family := fam, rm_action := ActToTable, rm_table := main,
        rm_attributes := [RaPriority RULE_PRIORITY_SUPPRESS, RaSuppressPrefixLen 0]\<rparr>]"

definition policy_rule_messages :: "policy_snapshot \<Rightarrow> rule_message list" where
  "policy_rule_messages s =
     (if ps_v4 s
      then push_policy_rule_messages AfInet (ps_fwmark s) (ps_table_id s) RT_TABLE_MAIN else [])
     @ (if ps_v6 s
        then push_policy_rule_messages AfInet6 (ps_fwmark s) (ps_table_id s) RT_TABLE_MAIN else [])"

text \<open>\<open>cleanup_policy_snapshot\<close>: every failure is ignored.\<close>

fun del_each :: "('a \<Rightarrow> ('w, 'e, unit) op) \<Rightarrow> 'a list \<Rightarrow> 'w \<Rightarrow> 'w" where
  "del_each del [] w = w"
| "del_each del (x # xs) w = del_each del xs (snd (del x w))"

definition cleanup_policy_snapshot :: "'w rule_sys \<Rightarrow> policy_snapshot \<Rightarrow> 'w \<Rightarrow> 'w" where
  "cleanup_policy_snapshot sys s w = del_each (rn_del_rule sys) (policy_rule_messages s) w"

definition cleanup_policy_state :: "'w rule_sys \<Rightarrow> policy_routing \<Rightarrow> 'w \<Rightarrow> 'w" where
  "cleanup_policy_state sys p = cleanup_policy_snapshot sys (policy_snapshot p)"

end
