(* ===== verification/Net_Policy_Laws.thy ===== *)
theory Net_Policy_Laws
  imports Net_Policy
begin

text \<open>
  What the policy rules guarantee over a rule table, as a locale with an interpretation: the
  rules that are installed are the ones the recovery names, they are recognised exactly, no
  other rule is ever removed, and a cleanup restores the tables. Then the once-only flag
  under every interleaving of callers.
\<close>

subsection \<open>Signatures\<close>

text \<open>What the program reads of a rule; a kernel may add further attributes.\<close>

definition rule_signature ::
  "rule_message \<Rightarrow> rule_action \<times> u32 option \<times> u32 \<times> u32 option \<times> bool \<times> u32 option" where
  "rule_signature r = (rm_action r, rule_priority r, rule_table_id r, rule_fwmark r, rm_invert r,
     rule_suppress_prefix_len r)"

lemma rule_priorities [simp]:
  "RULE_PRIORITY_FWMARK \<noteq> RULE_PRIORITY_TUNNEL" "RULE_PRIORITY_TUNNEL \<noteq> RULE_PRIORITY_FWMARK"
  "RULE_PRIORITY_FWMARK \<noteq> RULE_PRIORITY_SUPPRESS" "RULE_PRIORITY_SUPPRESS \<noteq> RULE_PRIORITY_FWMARK"
  "RULE_PRIORITY_TUNNEL \<noteq> RULE_PRIORITY_SUPPRESS" "RULE_PRIORITY_SUPPRESS \<noteq> RULE_PRIORITY_TUNNEL"
  by (simp_all add: RULE_PRIORITY_FWMARK_def RULE_PRIORITY_TUNNEL_def RULE_PRIORITY_SUPPRESS_def)

lemma table_fits: "\<not> (t :: u32) > 255 \<Longrightarrow> ucast (ucast t :: u8) = t"
proof -
  assume "\<not> t > 255"
  then have "uint t < 256" by (simp add: word_less_def not_less)
  then have "take_bit 8 (uint t) = uint t" by (simp add: take_bit_eq_mod)
  then show ?thesis
    by (intro word_uint_eqI) (simp add: unsigned_ucast_eq unsigned_take_bit_eq take_bit_eq_mod
        uint_mod_distrib word_mod_def)
qed

lemma main_table_small: "\<not> main_table > 255" "ucast main_table = RT_TABLE_MAIN"
  by (simp_all add: main_table_def RT_TABLE_MAIN_def)

lemma message_signatures:
  "rule_signature (fwmark_rule_message fam mark main_table)
     = (ActToTable, Some RULE_PRIORITY_FWMARK, main_table, Some mark, False, None)"
  "rule_signature (tunnel_rule_message fam mark t)
     = (ActToTable, Some RULE_PRIORITY_TUNNEL, t, Some mark, True, None)"
  "rule_signature (suppress_rule_message fam main_table)
     = (ActToTable, Some RULE_PRIORITY_SUPPRESS, main_table, None, False, Some 0)"
  using table_fits [of t] main_table_small
  by (auto simp: rule_signature_def fwmark_rule_message_def tunnel_rule_message_def
      suppress_rule_message_def base_policy_rule_message_def set_rule_table_id_def push_attribute_def
      rule_default_def rule_priority_def rule_table_id_def rule_fwmark_def
      rule_suppress_prefix_len_def main_table_def)

lemma exact_signature:
  "is_exact_policy_rule r p \<longleftrightarrow> rule_signature r \<in>
     {(ActToTable, Some RULE_PRIORITY_FWMARK, main_table, Some (pr_fwmark p), False, None),
      (ActToTable, Some RULE_PRIORITY_TUNNEL, pr_table_id p, Some (pr_fwmark p), True, None),
      (ActToTable, Some RULE_PRIORITY_SUPPRESS, main_table, None, False, Some 0)}"
  by (auto simp: is_exact_policy_rule_def rule_signature_def)

lemma policy_rule_cong:
  "rule_signature r = rule_signature r' \<Longrightarrow> is_policy_rule r policy = is_policy_rule r' policy"
  by (auto simp: is_policy_rule_def exact_signature is_managed_policy_rule_signature_def
      rule_signature_def split: option.split)

lemma exact_is_managed: "is_exact_policy_rule r p \<Longrightarrow> is_managed_policy_rule_signature r"
  by (auto simp: exact_signature is_managed_policy_rule_signature_def rule_signature_def)

lemma signature_family [simp]: "rule_signature (r\<lparr>rm_family := fam\<rparr>) = rule_signature r"
  by (simp add: rule_signature_def rule_priority_def rule_table_id_def rule_fwmark_def
      rule_suppress_prefix_len_def split: option.split)

subsection \<open>The recovery names the rules that are installed\<close>

text \<open>A recorder of the messages an application sends.\<close>

definition recorder :: "rule_message list rule_sys" where
  "recorder = \<lparr>rn_add_rule = (\<lambda>_ r w. (Inr (), w @ [r])), rn_get_rules = (\<lambda>_ w. (([], None), w)),
     rn_del_rule = (\<lambda>r w. (Inr (), w @ [r]))\<rparr>"

lemma recovery_messages:
  "push_policy_rule_messages fam mark t RT_TABLE_MAIN =
     [fwmark_rule_message fam mark main_table, tunnel_rule_message fam mark t,
      suppress_rule_message fam main_table]"
  using main_table_small
  by (simp add: push_policy_rule_messages_def fwmark_rule_message_def tunnel_rule_message_def
      suppress_rule_message_def base_policy_rule_message_def set_rule_table_id_def push_attribute_def
      rule_default_def)

lemma family_messages:
  "apply_policy_rules_family recorder v6 mark t ms
     = (Inr (), ms @ push_policy_rule_messages (rule_family_of v6) mark t RT_TABLE_MAIN)"
  by (simp add: apply_policy_rules_family_def recorder_def opS_defs recovery_messages Let_def)

lemma applied_messages:
  "apply_policy_rules recorder (pr_fwmark p) (pr_table_id p) (pr_v4 p) (pr_v6 p) ms
     = (Inr (), ms @ policy_rule_messages (policy_snapshot p))"
  by (simp add: apply_policy_rules_def policy_rule_messages_def policy_snapshot_def opS_defs
      family_messages rule_family_of_def)

lemma snapshot_deletes:
  "cleanup_policy_state recorder p ms = ms @ policy_rule_messages (policy_snapshot p)"
proof -
  have "del_each (rn_del_rule recorder) xs ms = ms @ xs" for xs
    by (induction xs arbitrary: ms) (simp_all add: recorder_def)
  then show ?thesis by (simp add: cleanup_policy_state_def cleanup_policy_snapshot_def)
qed

subsection \<open>Rules in the kernel\<close>

text \<open>
  The kernel keeps numbers where a message has optional attributes: an absent priority or mark
  is 0, an absent prefix length to suppress is -1. A dump has the attributes that are set.
\<close>

definition kernel_rule :: "rule_message \<Rightarrow> rule_action \<times> u32 \<times> u32 \<times> u32 \<times> bool \<times> u32" where
  "kernel_rule r = (rm_action r, rule_table_id r, case_option 0 id (rule_priority r),
     case_option 0 id (rule_fwmark r), rm_invert r, case_option (-1) id (rule_suppress_prefix_len r))"

definition dumped :: "rule_message \<Rightarrow> bool" where
  "dumped r = (rule_priority r \<noteq> Some 0 \<and> rule_fwmark r \<noteq> Some 0
     \<and> rule_suppress_prefix_len r \<noteq> Some (-1))"

text \<open>
  A deletion takes the first rule that agrees with every attribute the message sets; an unset
  one matches anything, and the invert bit is not compared.
\<close>

definition kernel_matches :: "rule_message \<Rightarrow> rule_message \<Rightarrow> bool" where
  "kernel_matches m r =
     (case (kernel_rule m, kernel_rule r) of
        ((act, t, prio, mark, _, suppress), (act', t', prio', mark', _, suppress')) \<Rightarrow>
          (act = ActUnspec \<or> act' = act) \<and> (t = 0 \<or> t' = t) \<and> (prio = 0 \<or> prio' = prio)
          \<and> (mark = 0 \<or> mark' = mark) \<and> (suppress = -1 \<or> suppress' = suppress))"

definition reserved :: "rule_message \<Rightarrow> bool" where
  "reserved r = (rule_priority r \<in>
     {Some RULE_PRIORITY_FWMARK, Some RULE_PRIORITY_TUNNEL, Some RULE_PRIORITY_SUPPRESS})"

text \<open>
  The kernel may take a rule for one of the policy when the deletion of some rule that is
  recognised as the policy's matches it. A confusable rule is one it may take for a rule of
  the policy although the program would not recognise it as such.
\<close>

definition taken_for :: "policy_routing option \<Rightarrow> rule_message \<Rightarrow> bool" where
  "taken_for policy r = (\<exists>m. is_policy_rule m policy \<and> kernel_matches m r)"

definition confusable :: "policy_routing option \<Rightarrow> rule_message \<Rightarrow> bool" where
  "confusable policy r = (taken_for policy r \<and> \<not> is_policy_rule r policy)"

lemma kernel_matches_refl: "kernel_matches r r"
  by (simp add: kernel_matches_def split: prod.split)

lemma own_taken: "is_policy_rule r policy \<Longrightarrow> taken_for policy r"
  using kernel_matches_refl by (auto simp: taken_for_def)

lemma policy_reserved: "is_policy_rule r policy \<Longrightarrow> reserved r"
  by (auto simp: is_policy_rule_def is_exact_policy_rule_def is_managed_policy_rule_signature_def
      reserved_def split: option.splits if_splits)

lemma reserved_match: "reserved m \<Longrightarrow> kernel_matches m r \<Longrightarrow> reserved r"
  by (auto simp: reserved_def kernel_matches_def kernel_rule_def RULE_PRIORITY_FWMARK_def
      RULE_PRIORITY_TUNNEL_def RULE_PRIORITY_SUPPRESS_def split: option.splits)

lemma taken_reserved: "taken_for policy r \<Longrightarrow> reserved r"
  using reserved_match policy_reserved by (auto simp: taken_for_def)

lemma kernel_rule_signature:
  "dumped r \<Longrightarrow> dumped r' \<Longrightarrow> kernel_rule r = kernel_rule r' \<Longrightarrow> rule_signature r = rule_signature r'"
  by (auto simp: dumped_def kernel_rule_def rule_signature_def split: option.splits)

lemma kernel_rule_reserved: "kernel_rule r = kernel_rule r' \<Longrightarrow> reserved r = reserved r'"
  by (auto simp: kernel_rule_def reserved_def RULE_PRIORITY_FWMARK_def RULE_PRIORITY_TUNNEL_def
      RULE_PRIORITY_SUPPRESS_def split: option.splits)

lemma message_dumped:
  "mark \<noteq> 0 \<Longrightarrow> dumped (fwmark_rule_message fam mark main_table)"
  "mark \<noteq> 0 \<Longrightarrow> dumped (tunnel_rule_message fam mark t)"
  "dumped (suppress_rule_message fam main_table)"
  using message_signatures(1) [of fam mark] message_signatures(2) [of fam mark t]
    message_signatures(3) [of fam]
  by (simp_all add: dumped_def rule_signature_def RULE_PRIORITY_FWMARK_def RULE_PRIORITY_TUNNEL_def
      RULE_PRIORITY_SUPPRESS_def)

lemma message_own:
  "is_policy_rule (fwmark_rule_message fam (pr_fwmark p) main_table) (Some p)"
  "is_policy_rule (tunnel_rule_message fam (pr_fwmark p) (pr_table_id p)) (Some p)"
  "is_policy_rule (suppress_rule_message fam main_table) (Some p)"
  by (simp_all add: is_policy_rule_def exact_signature message_signatures)

subsection \<open>Rule tables\<close>

text \<open>
  The rtnetlink interface: an addition stores a rule somewhere in the table of its family, a
  deletion removes some rule the message matches, a dump lists the table or a part of it.
\<close>

locale rule_tables =
  fixes sys :: "'w rule_sys" and rules :: "'w \<Rightarrow> bool \<Rightarrow> rule_message list"
  assumes add: "wp (rn_add_rule sys v6 r) (\<lambda>res w'. case res of
        Inl _ \<Rightarrow> rules w' = rules w
      | Inr _ \<Rightarrow> \<exists>xs r' ys. kernel_rule r' = kernel_rule r \<and> rules w v6 = xs @ ys
          \<and> rules w' = (rules w)(v6 := xs @ r' # ys)) w"
    and get: "rn_get_rules sys v6 w = ((rs, err), w') \<Longrightarrow>
      rules w' = rules w \<and> (\<exists>rest. rules w v6 = rs @ rest \<and> (err = None \<longrightarrow> rest = []))"
    and stored: "r \<in> set (rules w v6) \<Longrightarrow> rm_family r = rule_family_of v6 \<and> dumped r"
    and del: "wp (rn_del_rule sys r) (\<lambda>res w'. case res of
        Inl _ \<Rightarrow> rules w' = rules w
      | Inr _ \<Rightarrow> \<exists>v6 xs r' ys. rm_family r = rule_family_of v6 \<and> rules w v6 = xs @ r' # ys
          \<and> kernel_matches r r' \<and> rules w' = (rules w)(v6 := xs @ ys)) w"
begin

text \<open>
  The rules of one family that a policy does not name, those it names, and those at other
  priorities than the three of the program.
\<close>

definition others :: "policy_routing option \<Rightarrow> 'w \<Rightarrow> bool \<Rightarrow> rule_message list" where
  "others policy w v6 = filter (\<lambda>r. \<not> is_policy_rule r policy) (rules w v6)"

definition own :: "policy_routing option \<Rightarrow> 'w \<Rightarrow> bool \<Rightarrow> rule_message list" where
  "own policy w v6 = filter (\<lambda>r. is_policy_rule r policy) (rules w v6)"

definition foreign :: "'w \<Rightarrow> bool \<Rightarrow> rule_message list" where
  "foreign w v6 = filter (\<lambda>r. \<not> reserved r) (rules w v6)"

definition clear :: "policy_routing option \<Rightarrow> 'w \<Rightarrow> bool" where
  "clear policy w = (\<forall>v6. \<forall>r \<in> set (rules w v6). \<not> confusable policy r)"

lemma wp_add:
  assumes "\<And>e w'. rules w' = rules w \<Longrightarrow> Q (Inl e) w'"
    and "\<And>xs r' ys w'. kernel_rule r' = kernel_rule r \<Longrightarrow> dumped r' \<Longrightarrow> rules w v6 = xs @ ys
      \<Longrightarrow> rules w' = (rules w)(v6 := xs @ r' # ys) \<Longrightarrow> Q (Inr ()) w'"
  shows "wp (rn_add_rule sys v6 r) Q w"
proof (rule wp_mono [OF add], goal_cases)
  case (1 res w')
  show ?case
  proof (cases res)
    case (Inl e)
    with 1 assms(1) show ?thesis by simp
  next
    case (Inr u)
    with 1 obtain xs r' ys where r': "kernel_rule r' = kernel_rule r" "rules w v6 = xs @ ys"
      "rules w' = (rules w)(v6 := xs @ r' # ys)" by auto
    moreover have "dumped r'" using r'(3) stored [of r' w' v6] by simp
    ultimately show ?thesis using Inr assms(2) by simp
  qed
qed

lemma wp_del:
  assumes "\<And>e w'. rules w' = rules w \<Longrightarrow> Q (Inl e) w'"
    and "\<And>v6 xs r' ys w'. rm_family r = rule_family_of v6 \<Longrightarrow> rules w v6 = xs @ r' # ys
      \<Longrightarrow> kernel_matches r r' \<Longrightarrow> rules w' = (rules w)(v6 := xs @ ys) \<Longrightarrow> Q (Inr ()) w'"
  shows "wp (rn_del_rule sys r) Q w"
  by (rule wp_mono [OF del]) (use assms in \<open>auto split: sum.splits\<close>)

text \<open>
  What a run of additions and deletions of the policy's rules keeps: every rule at another
  priority; and, as long as no rule is confusable, every rule that is not the policy's.
\<close>

definition cleaned :: "policy_routing option \<Rightarrow> 'w \<Rightarrow> 'w \<Rightarrow> bool" where
  "cleaned policy w w' = ((\<forall>v6. foreign w' v6 = foreign w v6)
     \<and> (clear policy w \<longrightarrow> clear policy w' \<and> (\<forall>v6. others policy w' v6 = others policy w v6)))"

lemma cleaned_refl: "rules w' = rules w \<Longrightarrow> cleaned policy w w'"
  by (simp add: cleaned_def others_def foreign_def clear_def)

lemma cleaned_trans: "cleaned policy w w' \<Longrightarrow> cleaned policy w' w'' \<Longrightarrow> cleaned policy w w''"
  by (simp add: cleaned_def)

lemma rule_family_inj [simp]: "rule_family_of a = rule_family_of b \<longleftrightarrow> a = b"
  by (simp add: rule_family_of_def)

lemma deleted:
  assumes "is_policy_rule m policy" "kernel_matches m r'" "rules w v6 = xs @ r' # ys"
    "rules w' = (rules w)(v6 := xs @ ys)"
  shows "cleaned policy w w'"
    and "clear policy w \<Longrightarrow> Suc (length (own policy w' v6)) = length (own policy w v6)"
proof -
  have t: "taken_for policy r'" using assms(1,2) by (auto simp: taken_for_def)
  have o: "is_policy_rule r' policy" if "clear policy w"
    using that t assms(3) by (auto simp: clear_def confusable_def dest: spec [of _ v6])
  have sub: "clear policy w \<Longrightarrow> clear policy w'" unfolding clear_def assms(4)
    using assms(3) by (metis Un_iff fun_upd_apply insert_iff list.simps(15) set_append)
  show "cleaned policy w w'"
    using assms(3,4) taken_reserved [OF t] o sub
    by (auto simp: cleaned_def foreign_def others_def)
  show "clear policy w \<Longrightarrow> Suc (length (own policy w' v6)) = length (own policy w v6)"
    using assms(3,4) o by (simp add: own_def)
qed

lemma wp_del_matching:
  assumes "\<forall>r\<in>set rs. rm_family r = rule_family_of v6"
  shows "wp (del_matching (rn_del_rule sys) (\<lambda>r. is_policy_rule r policy) err rs)
    (\<lambda>res w'. cleaned policy w w' \<and> rules w' (\<not> v6) = rules w (\<not> v6)
      \<and> (is_ok res \<longrightarrow> clear policy w \<longrightarrow> err = None \<and> length (own policy w' v6)
           + length (filter (\<lambda>r. is_policy_rule r policy) rs) = length (own policy w v6))) w"
  using assms
proof (induction rs arbitrary: w)
  case Nil
  then show ?case by (cases err) (simp_all add: wp_rules cleaned_refl)
next
  case (Cons r rs)
  show ?case
  proof (cases "is_policy_rule r policy")
    case False
    with Cons show ?thesis by simp
  next
    case True
    let ?Q = "\<lambda>res. case res of Inl e \<Rightarrow> (\<lambda>w'. cleaned policy w w'
          \<and> rules w' (\<not> v6) = rules w (\<not> v6))
        | Inr _ \<Rightarrow> wp (del_matching (rn_del_rule sys) (\<lambda>r. is_policy_rule r policy) err rs)
            (\<lambda>res w'. cleaned policy w w' \<and> rules w' (\<not> v6) = rules w (\<not> v6)
              \<and> (is_ok res \<longrightarrow> clear policy w \<longrightarrow> err = None \<and> length (own policy w' v6)
                   + Suc (length (filter (\<lambda>r. is_policy_rule r policy) rs))
                   = length (own policy w v6)))"
    have "wp (rn_del_rule sys r) ?Q w"
    proof (rule wp_del)
      fix e w' assume "rules w' = rules w"
      then show "?Q (Inl e) w'"
        by (simp add: cleaned_refl)
    next
      fix f xs r' ys w'
      assume d: "rm_family r = rule_family_of f" "rules w f = xs @ r' # ys"
        "kernel_matches r r'" "rules w' = (rules w)(f := xs @ ys)"
      have f: "f = v6" using d(1) Cons.prems by simp
      note del = deleted [OF True d(3,2,4)]
      have c: "clear policy w \<Longrightarrow> clear policy w'" using del(1) by (simp add: cleaned_def)
      have o: "rules w' (\<not> v6) = rules w (\<not> v6)" using d f by simp
      have "\<forall>r\<in>set rs. rm_family r = rule_family_of v6" using Cons.prems by simp
      from Cons.IH [OF this, of w']
      show "?Q (Inr ()) w'"
        using del(2) o c f by (auto elim!: wp_mono intro: cleaned_trans [OF del(1)])
    qed
    then show ?thesis
      using True by (simp add: wp_bindS) (erule wp_mono, auto split: sum.splits)
  qed
qed

lemma wp_cleanup_family:
  "wp (cleanup_policy_rules_family sys v6 policy) (\<lambda>res w'. cleaned policy w w'
      \<and> rules w' (\<not> v6) = rules w (\<not> v6)
      \<and> (is_ok res \<longrightarrow> clear policy w \<longrightarrow> own policy w' v6 = [])) w"
proof -
  obtain rs err w1 where g: "rn_get_rules sys v6 w = ((rs, err), w1)" by (metis surj_pair)
  obtain rest where r: "rules w1 = rules w" "rules w v6 = rs @ rest" "err = None \<longrightarrow> rest = []"
    using get [OF g] by blast
  have "\<forall>r\<in>set rs. rm_family r = rule_family_of v6" using stored [of _ w v6] r(2) by simp
  from wp_del_matching [OF this, of policy err w1]
  have "wp (del_matching (rn_del_rule sys) (\<lambda>r. is_policy_rule r policy) err rs)
    (\<lambda>res w'. cleaned policy w w' \<and> rules w' (\<not> v6) = rules w (\<not> v6)
      \<and> (is_ok res \<longrightarrow> clear policy w \<longrightarrow> own policy w' v6 = [])) w1"
    by (rule wp_mono)
      (use r in \<open>auto simp: own_def clear_def intro: cleaned_trans [OF cleaned_refl]\<close>)
  then show ?thesis
    by (simp add: wp_def cleanup_policy_rules_family_def g)
qed

lemma wp_cleanup_rules:
  "wp (cleanup_policy_rules sys policy v4 v6) (\<lambda>res w'. cleaned policy w w'
      \<and> (is_ok res \<longrightarrow> clear policy w \<longrightarrow>
           (v4 \<longrightarrow> own policy w' False = []) \<and> (v6 \<longrightarrow> own policy w' True = []))) w"
proof -
  have 6: "wp (if v6 then cleanup_policy_rules_family sys True policy else returnS ())
      (\<lambda>res w'. cleaned policy w w'
        \<and> (is_ok res \<longrightarrow> clear policy w \<longrightarrow> (v6 \<longrightarrow> own policy w' True = []))
        \<and> rules w' False = rules w False) w" for w
    by (auto simp: wp_rules cleaned_refl intro: wp_mono [OF wp_cleanup_family])
  have keep: "cleaned policy w w' \<Longrightarrow> clear policy w \<Longrightarrow> clear policy w'" for w w'
    by (simp add: cleaned_def)
  show ?thesis
    unfolding cleanup_policy_rules_def wp_bindS
    by (cases v4)
      (auto simp: wp_rules own_def intro!: wp_mono [OF wp_cleanup_family] wp_mono [OF 6]
        intro: cleaned_trans cleaned_refl dest: keep split: sum.split)
qed

text \<open>An application, complete or not, adds rules of the policy only.\<close>

lemma wp_add_own:
  assumes "is_policy_rule r policy" "dumped r"
    and "\<And>res w'. cleaned policy w w' \<Longrightarrow> Q res w'"
  shows "wp (rn_add_rule sys v6 r) Q w"
proof (rule wp_add)
  fix xs r' ys w'
  assume a: "kernel_rule r' = kernel_rule r" "dumped r'" "rules w v6 = xs @ ys"
    "rules w' = (rules w)(v6 := xs @ r' # ys)"
  have "rule_signature r' = rule_signature r"
    using kernel_rule_signature [OF a(2) assms(2) a(1)] .
  then have own: "is_policy_rule r' policy" "\<not> confusable policy r'"
    using assms(1) policy_rule_cong [of r' r policy] by (simp_all add: confusable_def)
  have "clear policy w \<Longrightarrow> clear policy w'"
    unfolding clear_def a(4)
    using a(3) own(2) by (metis Un_iff fun_upd_apply insert_iff list.simps(15) set_append)
  then have "cleaned policy w w'"
    using a(3,4) own policy_reserved by (auto simp: cleaned_def others_def foreign_def)
  then show "Q (Inr ()) w'" by (rule assms(3))
qed (rule assms(3) [OF cleaned_refl])

lemma wp_apply_family:
  assumes "pr_fwmark p \<noteq> 0"
  shows "wp (apply_policy_rules_family sys v6 (pr_fwmark p) (pr_table_id p))
     (\<lambda>_. cleaned (Some p) w) w"
  unfolding apply_policy_rules_family_def Let_def
  by (auto simp: wp_rules intro!: wp_add_own [where policy = "Some p"] message_own
      message_dumped assms split: sum.split) (simp_all add: cleaned_def)

lemma wp_apply_rules:
  assumes "pr_fwmark p \<noteq> 0"
  shows "wp (apply_policy_rules sys (pr_fwmark p) (pr_table_id p) v4 v6) (\<lambda>_. cleaned (Some p) w) w"
  unfolding apply_policy_rules_def
  by (auto simp: wp_rules cleaned_refl intro!: wp_mono [OF wp_apply_family [OF assms]]
      intro: cleaned_trans split: sum.split)

lemma cleaned_snapshot: "cleaned (Some p) w (cleanup_policy_state sys p w)"
proof -
  have del: "cleaned (Some p) w (snd (rn_del_rule sys r w))" if "is_policy_rule r (Some p)" for r w
  proof -
    have "wp (rn_del_rule sys r) (\<lambda>_. cleaned (Some p) w) w"
      by (rule wp_del) (use that in \<open>auto intro: cleaned_refl deleted(1)\<close>)
    then show ?thesis by (simp add: wp_def split: prod.splits)
  qed
  have *: "cleaned (Some p) w (del_each (rn_del_rule sys) ms w)"
    if "\<forall>m\<in>set ms. is_policy_rule m (Some p)" for ms w
    using that by (induction ms arbitrary: w) (auto intro: cleaned_refl cleaned_trans [OF del])
  have "\<forall>m\<in>set (policy_rule_messages (policy_snapshot p)). is_policy_rule m (Some p)"
    by (auto simp: policy_rule_messages_def policy_snapshot_def recovery_messages message_own)
  from * [OF this] show ?thesis
    by (simp add: cleanup_policy_state_def cleanup_policy_snapshot_def)
qed

text \<open>Applied and cleaned up again, the tables are what they were.\<close>

lemma apply_cleanup:
  assumes "pr_fwmark p \<noteq> 0"
    and free: "\<And>v6 r. r \<in> set (rules w v6) \<Longrightarrow> \<not> taken_for (Some p) r"
    and "apply_policy_rules sys (pr_fwmark p) (pr_table_id p) v4 v6 w = (res, w1)"
    and "cleanup_policy_rules sys (Some p) True True w1 = (Inr u, w2)"
  shows "rules w2 = rules w"
proof -
  have c: "clear (Some p) w" using free by (auto simp: clear_def confusable_def)
  have 1: "cleaned (Some p) w w1" by (rule wpD [OF wp_apply_rules [OF assms(1)] assms(3)])
  have 2: "cleaned (Some p) w1 w2"
    and e: "clear (Some p) w1 \<Longrightarrow> own (Some p) w2 False = [] \<and> own (Some p) w2 True = []"
    using wpD [OF wp_cleanup_rules assms(4)] by simp_all
  have o: "others (Some p) w2 f = others (Some p) w f" for f
    using cleaned_trans [OF 1 2] c by (simp add: cleaned_def)
  have "own (Some p) w f = []" for f using free own_taken by (auto simp: own_def filter_empty_conv)
  moreover have "own (Some p) w2 f = []" for f
    using e 1 c by (cases f) (simp_all add: cleaned_def)
  ultimately have "rules w f = others (Some p) w f" "rules w2 f = others (Some p) w2 f" for f
    by (simp_all add: own_def others_def filter_empty_conv filter_id_conv)
  with o show ?thesis by (simp add: fun_eq_iff)
qed

end

subsection \<open>A rule table with faults\<close>

text \<open>The rules of both families in one list, as a dump would show them.\<close>

record rule_world =
  rw_rules :: "rule_message list"
  rw_faults :: "bool list"

definition rule_call ::
  "(network_error + 'a) \<times> rule_world \<Rightarrow> rule_world \<Rightarrow> (network_error + 'a) \<times> rule_world" where
  "rule_call ok w =
     (case rw_faults w of
        [] \<Rightarrow> ok
      | f # fs \<Rightarrow> if f then (Inl (NetNetlink ''fault''), w\<lparr>rw_faults := fs\<rparr>)
                else (fst ok, (snd ok)\<lparr>rw_faults := fs\<rparr>))"

definition sim_rules :: "rule_world \<Rightarrow> bool \<Rightarrow> rule_message list" where
  "sim_rules w v6 = filter (\<lambda>r. rm_family r = rule_family_of v6 \<and> dumped r) (rw_rules w)"

definition dump_rule :: "bool \<Rightarrow> rule_message \<Rightarrow> rule_message" where
  "dump_rule v6 r =
     (case kernel_rule r of (act, t, prio, mark, inverted, suppress) \<Rightarrow>
        \<lparr>rm_family = rule_family_of v6, rm_action = act, rm_table = ucast t, rm_invert = inverted,
         rm_attributes = [RaTable t, RaOther] @ (if prio = 0 then [] else [RaPriority prio])
           @ (if mark = 0 then [] else [RaFwMark mark])
           @ (if suppress = -1 then [] else [RaSuppressPrefixLen suppress])\<rparr>)"

lemma dump_rule [simp]:
  "kernel_rule (dump_rule v6 r) = kernel_rule r" "dumped (dump_rule v6 r)"
  "rm_family (dump_rule v6 r) = rule_family_of v6"
  by (auto simp: dump_rule_def kernel_rule_def dumped_def rule_priority_def rule_fwmark_def
      rule_suppress_prefix_len_def rule_table_id_def Let_def split: prod.splits)

text \<open>A new rule goes before the first one with a higher priority value.\<close>

definition insert_rule :: "rule_message \<Rightarrow> rule_message list \<Rightarrow> rule_message list" where
  "insert_rule r rs =
     (let before = (\<lambda>r'. case_option 0 id (rule_priority r') \<le> case_option 0 id (rule_priority r)) in
      takeWhile before rs @ r # dropWhile before rs)"

definition sim_rule_sys :: "rule_world rule_sys" where
  "sim_rule_sys =
     \<lparr>rn_add_rule = (\<lambda>v6 r w. rule_call (Inr (),
        w\<lparr>rw_rules := insert_rule (dump_rule v6 r) (rw_rules w)\<rparr>) w),
      rn_get_rules = (\<lambda>v6 w. case rule_call (Inr (), w) w of
          (Inl e, w') \<Rightarrow> (([], Some e), w')
        | (Inr _, w') \<Rightarrow> ((sim_rules w v6, None), w')),
      rn_del_rule = (\<lambda>r w. case List.extract (\<lambda>r'. rm_family r \<noteq> AfUnspec \<and> rm_family r' = rm_family r
            \<and> dumped r' \<and> kernel_matches r r') (rw_rules w) of
          None \<Rightarrow> (Inl (NetNetlink ''no such rule''), w)
        | Some (xs, _, ys) \<Rightarrow> rule_call (Inr (), w\<lparr>rw_rules := xs @ ys\<rparr>) w)\<rparr>"

lemma rule_call_wp:
  assumes "\<And>fs. Q (Inl (NetNetlink ''fault'')) (w\<lparr>rw_faults := fs\<rparr>)" "\<And>fs. Q r (w'\<lparr>rw_faults := fs\<rparr>)"
  shows "wp (rule_call (r, w')) Q w"
  using assms(1) assms(2) [of "rw_faults w'"] assms(2)
  by (auto simp: wp_def rule_call_def split: list.split)

lemma sim_rules_faults [simp]: "sim_rules (w\<lparr>rw_faults := fs\<rparr>) = sim_rules w"
  by (simp add: sim_rules_def fun_eq_iff)

lemma sim_rules_parts:
  "sim_rules (w\<lparr>rw_rules := xs @ ys\<rparr>) v6
     = sim_rules (w\<lparr>rw_rules := xs\<rparr>) v6 @ sim_rules (w\<lparr>rw_rules := ys\<rparr>) v6"
  "rm_family r = rule_family_of v6 \<Longrightarrow> dumped r \<Longrightarrow> sim_rules (w\<lparr>rw_rules := r # ys\<rparr>) f
     = (if f = v6 then r # sim_rules (w\<lparr>rw_rules := ys\<rparr>) f else sim_rules (w\<lparr>rw_rules := ys\<rparr>) f)"
  by (auto simp: sim_rules_def rule_family_of_def)

lemma sim_add:
  "wp (rn_add_rule sim_rule_sys v6 r) (\<lambda>res w'. case res of
        Inl _ \<Rightarrow> sim_rules w' = sim_rules w
      | Inr _ \<Rightarrow> \<exists>xs r' ys. kernel_rule r' = kernel_rule r \<and> sim_rules w v6 = xs @ ys
          \<and> sim_rules w' = (sim_rules w)(v6 := xs @ r' # ys)) w"
proof -
  let ?r = "dump_rule v6 r"
  let ?before = "\<lambda>r'. case_option 0 id (rule_priority r') \<le> case_option 0 id (rule_priority ?r)"
  let ?xs = "takeWhile ?before (rw_rules w)" and ?ys = "dropWhile ?before (rw_rules w)"
  have "sim_rules w = sim_rules (w\<lparr>rw_rules := ?xs @ ?ys\<rparr>)" by simp
  then have "sim_rules w f = sim_rules (w\<lparr>rw_rules := ?xs\<rparr>) f @ sim_rules (w\<lparr>rw_rules := ?ys\<rparr>) f" for f
    by (simp only: sim_rules_parts)
  moreover have "insert_rule ?r (rw_rules w) = ?xs @ ?r # ?ys" by (simp add: insert_rule_def Let_def)
  ultimately have "sim_rules w v6 = sim_rules (w\<lparr>rw_rules := ?xs\<rparr>) v6 @ sim_rules (w\<lparr>rw_rules := ?ys\<rparr>) v6"
    "sim_rules (w\<lparr>rw_rules := insert_rule ?r (rw_rules w)\<rparr>) = (sim_rules w)
       (v6 := sim_rules (w\<lparr>rw_rules := ?xs\<rparr>) v6 @ ?r # sim_rules (w\<lparr>rw_rules := ?ys\<rparr>) v6)"
    by (auto simp: fun_eq_iff sim_rules_parts(1) sim_rules_parts(2) [of ?r v6])
  then have "\<exists>xs r' ys. kernel_rule r' = kernel_rule r \<and> sim_rules w v6 = xs @ ys
      \<and> sim_rules (w\<lparr>rw_rules := insert_rule ?r (rw_rules w)\<rparr>)
        = (sim_rules w)(v6 := xs @ r' # ys)"
    by (metis dump_rule(1))
  then show ?thesis
    using rule_call_wp [where w = w and r = "Inr ()"
        and w' = "w\<lparr>rw_rules := insert_rule ?r (rw_rules w)\<rparr>"]
    by (simp add: sim_rule_sys_def wp_def)
qed

lemma sim_del:
  "wp (rn_del_rule sim_rule_sys r) (\<lambda>res w'. case res of
        Inl _ \<Rightarrow> sim_rules w' = sim_rules w
      | Inr _ \<Rightarrow> \<exists>v6 xs r' ys. rm_family r = rule_family_of v6 \<and> sim_rules w v6 = xs @ r' # ys
          \<and> kernel_matches r r' \<and> sim_rules w' = (sim_rules w)(v6 := xs @ ys)) w"
proof (cases "List.extract (\<lambda>r'. rm_family r \<noteq> AfUnspec \<and> rm_family r' = rm_family r
            \<and> dumped r' \<and> kernel_matches r r') (rw_rules w)")
  case None
  then show ?thesis by (simp add: sim_rule_sys_def wp_def)
next
  case (Some t)
  obtain xs r' ys where t: "t = (xs, r', ys)" by (metis prod_cases3)
  with Some have x: "rw_rules w = xs @ r' # ys" "rm_family r \<noteq> AfUnspec" "rm_family r' = rm_family r"
    "dumped r'" "kernel_matches r r'"
    by (auto simp: extract_Some_iff)
  obtain v6 where v6: "rm_family r = rule_family_of v6"
    using x(2) that [of True] that [of False]
    by (cases "rm_family r") (auto simp: rule_family_of_def)
  have "sim_rules w = sim_rules (w\<lparr>rw_rules := xs @ r' # ys\<rparr>)" by (simp flip: x(1))
  then have "sim_rules w v6 = sim_rules (w\<lparr>rw_rules := xs\<rparr>) v6 @ r' # sim_rules (w\<lparr>rw_rules := ys\<rparr>) v6"
    "sim_rules (w\<lparr>rw_rules := xs @ ys\<rparr>) = (sim_rules w)(v6 := sim_rules (w\<lparr>rw_rules := xs\<rparr>) v6
       @ sim_rules (w\<lparr>rw_rules := ys\<rparr>) v6)"
    using v6 x(3,4) by (auto simp: fun_eq_iff sim_rules_parts(1) sim_rules_parts(2) [of r' v6])
  with v6 x(5) have "\<exists>v6 as r' bs. rm_family r = rule_family_of v6 \<and> sim_rules w v6 = as @ r' # bs
      \<and> kernel_matches r r' \<and> sim_rules (w\<lparr>rw_rules := xs @ ys\<rparr>) = (sim_rules w)(v6 := as @ bs)"
    by blast
  then show ?thesis
    using rule_call_wp [where w = w and r = "Inr ()" and w' = "w\<lparr>rw_rules := xs @ ys\<rparr>"]
    by (simp add: sim_rule_sys_def wp_def Some t)
qed

lemma sim_get:
  assumes "rn_get_rules sim_rule_sys v6 w = ((rs, err), w')"
  shows "sim_rules w' = sim_rules w
    \<and> (\<exists>rest. sim_rules w v6 = rs @ rest \<and> (err = None \<longrightarrow> rest = []))"
  using assms
  by (auto simp: sim_rule_sys_def rule_call_def split: prod.splits sum.splits list.splits if_splits)

interpretation sim_rule: rule_tables sim_rule_sys sim_rules
  by unfold_locales (rule sim_add, rule sim_get, assumption, simp add: sim_rules_def, rule sim_del)

subsection \<open>Once per process, under interleaving\<close>

text \<open>
  Callers race on the flag: each of them tries the compare-exchange, and the ones that win
  run the cleanup and store its outcome. The state has the flag, the number of callers inside
  and the number of successful cleanups so far.
\<close>

record once_state =
  on_flag :: u8
  on_inside :: nat
  on_successes :: nat

definition once_initial :: once_state where
  "once_initial = \<lparr>on_flag = CLEANUP_STATE_IDLE, on_inside = 0, on_successes = 0\<rparr>"

inductive once_step :: "once_state \<Rightarrow> once_state \<Rightarrow> bool" where
  enter: "begin_cleanup_once (on_flag s) = (True, f)
    \<Longrightarrow> once_step s (s\<lparr>on_flag := f, on_inside := Suc (on_inside s)\<rparr>)"
| skip: "begin_cleanup_once (on_flag s) = (False, f) \<Longrightarrow> once_step s (s\<lparr>on_flag := f\<rparr>)"
| leave: "on_inside s = Suc n \<Longrightarrow> once_step s
    \<lparr>on_flag = finish_cleanup_once ok (on_flag s), on_inside = n,
     on_successes = on_successes s + (if ok then 1 else 0)\<rparr>"

inductive once_reachable :: "once_state \<Rightarrow> bool" where
  init: "once_reachable once_initial"
| step: "once_reachable s \<Longrightarrow> once_step s s' \<Longrightarrow> once_reachable s'"

lemma cleanup_states [simp]:
  "CLEANUP_STATE_IDLE \<noteq> CLEANUP_STATE_IN_PROGRESS" "CLEANUP_STATE_IN_PROGRESS \<noteq> CLEANUP_STATE_IDLE"
  "CLEANUP_STATE_IDLE \<noteq> CLEANUP_STATE_DONE" "CLEANUP_STATE_DONE \<noteq> CLEANUP_STATE_IDLE"
  "CLEANUP_STATE_IN_PROGRESS \<noteq> CLEANUP_STATE_DONE" "CLEANUP_STATE_DONE \<noteq> CLEANUP_STATE_IN_PROGRESS"
  by (simp_all add: CLEANUP_STATE_IDLE_def CLEANUP_STATE_IN_PROGRESS_def CLEANUP_STATE_DONE_def)

lemma once_invariant:
  assumes "once_reachable s"
  shows "(on_flag s = CLEANUP_STATE_IDLE \<and> on_inside s = 0 \<and> on_successes s = 0)
    \<or> (on_flag s = CLEANUP_STATE_IN_PROGRESS \<and> on_inside s = 1 \<and> on_successes s = 0)
    \<or> (on_flag s = CLEANUP_STATE_DONE \<and> on_inside s = 0 \<and> on_successes s = 1)"
  using assms
proof induction
  case (step s s')
  from step.hyps(2) show ?case
    by cases (use step.IH in \<open>auto simp: begin_cleanup_once_def finish_cleanup_once_def split: if_splits\<close>)
qed (simp add: once_initial_def)

end
