(* ===== verification/Net_Firewall.thy ===== *)
theory Net_Firewall
  imports Net_Policy
begin

text \<open>
  \<open>platform/linux/network/killswitch.rs\<close>: the kill switch and the traffic guard of the
  quantum negotiation, on nftables or iptables. Running a program, testing for a file, the
  JSON codec and the journal file are the operations of \<open>fw_sys\<close>.
\<close>

record exec_output =
  xo_success :: bool
  xo_code :: "i32 option"
  xo_stderr :: string

datatype firewall_backend = Nftables | Iptables

record kill_switch =
  kw_backend :: firewall_backend
  kw_tun_name :: string
  kw_fwmark :: u32
  kw_ipv4 :: bool
  kw_ipv6 :: bool

record quantum_guard =
  qg_backend :: firewall_backend
  qg_tun_name :: string
  qg_block_ipv6 :: bool

datatype file_error = FileNotFound | FileFailed string

record 'w fw_sys =
  fw_is_file :: "string \<Rightarrow> 'w \<Rightarrow> bool"
  fw_exec :: "string \<Rightarrow> string list \<Rightarrow> string option \<Rightarrow> ('w, string, exec_output) op"
  fw_encode :: "quantum_guard \<Rightarrow> string + string"
  fw_decode :: "string \<Rightarrow> string + quantum_guard"
  fw_create_dir :: "('w, string, unit) op"
  fw_write_atomic :: "string \<Rightarrow> ('w, string, unit) op"
  fw_read_journal :: "('w, file_error, string) op"
  fw_remove_journal :: "('w, file_error, unit) op"
  fw_rename_corrupt :: "('w, string, unit) op"

subsection \<open>Commands\<close>

definition command_dirs :: "string list" where
  "command_dirs =
     [''/usr/local/sbin'', ''/usr/local/bin'', ''/usr/sbin'', ''/usr/bin'', ''/sbin'', ''/bin'']"

definition resolve_command :: "'w fw_sys \<Rightarrow> string \<Rightarrow> 'w \<Rightarrow> string option" where
  "resolve_command sys program w =
     (if contains_str ''/'' program
      then (if fw_is_file sys program w then Some program else None)
      else find (\<lambda>p. fw_is_file sys p w) (map (\<lambda>d. d @ ''/'' @ program) command_dirs))"

definition format_command :: "string \<Rightarrow> string list \<Rightarrow> string" where
  "format_command program args = program @ concat (map (\<lambda>a. '' '' @ a) args)"

definition command_failed :: "string \<Rightarrow> string list \<Rightarrow> exec_output \<Rightarrow> network_error" where
  "command_failed program args out =
     CommandFailed (format_command program args) (xo_code out) (trim (xo_stderr out))"

definition run_cmd :: "'w fw_sys \<Rightarrow> string \<Rightarrow> string list \<Rightarrow> ('w, network_error, unit) op" where
  "run_cmd sys program args =
     bindS (map_errS NetIo (fw_exec sys program args None)) (\<lambda>out.
     if xo_success out then returnS () else throwS (command_failed program args out))"

definition run_cmd_with_input ::
  "'w fw_sys \<Rightarrow> string \<Rightarrow> string list \<Rightarrow> string \<Rightarrow> ('w, network_error, unit) op" where
  "run_cmd_with_input sys program args input =
     bindS (map_errS NetIo (fw_exec sys program args (Some input))) (\<lambda>out.
     if xo_success out then returnS () else throwS (command_failed program args out))"

definition is_missing_firewall_state :: "network_error \<Rightarrow> bool" where
  "is_missing_firewall_state e =
     (case e of
        CommandFailed _ _ stderr \<Rightarrow>
          let n = to_ascii_lowercase stderr in
          contains_str ''no such file'' n \<or> contains_str ''no such table'' n
          \<or> contains_str ''no such chain'' n \<or> contains_str ''does not exist'' n
          \<or> contains_str ''does a matching rule exist'' n \<or> contains_str ''no chain/target/match'' n
      | _ \<Rightarrow> False)"

definition ignore_missing_firewall_state ::
  "('w, network_error, unit) op \<Rightarrow> ('w, network_error, unit) op" where
  "ignore_missing_firewall_state m =
     withS m (\<lambda>r. case r of
       Inr _ \<Rightarrow> returnS ()
     | Inl e \<Rightarrow> if is_missing_firewall_state e then returnS () else throwS e)"

definition require_command ::
  "'w fw_sys \<Rightarrow> string \<Rightarrow> (string \<Rightarrow> ('w, network_error, 'a) op) \<Rightarrow> ('w, network_error, 'a) op" where
  "require_command sys program k =
     askS (\<lambda>w. case resolve_command sys program w of
       None \<Rightarrow> throwS (KillSwitchUnavailable (program @ '' command not found''))
     | Some path \<Rightarrow> k path)"

subsection \<open>nftables\<close>

definition NFT_TABLE_NAME :: string where "NFT_TABLE_NAME = ''r_wg_killswitch''"
definition QUANTUM_NFT_TABLE_NAME :: string where "QUANTUM_NFT_TABLE_NAME = ''r_wg_quantum_start''"
definition CONFIG_SERVICE_GATEWAY :: string where "CONFIG_SERVICE_GATEWAY = ''10.64.0.1''"
definition CONFIG_SERVICE_PORT :: string where "CONFIG_SERVICE_PORT = ''1337''"

text \<open>\<open>value.replace('\', "\\").replace('"', "\"")\<close>, character by character.\<close>

definition nft_string :: "string \<Rightarrow> string" where
  "nft_string s =
     concat (map (\<lambda>c. if c = CHR 0x22 then [CHR 0x5C, c] else [c])
       (concat (map (\<lambda>c. if c = CHR 0x5C then [c, c] else [c]) s)))"

definition nft_line :: "string \<Rightarrow> string" where
  "nft_line s = s @ [CHR 0x0A]"

definition nft_script :: "string \<Rightarrow> u32 \<Rightarrow> bool \<Rightarrow> bool \<Rightarrow> string" where
  "nft_script tun mark ipv4 ipv6 =
     nft_line (''add table inet '' @ NFT_TABLE_NAME)
     @ nft_line (''add chain inet '' @ NFT_TABLE_NAME
         @ '' output { type filter hook output priority 0; policy accept; }'')
     @ nft_line (''add rule inet '' @ NFT_TABLE_NAME @ '' output oifname '' @ [CHR 0x22] @ ''lo''
         @ [CHR 0x22] @ '' accept'')
     @ nft_line (''add rule inet '' @ NFT_TABLE_NAME @ '' output oifname '' @ [CHR 0x22]
         @ nft_string tun @ [CHR 0x22] @ '' accept'')
     @ nft_line (''add rule inet '' @ NFT_TABLE_NAME @ '' output meta mark 0x''
         @ show_hex (unat mark) @ '' accept'')
     @ (if ipv4 then nft_line (''add rule inet '' @ NFT_TABLE_NAME
         @ '' output meta nfproto ipv4 drop'') else [])
     @ (if ipv6 then nft_line (''add rule inet '' @ NFT_TABLE_NAME
         @ '' output meta nfproto ipv6 drop'') else [])"

definition quantum_nft_script :: "string \<Rightarrow> string" where
  "quantum_nft_script tun =
     nft_line (''add table inet '' @ QUANTUM_NFT_TABLE_NAME)
     @ nft_line (''add chain inet '' @ QUANTUM_NFT_TABLE_NAME
         @ '' output { type filter hook output priority -10; policy accept; }'')
     @ nft_line (''add rule inet '' @ QUANTUM_NFT_TABLE_NAME @ '' output oifname '' @ [CHR 0x22]
         @ nft_string tun @ [CHR 0x22] @ '' ip daddr '' @ CONFIG_SERVICE_GATEWAY
         @ '' tcp dport '' @ CONFIG_SERVICE_PORT @ '' accept'')
     @ nft_line (''add rule inet '' @ QUANTUM_NFT_TABLE_NAME @ '' output oifname '' @ [CHR 0x22]
         @ nft_string tun @ [CHR 0x22] @ '' reject'')"

definition cleanup_nft_table :: "'w fw_sys \<Rightarrow> string \<Rightarrow> string \<Rightarrow> ('w, network_error, unit) op" where
  "cleanup_nft_table sys nft table =
     ignore_missing_firewall_state (run_cmd sys nft [''delete'', ''table'', ''inet'', table])"

definition cleanup_nftables :: "'w fw_sys \<Rightarrow> string \<Rightarrow> ('w, network_error, unit) op" where
  "cleanup_nftables sys nft = cleanup_nft_table sys nft NFT_TABLE_NAME"

definition cleanup_quantum_nftables :: "'w fw_sys \<Rightarrow> string \<Rightarrow> ('w, network_error, unit) op" where
  "cleanup_quantum_nftables sys nft = cleanup_nft_table sys nft QUANTUM_NFT_TABLE_NAME"

definition apply_nftables ::
  "'w fw_sys \<Rightarrow> string \<Rightarrow> string \<Rightarrow> u32 \<Rightarrow> bool \<Rightarrow> bool \<Rightarrow> ('w, network_error, unit) op" where
  "apply_nftables sys nft tun mark ipv4 ipv6 =
     ignoreS (cleanup_nftables sys nft)
       (run_cmd_with_input sys nft [''-f'', ''-''] (nft_script tun mark ipv4 ipv6))"

definition apply_quantum_nftables ::
  "'w fw_sys \<Rightarrow> string \<Rightarrow> string \<Rightarrow> ('w, network_error, unit) op" where
  "apply_quantum_nftables sys nft tun =
     ignoreS (cleanup_quantum_nftables sys nft)
       (run_cmd_with_input sys nft [''-f'', ''-''] (quantum_nft_script tun))"

subsection \<open>iptables\<close>

definition IPTABLES_CHAIN_NAME :: string where "IPTABLES_CHAIN_NAME = ''R_WG_KILLSWITCH''"
definition QUANTUM_IPTABLES_CHAIN_NAME :: string where
  "QUANTUM_IPTABLES_CHAIN_NAME = ''R_WG_QUANTUM_START''"

text \<open>The commands in a row, up to the first that fails.\<close>

fun run_all :: "'w fw_sys \<Rightarrow> string \<Rightarrow> string list list \<Rightarrow> ('w, network_error, unit) op" where
  "run_all sys program [] = returnS ()"
| "run_all sys program (args # rest) =
     bindS (run_cmd sys program args) (\<lambda>_. run_all sys program rest)"

text \<open>At most eight jumps are removed.\<close>

fun delete_jumps :: "nat \<Rightarrow> 'w fw_sys \<Rightarrow> string \<Rightarrow> string \<Rightarrow> ('w, network_error, unit) op" where
  "delete_jumps 0 sys program chain = returnS ()"
| "delete_jumps (Suc n) sys program chain =
     withS (run_cmd sys program [''-w'', ''-D'', ''OUTPUT'', ''-j'', chain]) (\<lambda>r. case r of
       Inr _ \<Rightarrow> delete_jumps n sys program chain
     | Inl e \<Rightarrow> if is_missing_firewall_state e then returnS () else throwS e)"

definition cleanup_chain :: "'w fw_sys \<Rightarrow> string \<Rightarrow> string \<Rightarrow> ('w, network_error, unit) op" where
  "cleanup_chain sys program chain =
     bindS (delete_jumps 8 sys program chain) (\<lambda>_.
     bindS (ignore_missing_firewall_state (run_cmd sys program [''-w'', ''-F'', chain])) (\<lambda>_.
     ignore_missing_firewall_state (run_cmd sys program [''-w'', ''-X'', chain])))"

definition cleanup_iptables_family :: "'w fw_sys \<Rightarrow> string \<Rightarrow> ('w, network_error, unit) op" where
  "cleanup_iptables_family sys program = cleanup_chain sys program IPTABLES_CHAIN_NAME"

definition cleanup_quantum_iptables_family ::
  "'w fw_sys \<Rightarrow> string \<Rightarrow> ('w, network_error, unit) op" where
  "cleanup_quantum_iptables_family sys program =
     cleanup_chain sys program QUANTUM_IPTABLES_CHAIN_NAME"

definition apply_iptables_family_inner ::
  "'w fw_sys \<Rightarrow> string \<Rightarrow> string \<Rightarrow> u32 \<Rightarrow> ('w, network_error, unit) op" where
  "apply_iptables_family_inner sys program tun mark =
     run_all sys program
       [[''-w'', ''-N'', IPTABLES_CHAIN_NAME],
        [''-w'', ''-A'', IPTABLES_CHAIN_NAME, ''-o'', ''lo'', ''-j'', ''RETURN''],
        [''-w'', ''-A'', IPTABLES_CHAIN_NAME, ''-o'', tun, ''-j'', ''RETURN''],
        [''-w'', ''-A'', IPTABLES_CHAIN_NAME, ''-m'', ''mark'', ''--mark'',
           ''0x'' @ show_hex (unat mark) @ ''/0xffffffff'', ''-j'', ''RETURN''],
        [''-w'', ''-A'', IPTABLES_CHAIN_NAME, ''-j'', ''REJECT''],
        [''-w'', ''-I'', ''OUTPUT'', ''1'', ''-j'', IPTABLES_CHAIN_NAME]]"

text \<open>Clean up, run, and clean up again when it failed.\<close>

definition guarded_apply ::
  "('w, network_error, unit) op \<Rightarrow> ('w, network_error, unit) op \<Rightarrow> ('w, network_error, unit) op" where
  "guarded_apply cleanup m =
     ignoreS cleanup (withS m (\<lambda>r. if is_ok r then liftS r else ignoreS cleanup (liftS r)))"

definition apply_iptables_family ::
  "'w fw_sys \<Rightarrow> string \<Rightarrow> string \<Rightarrow> u32 \<Rightarrow> ('w, network_error, unit) op" where
  "apply_iptables_family sys program tun mark =
     guarded_apply (cleanup_iptables_family sys program)
       (apply_iptables_family_inner sys program tun mark)"

text \<open>\<open>apply_iptables_with_resolver\<close>: the IPv4 chain is taken back when IPv6 fails.\<close>

definition apply_ip6tables ::
  "'w fw_sys \<Rightarrow> (string \<Rightarrow> string option) \<Rightarrow> string option \<Rightarrow> string \<Rightarrow> u32
   \<Rightarrow> ('w, network_error, unit) op" where
  "apply_ip6tables sys resolve iptables tun mark =
     (case resolve ''ip6tables'' of
        None \<Rightarrow>
          bindS (case iptables of Some p \<Rightarrow> cleanup_iptables_family sys p | None \<Rightarrow> returnS ())
            (\<lambda>_. throwS (KillSwitchUnavailable ''ip6tables command not found''))
      | Some path \<Rightarrow>
          withS (apply_iptables_family sys path tun mark) (\<lambda>r. case r of
            Inr _ \<Rightarrow> returnS ()
          | Inl e \<Rightarrow>
              (case iptables of
                 Some p \<Rightarrow> ignoreS (cleanup_iptables_family sys p) (throwS e)
               | None \<Rightarrow> throwS e)))"

definition apply_iptables_with_resolver ::
  "'w fw_sys \<Rightarrow> (string \<Rightarrow> string option) \<Rightarrow> string \<Rightarrow> u32 \<Rightarrow> bool \<Rightarrow> bool
   \<Rightarrow> ('w, network_error, unit) op" where
  "apply_iptables_with_resolver sys resolve tun mark ipv4 ipv6 =
     bindS (if ipv4
            then (case resolve ''iptables'' of
                    None \<Rightarrow> throwS (KillSwitchUnavailable ''iptables command not found'')
                  | Some p \<Rightarrow> bindS (apply_iptables_family sys p tun mark) (\<lambda>_. returnS (Some p)))
            else returnS None) (\<lambda>iptables.
     bindS (if ipv6 then apply_ip6tables sys resolve iptables tun mark else returnS ()) (\<lambda>_.
     if ipv4 \<or> ipv6 then returnS ()
     else throwS (KillSwitchUnavailable ''no enabled iptables address family'')))"

definition apply_iptables ::
  "'w fw_sys \<Rightarrow> string \<Rightarrow> u32 \<Rightarrow> bool \<Rightarrow> bool \<Rightarrow> ('w, network_error, unit) op" where
  "apply_iptables sys tun mark ipv4 ipv6 =
     askS (\<lambda>w. apply_iptables_with_resolver sys (\<lambda>p. resolve_command sys p w) tun mark ipv4 ipv6)"

definition cleanup_both ::
  "'w fw_sys \<Rightarrow> (string \<Rightarrow> ('w, network_error, unit) op) \<Rightarrow> bool \<Rightarrow> bool
   \<Rightarrow> ('w, network_error, unit) op" where
  "cleanup_both sys clean ipv4 ipv6 =
     bindS (if ipv4 then require_command sys ''iptables'' clean else returnS ()) (\<lambda>_.
     if ipv6 then require_command sys ''ip6tables'' clean else returnS ())"

definition cleanup_iptables :: "'w fw_sys \<Rightarrow> bool \<Rightarrow> bool \<Rightarrow> ('w, network_error, unit) op" where
  "cleanup_iptables sys ipv4 ipv6 = cleanup_both sys (cleanup_iptables_family sys) ipv4 ipv6"

subsection \<open>The kill switch\<close>

text \<open>What both callers do with the outcome of the iptables fallback.\<close>

definition fallback_error :: "string \<Rightarrow> network_error option \<Rightarrow> network_error \<Rightarrow> network_error" where
  "fallback_error none nft_error e =
     (case e of
        KillSwitchUnavailable _ \<Rightarrow>
          (case nft_error of Some x \<Rightarrow> x | None \<Rightarrow> KillSwitchUnavailable none)
      | _ \<Rightarrow> e)"

definition apply_kill_switch ::
  "'w fw_sys \<Rightarrow> string \<Rightarrow> u32 \<Rightarrow> bool \<Rightarrow> bool \<Rightarrow> ('w, network_error, kill_switch) op" where
  "apply_kill_switch sys tun mark ipv4 ipv6 =
     (if \<not> ipv4 \<and> \<not> ipv6
      then throwS (KillSwitchUnavailable ''no full-tunnel address families require protection'')
      else
        let state = (\<lambda>b. \<lparr>kw_backend = b, kw_tun_name = tun, kw_fwmark = mark,
              kw_ipv4 = ipv4, kw_ipv6 = ipv6\<rparr>);
            fallback = (\<lambda>nft_error. withS (apply_iptables sys tun mark ipv4 ipv6) (\<lambda>r. case r of
                Inr _ \<Rightarrow> returnS (state Iptables)
              | Inl e \<Rightarrow> throwS (fallback_error ''nftables and iptables backends are unavailable''
                  nft_error e)))
        in askS (\<lambda>w. case resolve_command sys ''nft'' w of
             None \<Rightarrow> fallback None
           | Some nft \<Rightarrow>
               withS (apply_nftables sys nft tun mark ipv4 ipv6) (\<lambda>r. case r of
                 Inr _ \<Rightarrow> returnS (state Nftables)
               | Inl e \<Rightarrow> ignoreS (cleanup_nftables sys nft) (fallback (Some e)))))"

definition cleanup_kill_switch :: "'w fw_sys \<Rightarrow> kill_switch \<Rightarrow> ('w, network_error, unit) op" where
  "cleanup_kill_switch sys k =
     (case kw_backend k of
        Nftables \<Rightarrow> require_command sys ''nft'' (cleanup_nftables sys)
      | Iptables \<Rightarrow> cleanup_iptables sys (kw_ipv4 k) (kw_ipv6 k))"

subsection \<open>The guard of the quantum negotiation\<close>

definition apply_quantum_iptables_v4 ::
  "'w fw_sys \<Rightarrow> string \<Rightarrow> string \<Rightarrow> ('w, network_error, unit) op" where
  "apply_quantum_iptables_v4 sys program tun =
     guarded_apply (cleanup_quantum_iptables_family sys program)
       (run_all sys program
         [[''-w'', ''-N'', QUANTUM_IPTABLES_CHAIN_NAME],
          [''-w'', ''-A'', QUANTUM_IPTABLES_CHAIN_NAME, ''-o'', tun, ''-p'', ''tcp'', ''-d'',
             CONFIG_SERVICE_GATEWAY, ''--dport'', CONFIG_SERVICE_PORT, ''-j'', ''RETURN''],
          [''-w'', ''-A'', QUANTUM_IPTABLES_CHAIN_NAME, ''-o'', tun, ''-j'', ''REJECT''],
          [''-w'', ''-I'', ''OUTPUT'', ''1'', ''-j'', QUANTUM_IPTABLES_CHAIN_NAME]])"

definition apply_quantum_iptables_v6 ::
  "'w fw_sys \<Rightarrow> string \<Rightarrow> string \<Rightarrow> ('w, network_error, unit) op" where
  "apply_quantum_iptables_v6 sys program tun =
     guarded_apply (cleanup_quantum_iptables_family sys program)
       (run_all sys program
         [[''-w'', ''-N'', QUANTUM_IPTABLES_CHAIN_NAME],
          [''-w'', ''-A'', QUANTUM_IPTABLES_CHAIN_NAME, ''-o'', tun, ''-j'', ''REJECT''],
          [''-w'', ''-I'', ''OUTPUT'', ''1'', ''-j'', QUANTUM_IPTABLES_CHAIN_NAME]])"

definition apply_quantum_iptables ::
  "'w fw_sys \<Rightarrow> string \<Rightarrow> bool \<Rightarrow> ('w, network_error, unit) op" where
  "apply_quantum_iptables sys tun block_ipv6 =
     require_command sys ''iptables'' (\<lambda>iptables.
     bindS (apply_quantum_iptables_v4 sys iptables tun) (\<lambda>_.
     if \<not> block_ipv6 then returnS ()
     else askS (\<lambda>w. case resolve_command sys ''ip6tables'' w of
         None \<Rightarrow> ignoreS (cleanup_quantum_iptables_family sys iptables)
           (throwS (KillSwitchUnavailable ''ip6tables command not found''))
       | Some ip6 \<Rightarrow>
           withS (apply_quantum_iptables_v6 sys ip6 tun) (\<lambda>r. case r of
             Inr _ \<Rightarrow> returnS ()
           | Inl e \<Rightarrow> ignoreS (cleanup_quantum_iptables_family sys iptables) (throwS e)))))"

definition cleanup_quantum_iptables :: "'w fw_sys \<Rightarrow> bool \<Rightarrow> ('w, network_error, unit) op" where
  "cleanup_quantum_iptables sys block_ipv6 =
     cleanup_both sys (cleanup_quantum_iptables_family sys) True block_ipv6"

definition cleanup_firewall :: "'w fw_sys \<Rightarrow> quantum_guard \<Rightarrow> ('w, network_error, unit) op" where
  "cleanup_firewall sys g =
     (case qg_backend g of
        Nftables \<Rightarrow> require_command sys ''nft'' (cleanup_quantum_nftables sys)
      | Iptables \<Rightarrow> cleanup_quantum_iptables sys (qg_block_ipv6 g))"

text \<open>The journal of the guard.\<close>

definition write_quantum_guard_journal ::
  "'w fw_sys \<Rightarrow> quantum_guard \<Rightarrow> ('w, network_error, unit) op" where
  "write_quantum_guard_journal sys g =
     bindS (map_errS NetIo (liftS (fw_encode sys g))) (\<lambda>json.
     bindS (map_errS NetIo (fw_create_dir sys)) (\<lambda>_. map_errS NetIo (fw_write_atomic sys json)))"

definition load_quantum_guard_journal ::
  "'w fw_sys \<Rightarrow> ('w, network_error, quantum_guard option) op" where
  "load_quantum_guard_journal sys =
     withS (fw_read_journal sys) (\<lambda>r. case r of
       Inl FileNotFound \<Rightarrow> returnS None
     | Inl (FileFailed e) \<Rightarrow> throwS (NetIo e)
     | Inr text \<Rightarrow>
         (case fw_decode sys text of
            Inr g \<Rightarrow> returnS (Some g)
          | Inl _ \<Rightarrow> bindS (map_errS NetIo (fw_rename_corrupt sys)) (\<lambda>_. returnS None)))"

definition clear_quantum_guard_journal :: "'w fw_sys \<Rightarrow> ('w, network_error, unit) op" where
  "clear_quantum_guard_journal sys =
     withS (fw_remove_journal sys) (\<lambda>r. case r of
       Inr _ \<Rightarrow> returnS ()
     | Inl FileNotFound \<Rightarrow> returnS ()
     | Inl (FileFailed e) \<Rightarrow> throwS (NetIo e))"

definition journal_guard ::
  "'w fw_sys \<Rightarrow> quantum_guard \<Rightarrow> ('w, network_error, quantum_guard) op" where
  "journal_guard sys g =
     withS (write_quantum_guard_journal sys g) (\<lambda>r. case r of
       Inr _ \<Rightarrow> returnS g
     | Inl e \<Rightarrow> ignoreS (cleanup_firewall sys g) (throwS e))"

definition apply_quantum_negotiation_guard ::
  "'w fw_sys \<Rightarrow> string \<Rightarrow> bool \<Rightarrow> ('w, network_error, quantum_guard) op" where
  "apply_quantum_negotiation_guard sys tun block_ipv6 =
     (let state = (\<lambda>b. \<lparr>qg_backend = b, qg_tun_name = tun, qg_block_ipv6 = block_ipv6\<rparr>);
          fallback = (\<lambda>nft_error. withS (apply_quantum_iptables sys tun block_ipv6) (\<lambda>r. case r of
              Inr _ \<Rightarrow> journal_guard sys (state Iptables)
            | Inl e \<Rightarrow> throwS (fallback_error
                ''nftables and iptables backends are unavailable for quantum negotiation guard''
                nft_error e)))
      in askS (\<lambda>w. case resolve_command sys ''nft'' w of
           None \<Rightarrow> fallback None
         | Some nft \<Rightarrow>
             withS (apply_quantum_nftables sys nft tun) (\<lambda>r. case r of
               Inr _ \<Rightarrow> journal_guard sys (state Nftables)
             | Inl e \<Rightarrow> ignoreS (cleanup_quantum_nftables sys nft) (fallback (Some e)))))"

definition cleanup_quantum_guard :: "'w fw_sys \<Rightarrow> quantum_guard \<Rightarrow> ('w, network_error, unit) op" where
  "cleanup_quantum_guard sys g =
     bindS (cleanup_firewall sys g) (\<lambda>_. clear_quantum_guard_journal sys)"

text \<open>Every backend that is there is tried; the first error is reported.\<close>

definition then_first_error ::
  "('w, network_error, unit) op \<Rightarrow> ('w, network_error, unit) op \<Rightarrow> ('w, network_error, unit) op" where
  "then_first_error m n =
     withS m (\<lambda>a. withS n (\<lambda>b. liftS (case a of Inl e \<Rightarrow> Inl e | Inr _ \<Rightarrow> b)))"

definition if_command ::
  "'w fw_sys \<Rightarrow> string \<Rightarrow> (string \<Rightarrow> ('w, network_error, unit) op) \<Rightarrow> ('w, network_error, unit) op" where
  "if_command sys program k =
     askS (\<lambda>w. case resolve_command sys program w of None \<Rightarrow> returnS () | Some path \<Rightarrow> k path)"

definition cleanup_quantum_firewall_best_effort ::
  "'w fw_sys \<Rightarrow> bool \<Rightarrow> ('w, network_error, unit) op" where
  "cleanup_quantum_firewall_best_effort sys block_ipv6 =
     then_first_error (if_command sys ''nft'' (cleanup_quantum_nftables sys))
     (then_first_error (if_command sys ''iptables'' (cleanup_quantum_iptables_family sys))
       (if block_ipv6 then if_command sys ''ip6tables'' (cleanup_quantum_iptables_family sys)
        else returnS ()))"

definition cleanup_stale_quantum_negotiation_guard :: "'w fw_sys \<Rightarrow> ('w, network_error, unit) op" where
  "cleanup_stale_quantum_negotiation_guard sys =
     bindS (load_quantum_guard_journal sys) (\<lambda>j.
     bindS (case j of
              Some g \<Rightarrow> cleanup_firewall sys g
            | None \<Rightarrow> cleanup_quantum_firewall_best_effort sys True) (\<lambda>_.
     clear_quantum_guard_journal sys))"

end
