(* ===== verification/Net_Firewall_Laws.thy ===== *)
theory Net_Firewall_Laws
  imports Net_Firewall
begin

text \<open>
  What the kill switch guarantees, over the documented behaviour of the iptables commands it
  runs: a locale over the tables those commands change, interpreted on tables with faults.
  A rule is the list of its arguments; which packets it matches is a parameter.
\<close>

subsection \<open>Quoting\<close>

text \<open>A quoted string as the escapes are meant to be read, and the rest of the text.\<close>

fun read_quoted :: "string \<Rightarrow> (string \<times> string) option" where
  "read_quoted [] = None"
| "read_quoted (c # cs) =
     (if c = CHR 0x22 then Some ([], cs)
      else if c = CHR 0x5C then
        (case cs of [] \<Rightarrow> None
         | d # ds \<Rightarrow> map_option (\<lambda>x. (d # fst x, snd x)) (read_quoted ds))
      else map_option (\<lambda>x. (c # fst x, snd x)) (read_quoted cs))"

lemma nft_string_Cons:
  "nft_string [] = []"
  "nft_string (c # cs) =
     (if c = CHR 0x22 \<or> c = CHR 0x5C then CHR 0x5C # c # nft_string cs else c # nft_string cs)"
  by (auto simp: nft_string_def)

lemma read_nft_string: "read_quoted (nft_string s @ CHR 0x22 # rest) = Some (s, rest)"
  by (induction s) (simp_all add: nft_string_Cons)

subsection \<open>Tables\<close>

record fw_table =
  tb_chains :: "string \<Rightarrow> string list list option"
  tb_output :: "string list list"

definition jump :: "string \<Rightarrow> string list" where
  "jump chain = [''-j'', chain]"

text \<open>A table without a chain: the chain is gone and nothing jumps to it.\<close>

definition without_chain :: "string \<Rightarrow> fw_table \<Rightarrow> bool" where
  "without_chain c t = (tb_chains t c = None \<and> jump c \<notin> set (tb_output t))"

text \<open>Two tables that differ in one chain and the jumps to it only.\<close>

definition same_but :: "string \<Rightarrow> fw_table \<Rightarrow> fw_table \<Rightarrow> bool" where
  "same_but c t t' = ((\<forall>d. d \<noteq> c \<longrightarrow> tb_chains t' d = tb_chains t d)
     \<and> filter (\<lambda>r. r \<noteq> jump c) (tb_output t') = filter (\<lambda>r. r \<noteq> jump c) (tb_output t))"

lemma same_but_refl [simp]: "same_but c t t"
  by (simp add: same_but_def)

lemma same_but_trans: "same_but c t t' \<Longrightarrow> same_but c t' t'' \<Longrightarrow> same_but c t t''"
  by (simp add: same_but_def)

definition kill_rules :: "string \<Rightarrow> u32 \<Rightarrow> string list list" where
  "kill_rules tun mark =
     [[''-o'', ''lo'', ''-j'', ''RETURN''], [''-o'', tun, ''-j'', ''RETURN''],
      [''-m'', ''mark'', ''--mark'', ''0x'' @ show_hex (unat mark) @ ''/0xffffffff'', ''-j'', ''RETURN''],
      [''-j'', ''REJECT'']]"

text \<open>A chain in force: its rules, and OUTPUT jumps to it first.\<close>

definition in_force :: "string \<Rightarrow> string list list \<Rightarrow> fw_table \<Rightarrow> bool" where
  "in_force c rules t = (tb_chains t c = Some rules \<and> tb_output t \<noteq> [] \<and> hd (tb_output t) = jump c)"

definition add_rule :: "string \<Rightarrow> string list \<Rightarrow> string list" where
  "add_rule c rule = [''-w'', ''-A'', c] @ rule"

lemma inner_commands:
  "apply_iptables_family_inner sys p tun mark =
     run_all sys p ([''-w'', ''-N'', IPTABLES_CHAIN_NAME]
       # map (add_rule IPTABLES_CHAIN_NAME) (kill_rules tun mark)
       @ [[''-w'', ''-I'', ''OUTPUT'', ''1'', ''-j'', IPTABLES_CHAIN_NAME]])"
  by (simp add: apply_iptables_family_inner_def kill_rules_def add_rule_def)

text \<open>The two programs never resolve to one path.\<close>

definition path_of :: "string \<Rightarrow> string \<Rightarrow> bool" where
  "path_of program path = (\<exists>d. path = d @ ''/'' @ program)"

lemma resolve_path: "resolve_command sys program w = Some path \<Longrightarrow> \<not> contains_str ''/'' program
   \<Longrightarrow> path_of program path"
proof -
  assume "resolve_command sys program w = Some path" "\<not> contains_str ''/'' program"
  then have "path \<in> set (map (\<lambda>d. d @ ''/'' @ program) command_dirs)"
    by (auto simp: resolve_command_def simp del: set_map dest!: find_SomeD)
  then show ?thesis unfolding path_of_def by auto
qed

lemma no_slash: "\<not> contains_str ''/'' ''iptables''" "\<not> contains_str ''/'' ''ip6tables''"
  by (simp_all add: str_eval)

lemma paths_differ: "path_of ''iptables'' p \<Longrightarrow> path_of ''ip6tables'' q \<Longrightarrow> p \<noteq> q"
proof
  assume "path_of ''iptables'' p" "path_of ''ip6tables'' q" "p = q"
  then obtain d e where "d @ ''/iptables'' = e @ ''/ip6tables''" by (auto simp: path_of_def)
  then have "take 8 (rev (d @ ''/iptables'')) = take 8 (rev (e @ ''/ip6tables''))" by simp
  then show False by simp
qed

lemma wp_ignore_missing:
  "wp (ignore_missing_firewall_state m) Q w = wp m (\<lambda>r. case r of Inr _ \<Rightarrow> Q (Inr ())
     | Inl e \<Rightarrow> if is_missing_firewall_state e then Q (Inr ()) else Q (Inl e)) w"
  by (simp add: ignore_missing_firewall_state_def wp_def withS_def opS_defs split: prod.splits sum.splits)

locale iptables =
  fixes sys :: "'w fw_sys" and tables :: "'w \<Rightarrow> string \<Rightarrow> fw_table"
  assumes new_chain: "wp (run_cmd sys p [''-w'', ''-N'', c]) (\<lambda>res w'. case res of
        Inl _ \<Rightarrow> tables w' = tables w
      | Inr _ \<Rightarrow> tb_chains (tables w p) c = None \<and> tables w' = (tables w)(p :=
          (tables w p)\<lparr>tb_chains := (tb_chains (tables w p))(c \<mapsto> [])\<rparr>)) w"
    and append_rule: "wp (run_cmd sys p ([''-w'', ''-A'', c] @ rule)) (\<lambda>res w'. case res of
        Inl _ \<Rightarrow> tables w' = tables w
      | Inr _ \<Rightarrow> \<exists>rs. tb_chains (tables w p) c = Some rs \<and> tables w' = (tables w)(p :=
          (tables w p)\<lparr>tb_chains := (tb_chains (tables w p))(c \<mapsto> rs @ [rule])\<rparr>)) w"
    and insert_jump: "wp (run_cmd sys p [''-w'', ''-I'', ''OUTPUT'', ''1'', ''-j'', c]) (\<lambda>res w'.
      case res of
        Inl _ \<Rightarrow> tables w' = tables w
      | Inr _ \<Rightarrow> tables w' = (tables w)(p :=
          (tables w p)\<lparr>tb_output := jump c # tb_output (tables w p)\<rparr>)) w"
    and delete_jump: "wp (run_cmd sys p [''-w'', ''-D'', ''OUTPUT'', ''-j'', c]) (\<lambda>res w'.
      case res of
        Inl e \<Rightarrow> tables w' = tables w
      | Inr _ \<Rightarrow> \<exists>xs ys. tb_output (tables w p) = xs @ jump c # ys
          \<and> tables w' = (tables w)(p := (tables w p)\<lparr>tb_output := xs @ ys\<rparr>)) w"
    and flush: "wp (run_cmd sys p [''-w'', ''-F'', c]) (\<lambda>res w'. case res of
        Inl _ \<Rightarrow> tables w' = tables w
      | Inr _ \<Rightarrow> tb_chains (tables w p) c \<noteq> None \<and> tables w' = (tables w)(p :=
          (tables w p)\<lparr>tb_chains := (tb_chains (tables w p))(c \<mapsto> [])\<rparr>)) w"
    and delete_chain: "wp (run_cmd sys p [''-w'', ''-X'', c]) (\<lambda>res w'. case res of
        Inl e \<Rightarrow> tables w' = tables w
          \<and> (is_missing_firewall_state e \<longrightarrow> without_chain c (tables w p))
      | Inr _ \<Rightarrow> jump c \<notin> set (tb_output (tables w p)) \<and> tables w' = (tables w)(p :=
          (tables w p)\<lparr>tb_chains := (tb_chains (tables w p))(c := None)\<rparr>)) w"
begin

text \<open>What an operation on one chain of one program may change.\<close>

definition within :: "string \<Rightarrow> string \<Rightarrow> 'w \<Rightarrow> 'w \<Rightarrow> bool" where
  "within p c w w' = (\<exists>t. same_but c (tables w p) t \<and> tables w' = (tables w)(p := t))"

lemma within_same: "tables w' = tables w \<Longrightarrow> within p c w w'"
  unfolding within_def by (rule exI [of _ "tables w p"]) simp

lemma within_trans:
  assumes "within p c w w'" "within p c w' w''"
  shows "within p c w w''"
proof -
  obtain t u where t: "same_but c (tables w p) t" "tables w' = (tables w)(p := t)"
    and u: "same_but c (tables w' p) u" "tables w'' = (tables w')(p := u)"
    using assms unfolding within_def by blast
  have "same_but c (tables w p) u" using t u by (auto intro: same_but_trans)
  with t u show ?thesis unfolding within_def by (intro exI [of _ u]) simp
qed

lemma within_other: "within p c w w' \<Longrightarrow> q \<noteq> p \<Longrightarrow> tables w' q = tables w q"
  by (auto simp: within_def)

lemma within_chains:
  "tables w' = (tables w)(p := (tables w p)\<lparr>tb_chains := (tb_chains (tables w p))(c := x)\<rparr>)
   \<Longrightarrow> within p c w w'"
  unfolding within_def by (intro exI conjI) (auto simp: same_but_def)

lemma wp_delete_jump:
  assumes "\<And>e w'. tables w' = tables w \<Longrightarrow> Q (Inl e) w'" "\<And>w'. within p c w w' \<Longrightarrow> Q (Inr ()) w'"
  shows "wp (run_cmd sys p [''-w'', ''-D'', ''OUTPUT'', ''-j'', c]) Q w"
proof (rule wp_mono [OF delete_jump])
  fix r :: "network_error + unit" and w'
  assume r: "case r of Inl e \<Rightarrow> tables w' = tables w
      | Inr _ \<Rightarrow> \<exists>xs ys. tb_output (tables w p) = xs @ jump c # ys
          \<and> tables w' = (tables w)(p := (tables w p)\<lparr>tb_output := xs @ ys\<rparr>)"
  have "within p c w w'" if "tb_output (tables w p) = xs @ jump c # ys"
    "tables w' = (tables w)(p := (tables w p)\<lparr>tb_output := xs @ ys\<rparr>)" for xs ys
    using that unfolding within_def by (intro exI conjI) (auto simp: same_but_def)
  with r assms show "Q r w'" by (auto split: sum.splits)
qed

lemma wp_flush:
  assumes "\<And>e w'. tables w' = tables w \<Longrightarrow> Q (Inl e) w'" "\<And>w'. within p c w w' \<Longrightarrow> Q (Inr ()) w'"
  shows "wp (run_cmd sys p [''-w'', ''-F'', c]) Q w"
  by (rule wp_mono [OF flush]) (use assms in \<open>auto intro: within_chains split: sum.splits\<close>)

lemma wp_delete_chain:
  assumes "\<And>e w'. tables w' = tables w
      \<Longrightarrow> (is_missing_firewall_state e \<Longrightarrow> without_chain c (tables w' p)) \<Longrightarrow> Q (Inl e) w'"
    and "\<And>w'. within p c w w' \<Longrightarrow> without_chain c (tables w' p) \<Longrightarrow> Q (Inr ()) w'"
  shows "wp (run_cmd sys p [''-w'', ''-X'', c]) Q w"
proof (rule wp_mono [OF delete_chain])
  fix r :: "network_error + unit" and w'
  assume r: "case r of
        Inl e \<Rightarrow> tables w' = tables w
          \<and> (is_missing_firewall_state e \<longrightarrow> without_chain c (tables w p))
      | Inr _ \<Rightarrow> jump c \<notin> set (tb_output (tables w p)) \<and> tables w' = (tables w)(p :=
          (tables w p)\<lparr>tb_chains := (tb_chains (tables w p))(c := None)\<rparr>)"
  show "Q r w'"
  proof (cases r)
    case (Inl e)
    with r have "tables w' = tables w"
      "is_missing_firewall_state e \<Longrightarrow> without_chain c (tables w' p)"
      by auto
    with Inl assms(1) show ?thesis by blast
  next
    case (Inr u)
    with r show ?thesis using assms(2) within_chains [of w' w p c None] by (auto simp: without_chain_def)
  qed
qed

lemma wp_delete_jumps: "wp (delete_jumps n sys p c) (\<lambda>_. within p c w) w"
proof (induction n arbitrary: w)
  case (Suc n)
  show ?case
    by (auto simp: wp_rules within_same intro!: wp_delete_jump wp_mono [OF Suc.IH]
        intro: within_trans)
qed (simp add: wp_rules within_same)

lemma wp_cleanup_chain:
  "wp (cleanup_chain sys p c) (\<lambda>res w'. within p c w w'
      \<and> (is_ok res \<longrightarrow> without_chain c (tables w' p))) w"
proof -
  have X: "wp (ignore_missing_firewall_state (run_cmd sys p [''-w'', ''-X'', c]))
      (\<lambda>res w'. within p c w w' \<and> (is_ok res \<longrightarrow> without_chain c (tables w' p))) w" for w
    by (auto simp: wp_ignore_missing within_same intro!: wp_delete_chain)
  have F: "wp (ignore_missing_firewall_state (run_cmd sys p [''-w'', ''-F'', c]))
      (\<lambda>_. within p c w) w" for w
    by (auto simp: wp_ignore_missing within_same intro!: wp_flush)
  show ?thesis
    unfolding cleanup_chain_def wp_bindS
    by (rule wp_mono [OF wp_delete_jumps], split sum.split, intro conjI allI impI)
      (auto simp: wp_bindS intro!: wp_mono [OF F] wp_mono [OF X] split: sum.split;
        metis within_trans)+
qed

lemma wp_new_chain:
  assumes "\<And>e w'. tables w' = tables w \<Longrightarrow> Q (Inl e) w'"
    and "\<And>w'. within p c w w' \<Longrightarrow> tb_chains (tables w' p) c = Some [] \<Longrightarrow> Q (Inr ()) w'"
  shows "wp (run_cmd sys p [''-w'', ''-N'', c]) Q w"
proof (rule wp_mono [OF new_chain])
  fix r :: "network_error + unit" and w'
  assume "case r of Inl _ \<Rightarrow> tables w' = tables w
      | Inr _ \<Rightarrow> tb_chains (tables w p) c = None \<and> tables w' = (tables w)(p :=
          (tables w p)\<lparr>tb_chains := (tb_chains (tables w p))(c \<mapsto> [])\<rparr>)"
  with assms within_chains [of w' w p c "Some []"] show "Q r w'" by (auto split: sum.splits)
qed

lemma wp_append_rule:
  assumes "tb_chains (tables w p) c = Some rs"
    and "\<And>e w'. tables w' = tables w \<Longrightarrow> Q (Inl e) w'"
    and "\<And>w'. within p c w w' \<Longrightarrow> tb_chains (tables w' p) c = Some (rs @ [rule]) \<Longrightarrow> Q (Inr ()) w'"
  shows "wp (run_cmd sys p (add_rule c rule)) Q w"
  unfolding add_rule_def
proof (rule wp_mono [OF append_rule])
  fix r :: "network_error + unit" and w'
  assume "case r of Inl _ \<Rightarrow> tables w' = tables w
      | Inr _ \<Rightarrow> \<exists>rs. tb_chains (tables w p) c = Some rs \<and> tables w' = (tables w)(p :=
          (tables w p)\<lparr>tb_chains := (tb_chains (tables w p))(c \<mapsto> rs @ [rule])\<rparr>)"
  with assms within_chains [of w' w p c "Some (rs @ [rule])"] show "Q r w'"
    by (auto split: sum.splits)
qed

lemma wp_insert_jump:
  assumes "\<And>e w'. tables w' = tables w \<Longrightarrow> Q (Inl e) w'"
    and "\<And>w'. within p c w w' \<Longrightarrow> tb_chains (tables w' p) = tb_chains (tables w p)
      \<Longrightarrow> hd (tb_output (tables w' p)) = jump c \<Longrightarrow> tb_output (tables w' p) \<noteq> [] \<Longrightarrow> Q (Inr ()) w'"
  shows "wp (run_cmd sys p [''-w'', ''-I'', ''OUTPUT'', ''1'', ''-j'', c]) Q w"
proof (rule wp_mono [OF insert_jump])
  fix r :: "network_error + unit" and w'
  assume r: "case r of Inl _ \<Rightarrow> tables w' = tables w | Inr _ \<Rightarrow> tables w' = (tables w)(p :=
          (tables w p)\<lparr>tb_output := jump c # tb_output (tables w p)\<rparr>)"
  have "within p c w w'" if "tables w' = (tables w)(p :=
          (tables w p)\<lparr>tb_output := jump c # tb_output (tables w p)\<rparr>)"
    using that unfolding within_def by (intro exI conjI) (auto simp: same_but_def)
  with r assms show "Q r w'" by (auto split: sum.splits)
qed

lemma wp_append_all:
  assumes "tb_chains (tables w p) c = Some rs"
  shows "wp (run_all sys p (map (add_rule c) rules
      @ [[''-w'', ''-I'', ''OUTPUT'', ''1'', ''-j'', c]]))
    (\<lambda>res w'. within p c w w' \<and> (is_ok res \<longrightarrow> in_force c (rs @ rules) (tables w' p))) w"
  using assms
proof (induction rules arbitrary: rs w)
  case Nil
  then show ?case by (auto simp: wp_rules in_force_def within_same intro!: wp_insert_jump split: sum.split)
next
  case (Cons r rules)
  show ?case
    unfolding list.map append_Cons run_all.simps wp_bindS
  proof (rule wp_append_rule [OF Cons.prems], goal_cases)
    case (2 w')
    show ?case
      unfolding sum.case
      by (rule wp_mono [OF Cons.IH [OF 2(2)]]) (use within_trans [OF 2(1)] in auto)
  qed (auto simp: within_same)
qed

lemma wp_inner:
  "wp (apply_iptables_family_inner sys p tun mark)
     (\<lambda>res w'. within p IPTABLES_CHAIN_NAME w w'
       \<and> (is_ok res \<longrightarrow> in_force IPTABLES_CHAIN_NAME (kill_rules tun mark) (tables w' p))) w"
  unfolding inner_commands run_all.simps(2) wp_bindS
proof (rule wp_new_chain, goal_cases)
  case (2 w')
  show ?case
    unfolding sum.case
    by (rule wp_mono [OF wp_append_all [OF 2(2)]]) (use within_trans [OF 2(1)] in auto)
qed (simp add: within_same)

text \<open>One family, applied: only its own chain and jumps may have changed.\<close>

lemma wp_apply_family:
  "wp (apply_iptables_family sys p tun mark)
     (\<lambda>res w'. within p IPTABLES_CHAIN_NAME w w'
       \<and> (is_ok res \<longrightarrow> in_force IPTABLES_CHAIN_NAME (kill_rules tun mark) (tables w' p))) w"
proof -
  have clean: "wp (cleanup_iptables_family sys p) (\<lambda>_. within p IPTABLES_CHAIN_NAME w) w" for w
    unfolding cleanup_iptables_family_def by (rule wp_mono [OF wp_cleanup_chain]) simp
  have "wp (withS (apply_iptables_family_inner sys p tun mark) (\<lambda>r.
       if is_ok r then liftS r else ignoreS (cleanup_iptables_family sys p) (liftS r)))
     (\<lambda>res w'. within p IPTABLES_CHAIN_NAME w w'
       \<and> (is_ok res \<longrightarrow> in_force IPTABLES_CHAIN_NAME (kill_rules tun mark) (tables w' p))) w1"
    if "within p IPTABLES_CHAIN_NAME w w1" for w1
    unfolding wp_withS
    by (rule wp_mono [OF wp_inner])
      (auto simp: wp_rules intro!: wp_mono [OF clean]; metis within_trans that)+
  then show ?thesis
    unfolding apply_iptables_family_def guarded_apply_def wp_ignoreS
    by (rule wp_mono [OF clean])
qed

abbreviation forced :: "string \<Rightarrow> u32 \<Rightarrow> 'w \<Rightarrow> string \<Rightarrow> bool" where
  "forced tun mark w p \<equiv> in_force IPTABLES_CHAIN_NAME (kill_rules tun mark) (tables w p)"

text \<open>Both families: each chain is in force on success, and other programs keep their tables.\<close>

definition forced_families :: "string \<Rightarrow> u32 \<Rightarrow> bool \<Rightarrow> bool \<Rightarrow> 'w \<Rightarrow> bool" where
  "forced_families tun mark ipv4 ipv6 w =
     ((ipv4 \<longrightarrow> (\<exists>p. path_of ''iptables'' p \<and> forced tun mark w p))
    \<and> (ipv6 \<longrightarrow> (\<exists>p. path_of ''ip6tables'' p \<and> forced tun mark w p)))"

lemma wp_apply_ip6:
  assumes "\<And>q. resolve ''ip6tables'' = Some q \<Longrightarrow> path_of ''ip6tables'' q"
  shows "wp (apply_ip6tables sys resolve ip4 tun mark) (\<lambda>res w'. is_ok res \<longrightarrow>
     (\<exists>q. path_of ''ip6tables'' q \<and> forced tun mark w' q)
     \<and> (\<forall>p. path_of ''iptables'' p \<longrightarrow> tables w' p = tables w p)) w"
proof (cases "resolve ''ip6tables''")
  case None
  then show ?thesis
    by (auto simp: apply_ip6tables_def wp_rules intro!: wp_any split: option.split sum.split)
next
  case (Some q')
  note q = Some
  have "wp (withS (apply_iptables_family sys q' tun mark) (\<lambda>r. case r of
            Inr _ \<Rightarrow> returnS ()
          | Inl e \<Rightarrow> (case ip4 of
                 Some p \<Rightarrow> ignoreS (cleanup_iptables_family sys p) (throwS e)
               | None \<Rightarrow> throwS e))) (\<lambda>res w'. is_ok res \<longrightarrow>
     (\<exists>q. path_of ''ip6tables'' q \<and> forced tun mark w' q)
     \<and> (\<forall>p. path_of ''iptables'' p \<longrightarrow> tables w' p = tables w p)) w"
    if "path_of ''ip6tables'' q'"
    unfolding wp_withS
    by (rule wp_mono [OF wp_apply_family])
      (use that paths_differ [of _ q'] in \<open>auto simp: wp_rules dest: within_other
        intro!: wp_any [where m = "cleanup_iptables_family sys p" for p]
        split: sum.split option.split\<close>)
  then show ?thesis using assms q by (simp only: apply_ip6tables_def option.case)
qed

lemma wp_apply_both:
  assumes "\<And>p. resolve ''iptables'' = Some p \<Longrightarrow> path_of ''iptables'' p"
    and "\<And>q. resolve ''ip6tables'' = Some q \<Longrightarrow> path_of ''ip6tables'' q"
  shows "wp (apply_iptables_with_resolver sys resolve tun mark ipv4 ipv6)
    (\<lambda>res w'. is_ok res \<longrightarrow> forced_families tun mark ipv4 ipv6 w') w"
proof -
  have ip6: "wp (bindS (if ipv6 then apply_ip6tables sys resolve ip4 tun mark else returnS ()) (\<lambda>_.
     if ipv4 \<or> ipv6 then returnS ()
     else throwS (KillSwitchUnavailable ''no enabled iptables address family'')))
    (\<lambda>res w'. is_ok res \<longrightarrow> forced_families tun mark ipv4 ipv6 w') w"
    if "ipv4 \<longrightarrow> (\<exists>p. path_of ''iptables'' p \<and> forced tun mark w p)" for ip4 w
  proof (cases ipv6)
    case True
    show ?thesis
      unfolding wp_bindS if_P [OF True]
    proof (rule wp_mono [OF wp_apply_ip6], rule assms(2), assumption)
      fix r :: "network_error + unit" and w'
      assume r: "is_ok r \<longrightarrow> (\<exists>q. path_of ''ip6tables'' q \<and> forced tun mark w' q)
        \<and> (\<forall>p. path_of ''iptables'' p \<longrightarrow> tables w' p = tables w p)"
      then have "is_ok r \<Longrightarrow> forced_families tun mark ipv4 True w'"
        using that unfolding forced_families_def by metis
      with True show "(case r of Inl e \<Rightarrow> \<lambda>w'. is_ok (Inl e :: network_error + unit)
            \<longrightarrow> forced_families tun mark ipv4 ipv6 w'
          | Inr _ \<Rightarrow> wp (if ipv4 \<or> ipv6 then returnS ()
               else throwS (KillSwitchUnavailable ''no enabled iptables address family''))
             (\<lambda>res w'. is_ok res \<longrightarrow> forced_families tun mark ipv4 ipv6 w')) w'"
        by (cases r) (simp_all add: wp_rules)
    qed
  next
    case False
    with that show ?thesis by (auto simp: wp_rules forced_families_def)
  qed
  have "wp (if ipv4
            then (case resolve ''iptables'' of
                    None \<Rightarrow> throwS (KillSwitchUnavailable ''iptables command not found'')
                  | Some p \<Rightarrow> bindS (apply_iptables_family sys p tun mark) (\<lambda>_. returnS (Some p)))
            else returnS None)
     (\<lambda>res w'. is_ok res \<longrightarrow> ipv4 \<longrightarrow> (\<exists>p. path_of ''iptables'' p \<and> forced tun mark w' p)) w"
    using assms(1)
    by (auto simp: wp_rules intro!: wp_mono [OF wp_apply_family] split: option.split sum.split)
  then show ?thesis
    unfolding apply_iptables_with_resolver_def
  proof (subst wp_bindS, elim wp_mono)
    fix r :: "network_error + string option" and w'
    assume "is_ok r \<longrightarrow> ipv4 \<longrightarrow> (\<exists>p. path_of ''iptables'' p \<and> forced tun mark w' p)"
    then show "(case r of
        Inl e \<Rightarrow> \<lambda>w'. is_ok (Inl e :: network_error + unit) \<longrightarrow> forced_families tun mark ipv4 ipv6 w'
      | Inr x \<Rightarrow> wp (bindS (if ipv6 then apply_ip6tables sys resolve x tun mark else returnS ()) (\<lambda>_.
          if ipv4 \<or> ipv6 then returnS ()
          else throwS (KillSwitchUnavailable ''no enabled iptables address family'')))
          (\<lambda>res w'. is_ok res \<longrightarrow> forced_families tun mark ipv4 ipv6 w')) w'"
      by (cases r) (simp_all only: sum.case ip6 is_ok_simps simp_thms)
  qed
qed

text \<open>The kill switch on iptables: in force for every family it was asked to protect.\<close>

lemma wp_kill_switch:
  "wp (apply_kill_switch sys tun mark ipv4 ipv6) (\<lambda>res w'. case res of Inl _ \<Rightarrow> True
     | Inr k \<Rightarrow> kw_ipv4 k = ipv4 \<and> kw_ipv6 k = ipv6 \<and> (ipv4 \<or> ipv6)
        \<and> (kw_backend k = Iptables \<longrightarrow> forced_families tun mark ipv4 ipv6 w')) w"
proof -
  have tables: "wp (apply_iptables sys tun mark ipv4 ipv6)
      (\<lambda>res w'. is_ok res \<longrightarrow> forced_families tun mark ipv4 ipv6 w') w" for w
    unfolding apply_iptables_def wp_askS
    by (rule wp_apply_both) (auto intro: resolve_path simp: no_slash)
  let ?Q = "\<lambda>res w'. case res of Inl _ \<Rightarrow> True
     | Inr k \<Rightarrow> kw_ipv4 k = ipv4 \<and> kw_ipv6 k = ipv6 \<and> (ipv4 \<or> ipv6)
        \<and> (kw_backend k = Iptables \<longrightarrow> forced_families tun mark ipv4 ipv6 w')"
  let ?k = "\<lambda>b. \<lparr>kw_backend = b, kw_tun_name = tun, kw_fwmark = mark, kw_ipv4 = ipv4, kw_ipv6 = ipv6\<rparr>"
  have fallback: "wp (withS (apply_iptables sys tun mark ipv4 ipv6) (\<lambda>r. case r of
      Inr _ \<Rightarrow> returnS (?k Iptables) | Inl e \<Rightarrow> throwS (f e))) ?Q w"
    if "ipv4 \<or> ipv6" for f w
    unfolding wp_withS by (rule wp_mono [OF tables]) (use that in \<open>auto simp: wp_rules split: sum.split\<close>)
  have nft: "wp (withS (apply_nftables sys nft tun mark ipv4 ipv6) (\<lambda>r. case r of
      Inr _ \<Rightarrow> returnS k
    | Inl e \<Rightarrow> ignoreS (cleanup_nftables sys nft) (m e))) Q w"
    if "\<And>w. Q (Inr k) w" "\<And>e w. wp (m e) Q w" for nft m w Q k
    unfolding wp_withS
    by (rule wp_any) (auto simp: wp_rules that split: sum.split
        intro!: wp_any [where m = "cleanup_nftables sys nft"])
  have state: "?Q (Inr (?k Nftables)) w" if "ipv4 \<or> ipv6" for w using that by simp
  show ?thesis
  proof (cases "\<not> ipv4 \<and> \<not> ipv6")
    case True
    then show ?thesis by (simp add: apply_kill_switch_def wp_rules)
  next
    case False
    then have some: "ipv4 \<or> ipv6" by blast
    show ?thesis
      unfolding apply_kill_switch_def Let_def if_not_P [OF False] wp_askS
      by (cases "resolve_command sys ''nft'' w")
        (simp_all only: option.case fallback [OF some] nft [OF state [OF some] fallback [OF some]])
  qed
qed

lemma wp_cleanup_family:
  assumes "\<And>q. resolve_command sys program w0 = Some q \<Longrightarrow> path_of program q"
  shows "wp (require_command sys program (cleanup_iptables_family sys)) (\<lambda>res w'.
     (is_ok res \<longrightarrow> (\<exists>p. path_of program p \<and> without_chain IPTABLES_CHAIN_NAME (tables w' p)))
     \<and> (\<forall>q. \<not> path_of program q \<longrightarrow> tables w' q = tables w0 q)) w0"
proof (cases "resolve_command sys program w0")
  case None
  then show ?thesis by (simp add: require_command_def wp_rules)
next
  case (Some p)
  then have "path_of program p" by (rule assms)
  then show ?thesis
    unfolding require_command_def wp_askS Some option.case cleanup_iptables_family_def
    by (intro wp_mono [OF wp_cleanup_chain]) (auto dest: within_other)
qed

definition freed_families :: "bool \<Rightarrow> bool \<Rightarrow> 'w \<Rightarrow> bool" where
  "freed_families ipv4 ipv6 w =
     ((ipv4 \<longrightarrow> (\<exists>p. path_of ''iptables'' p \<and> without_chain IPTABLES_CHAIN_NAME (tables w p)))
    \<and> (ipv6 \<longrightarrow> (\<exists>p. path_of ''ip6tables'' p \<and> without_chain IPTABLES_CHAIN_NAME (tables w p))))"

lemma wp_cleanup_iptables:
  "wp (cleanup_iptables sys ipv4 ipv6) (\<lambda>res w'. is_ok res \<longrightarrow> freed_families ipv4 ipv6 w') w"
proof -
  have family: "wp (if b then require_command sys program (cleanup_iptables_family sys) else returnS ())
     (\<lambda>res w'. (is_ok res \<longrightarrow> b \<longrightarrow>
         (\<exists>p. path_of program p \<and> without_chain IPTABLES_CHAIN_NAME (tables w' p)))
       \<and> (\<forall>q. \<not> path_of program q \<longrightarrow> tables w' q = tables w q)) w"
    if "\<not> contains_str ''/'' program" for program b w
    by (cases b) (simp_all add: wp_rules wp_mono [OF wp_cleanup_family [OF resolve_path [OF _ that]]])
  show ?thesis
    unfolding cleanup_iptables_def cleanup_both_def wp_bindS
  proof (rule wp_mono [OF family [OF no_slash(1)]])
    fix r :: "network_error + unit" and w'
    assume r: "(is_ok r \<longrightarrow> ipv4 \<longrightarrow> (\<exists>p. path_of ''iptables'' p
         \<and> without_chain IPTABLES_CHAIN_NAME (tables w' p)))
       \<and> (\<forall>q. \<not> path_of ''iptables'' q \<longrightarrow> tables w' q = tables w q)"
    show "(case r of Inl e \<Rightarrow> \<lambda>w'. is_ok (Inl e :: network_error + unit) \<longrightarrow> freed_families ipv4 ipv6 w'
        | Inr _ \<Rightarrow> wp (if ipv6 then require_command sys ''ip6tables'' (cleanup_iptables_family sys)
            else returnS ()) (\<lambda>res w'. is_ok res \<longrightarrow> freed_families ipv4 ipv6 w')) w'"
    proof (cases r)
      case (Inr u)
      show ?thesis
        unfolding Inr sum.case
        by (rule wp_mono [OF family [OF no_slash(2)]])
          (use r Inr paths_differ in \<open>unfold freed_families_def, metis is_ok_simps(2)\<close>)
    qed simp
  qed
qed

end

subsection \<open>What a packet meets\<close>

text \<open>
  The target of the first rule that matches, the arguments before \<open>-j target\<close> being the
  match; \<open>RETURN\<close> goes on with the calling chain.
\<close>

definition first_target :: "(string list \<Rightarrow> 'p \<Rightarrow> bool) \<Rightarrow> string list list \<Rightarrow> 'p \<Rightarrow> string option" where
  "first_target matches rules packet =
     map_option last (find (\<lambda>r. matches (butlast (butlast r)) packet) rules)"

fun output_verdict ::
  "(string list \<Rightarrow> 'p \<Rightarrow> bool) \<Rightarrow> fw_table \<Rightarrow> string list list \<Rightarrow> 'p \<Rightarrow> string option" where
  "output_verdict matches t [] packet = None"
| "output_verdict matches t (r # rules) packet =
     (if \<not> matches (butlast (butlast r)) packet then output_verdict matches t rules packet
      else case tb_chains t (last r) of
        None \<Rightarrow> Some (last r)
      | Some chain \<Rightarrow>
          (case first_target matches chain packet of
             None \<Rightarrow> output_verdict matches t rules packet
           | Some v \<Rightarrow> if v = ''RETURN'' then output_verdict matches t rules packet else Some v))"

definition mark_match :: "u32 \<Rightarrow> string list" where
  "mark_match mark = [''-m'', ''mark'', ''--mark'', ''0x'' @ show_hex (unat mark) @ ''/0xffffffff'']"

text \<open>Only the loopback, the tunnel and the engine's own packets get past the chain.\<close>

definition passes :: "(string list \<Rightarrow> 'p \<Rightarrow> bool) \<Rightarrow> string \<Rightarrow> u32 \<Rightarrow> 'p \<Rightarrow> bool" where
  "passes matches tun mark packet =
     (matches [''-o'', ''lo''] packet \<or> matches [''-o'', tun] packet
      \<or> matches (mark_match mark) packet)"

lemma in_force_verdict:
  assumes "in_force c (kill_rules tun mark) t" "matches [] packet"
  shows "output_verdict matches t (tb_output t) packet =
    (if passes matches tun mark packet then output_verdict matches t (tl (tb_output t)) packet
     else Some ''REJECT'')"
proof -
  obtain rest where out: "tb_output t = jump c # rest"
    using assms(1) by (cases "tb_output t") (auto simp: in_force_def)
  have "first_target matches (kill_rules tun mark) packet =
     Some (if passes matches tun mark packet then ''RETURN'' else ''REJECT'')"
    using assms(2) by (auto simp: first_target_def kill_rules_def passes_def mark_match_def)
  with assms out show ?thesis by (simp add: in_force_def jump_def)
qed

subsection \<open>Tables with faults\<close>

text \<open>Programs are in \<open>/usr/sbin\<close>; each run takes a fault from the list, and fails if it is set.\<close>

record fw_sim =
  fs_tables :: "string \<Rightarrow> fw_table"
  fs_faults :: "bool list"

definition exec_done :: exec_output where
  "exec_done = \<lparr>xo_success = True, xo_code = Some 0, xo_stderr = []\<rparr>"

definition exec_refused :: "string \<Rightarrow> exec_output" where
  "exec_refused msg = \<lparr>xo_success = False, xo_code = Some 1, xo_stderr = msg\<rparr>"

definition no_chain :: string where
  "no_chain = ''iptables: No chain/target/match by that name.''"

definition table_command :: "string list \<Rightarrow> fw_table \<Rightarrow> exec_output \<times> fw_table" where
  "table_command args t =
     (case args of
        op # c # rest \<Rightarrow>
          (if op = ''-N'' then
             (if tb_chains t c \<noteq> None then (exec_refused ''iptables: Chain already exists.'', t)
              else (exec_done, t\<lparr>tb_chains := (tb_chains t)(c \<mapsto> [])\<rparr>))
           else if op = ''-A'' then
             (case tb_chains t c of None \<Rightarrow> (exec_refused no_chain, t)
              | Some rs \<Rightarrow> (exec_done, t\<lparr>tb_chains := (tb_chains t)(c \<mapsto> rs @ [rest])\<rparr>))
           else if op = ''-I'' then
             (if tb_chains t (last args) = None then (exec_refused no_chain, t)
              else (exec_done, t\<lparr>tb_output := jump (last args) # tb_output t\<rparr>))
           else if op = ''-D'' then
             (if jump (last args) \<notin> set (tb_output t)
              then (exec_refused ''iptables: Bad rule (does a matching rule exist in that chain?).'', t)
              else (exec_done, t\<lparr>tb_output := remove1 (jump (last args)) (tb_output t)\<rparr>))
           else if op = ''-F'' then
             (if tb_chains t c = None then (exec_refused no_chain, t)
              else (exec_done, t\<lparr>tb_chains := (tb_chains t)(c \<mapsto> [])\<rparr>))
           else if op = ''-X'' then
             (if jump c \<in> set (tb_output t) then (exec_refused ''iptables: Too many links.'', t)
              else if tb_chains t c = None then (exec_refused no_chain, t)
              else (exec_done, t\<lparr>tb_chains := (tb_chains t)(c := None)\<rparr>))
           else (exec_refused ''Bad argument'', t))
      | _ \<Rightarrow> (exec_refused ''Bad argument'', t))"

definition sim_exec ::
  "string \<Rightarrow> string list \<Rightarrow> string option \<Rightarrow> ('a fw_sim_scheme, string, exec_output) op" where
  "sim_exec program args input w =
     (let w' = w\<lparr>fs_faults := tl (fs_faults w)\<rparr> in
      if fs_faults w \<noteq> [] \<and> hd (fs_faults w)
      then (Inr (exec_refused ''Resource temporarily unavailable''), w')
      else (case table_command (tl args) (fs_tables w program) of (out, t) \<Rightarrow>
        (Inr out, w'\<lparr>fs_tables := (fs_tables w)(program := t)\<rparr>)))"

definition sim_fw :: "'a fw_sim_scheme fw_sys" where
  "sim_fw =
     \<lparr>fw_is_file = (\<lambda>p _. p = ''/usr/sbin/iptables'' \<or> p = ''/usr/sbin/ip6tables''),
      fw_exec = sim_exec,
      fw_encode = (\<lambda>g. Inr (qg_tun_name g)),
      fw_decode = (\<lambda>s. Inl s),
      fw_create_dir = returnS (),
      fw_write_atomic = (\<lambda>_. returnS ()),
      fw_read_journal = throwS FileNotFound,
      fw_remove_journal = throwS FileNotFound,
      fw_rename_corrupt = returnS ()\<rparr>"

lemma wp_sim_exec: "wp (sim_exec p args input) Q w =
   (let w' = w\<lparr>fs_faults := tl (fs_faults w)\<rparr> in
    if fs_faults w \<noteq> [] \<and> hd (fs_faults w)
    then Q (Inr (exec_refused ''Resource temporarily unavailable'')) w'
    else (case table_command (tl args) (fs_tables w p) of (out, t) \<Rightarrow>
      Q (Inr out) (w'\<lparr>fs_tables := (fs_tables w)(p := t)\<rparr>)))"
  by (simp add: wp_def sim_exec_def Let_def split: prod.split)

lemma wp_sim_run: "wp (run_cmd sim_fw p (''-w'' # args)) Q w =
   (let w' = w\<lparr>fs_faults := tl (fs_faults w)\<rparr> in
    if fs_faults w \<noteq> [] \<and> hd (fs_faults w)
    then Q (Inl (command_failed p (''-w'' # args) (exec_refused ''Resource temporarily unavailable''))) w'
    else (case table_command args (fs_tables w p) of (out, t) \<Rightarrow>
      Q (if xo_success out then Inr () else Inl (command_failed p (''-w'' # args) out))
        (w'\<lparr>fs_tables := (fs_tables w)(p := t)\<rparr>)))"
proof (cases "fs_faults w \<noteq> [] \<and> hd (fs_faults w)")
  case True
  then show ?thesis
    by (simp add: run_cmd_def wp_rules sim_fw_def wp_sim_exec map_err_def exec_refused_def Let_def)
next
  case False
  then show ?thesis
    unfolding run_cmd_def wp_rules sim_fw_def fw_sys.simps wp_sim_exec Let_def if_not_P [OF False]
    by (cases "table_command args (fs_tables w p)") (simp add: map_err_def wp_rules)
qed

lemma refused_states [simp]:
  "\<not> is_missing_firewall_state (command_failed p args (exec_refused ''Resource temporarily unavailable''))"
  "\<not> is_missing_firewall_state (command_failed p args (exec_refused ''iptables: Too many links.''))"
  by (simp_all add: is_missing_firewall_state_def command_failed_def exec_refused_def str_eval)

lemma remove1_split: "x \<in> set xs \<Longrightarrow> \<exists>ys zs. xs = ys @ x # zs \<and> remove1 x xs = ys @ zs"
proof -
  assume "x \<in> set xs"
  then obtain ys zs where "xs = ys @ x # zs" "x \<notin> set ys" by (blast dest: split_list_first)
  then have "xs = ys @ x # zs \<and> remove1 x xs = ys @ zs" by (simp add: remove1_append)
  then show ?thesis by blast
qed

interpretation sim_tables: iptables sim_fw fs_tables
proof (unfold_locales, goal_cases)
  case (4 p c w)
  then show ?case
    using remove1_split [of "jump c" "tb_output (fs_tables w p)"]
    by (auto simp: wp_sim_run table_command_def exec_done_def exec_refused_def Let_def; metis)
qed (auto simp: wp_sim_run table_command_def Let_def exec_done_def without_chain_def
    split: option.split, auto simp: exec_refused_def)

end
