(* ===== verification/Net_Dns.thy ===== *)
theory Net_Dns
  imports Net_Policy Rust_Net
begin

text \<open>
  \<open>platform/linux/network/dns\<close>: the choice of a DNS backend, the four backends, and the
  verification of \<open>resolv.conf\<close>. Running a command, the files, the clock and the cell that
  caches the order are the operations of \<open>dns_sys\<close>; strings are bytes, and the lossy
  decoding of a command's output belongs to \<open>dn_exec\<close>.
\<close>

subsection \<open>\<open>types.rs\<close>\<close>

record nm_connection_state =
  nm_name :: string
  nm_device :: string
  nm_ipv4_dns :: string
  nm_ipv4_ignore_auto :: string
  nm_ipv4_search :: string
  nm_ipv4_priority :: string
  nm_ipv6_dns :: string
  nm_ipv6_ignore_auto :: string
  nm_ipv6_search :: string
  nm_ipv6_priority :: string

datatype dns_state =
  DnsResolved
| DnsResolvconf
| DnsNetworkManager "nm_connection_state list"
| DnsResolvConf string string

datatype dns_backend_kind = KResolved | KResolvconf | KNetworkManager | KResolvConf

record resolv_conf_info =
  rci_path :: string
  rci_is_symlink :: bool
  rci_target :: "string option"
  rci_contents :: "string option"

record dns_output =
  do_success :: bool
  do_code :: "i32 option"
  do_stdout :: string
  do_stderr :: string

record 'w dns_sys =
  dn_is_file :: "string \<Rightarrow> 'w \<Rightarrow> bool"
  dn_exec :: "string \<Rightarrow> string list \<Rightarrow> string option \<Rightarrow> ('w, string, dns_output) op"
  dn_probe :: "string \<Rightarrow> string list \<Rightarrow> 'w \<Rightarrow> string option \<times> 'w"
  dn_is_symlink :: "'w \<Rightarrow> bool"
  dn_link_target :: "'w \<Rightarrow> string option"
  dn_read_file :: "string \<Rightarrow> ('w, string, string) op"
  dn_truncate :: "string \<Rightarrow> ('w, string, unit) op"
  dn_write_all :: "string \<Rightarrow> string \<Rightarrow> ('w, string, unit) op"
  dn_sleep :: "nat \<Rightarrow> 'w \<Rightarrow> 'w"
  dn_order_get :: "'w \<Rightarrow> dns_backend_kind list option"
  dn_order_set :: "dns_backend_kind list \<Rightarrow> 'w \<Rightarrow> 'w"

subsection \<open>\<open>command.rs\<close>\<close>

definition dns_command_dirs :: "string list" where
  "dns_command_dirs =
     [''/usr/local/sbin'', ''/usr/local/bin'', ''/usr/sbin'', ''/usr/bin'', ''/sbin'', ''/bin'']"

definition dns_resolve_command :: "'w dns_sys \<Rightarrow> string \<Rightarrow> 'w \<Rightarrow> string option" where
  "dns_resolve_command sys program w =
     (if contains_str ''/'' program
      then (if dn_is_file sys program w then Some program else None)
      else find (\<lambda>p. dn_is_file sys p w) (map (\<lambda>d. d @ ''/'' @ program) dns_command_dirs))"

definition dns_format_command :: "string \<Rightarrow> string list \<Rightarrow> string" where
  "dns_format_command program args = program @ concat (map (\<lambda>a. '' '' @ a) args)"

definition dns_failed :: "string \<Rightarrow> string list \<Rightarrow> dns_output \<Rightarrow> network_error" where
  "dns_failed program args out =
     CommandFailed (dns_format_command program args) (do_code out) (trim (do_stderr out))"

definition dns_run_cmd :: "'w dns_sys \<Rightarrow> string \<Rightarrow> string list \<Rightarrow> ('w, network_error, unit) op" where
  "dns_run_cmd sys program args =
     bindS (map_errS NetIo (dn_exec sys program args None)) (\<lambda>out.
     if do_success out then returnS () else throwS (dns_failed program args out))"

definition dns_run_cmd_with_input ::
  "'w dns_sys \<Rightarrow> string \<Rightarrow> string list \<Rightarrow> string \<Rightarrow> ('w, network_error, unit) op" where
  "dns_run_cmd_with_input sys program args input =
     bindS (map_errS NetIo (dn_exec sys program args (Some input))) (\<lambda>out.
     if do_success out then returnS () else throwS (dns_failed program args out))"

definition run_cmd_capture ::
  "'w dns_sys \<Rightarrow> string \<Rightarrow> string list \<Rightarrow> ('w, network_error, string) op" where
  "run_cmd_capture sys program args =
     bindS (map_errS NetIo (dn_exec sys program args None)) (\<lambda>out.
     if do_success out then returnS (do_stdout out) else throwS (dns_failed program args out))"

subsection \<open>\<open>verify.rs\<close>\<close>

text \<open>\<open>split_whitespace\<close>: the maximal runs of bytes that start no whitespace character.\<close>

fun take_word :: "nat \<Rightarrow> string \<Rightarrow> string \<times> string" where
  "take_word 0 s = ([], s)"
| "take_word (Suc n) s =
     (if s = [] \<or> ws_len s \<noteq> 0 then ([], s)
      else case take_word n (tl s) of (u, r) \<Rightarrow> (hd s # u, r))"

fun words_loop :: "nat \<Rightarrow> string \<Rightarrow> string list" where
  "words_loop 0 s = []"
| "words_loop (Suc n) s =
     (case trim_start s of
        [] \<Rightarrow> []
      | c # cs \<Rightarrow> (case take_word (length (c # cs)) (c # cs) of (u, r) \<Rightarrow> u # words_loop n r))"

definition split_whitespace :: "string \<Rightarrow> string list" where
  "split_whitespace s = words_loop (length s) s"

definition format_ip_list :: "ip_addr list \<Rightarrow> string" where
  "format_ip_list addrs = join '', '' (map show_ip addrs)"

definition parse_nameserver ::
  "ip_addr list \<times> ip_addr list \<Rightarrow> string \<Rightarrow> network_error + ip_addr list \<times> ip_addr list" where
  "parse_nameserver found line =
     (let l = trim line in
      if starts_with ''#'' l \<or> l = [] then Inr found
      else if \<not> starts_with ''nameserver'' l then Inr found
      else case split_whitespace l of
        _ # value # _ \<Rightarrow>
          (case parse_ip (hd (split_on CHR ''%'' value)) of
             None \<Rightarrow> Inl (DnsVerifyFailed (''unparseable DNS entry: '' @ value))
           | Some a \<Rightarrow> Inr (if is_ipv4 a then (fst found @ [a], snd found)
                           else (fst found, snd found @ [a])))
      | _ \<Rightarrow> Inr found)"

fun parse_nameservers ::
  "ip_addr list \<times> ip_addr list \<Rightarrow> string list \<Rightarrow> network_error + ip_addr list \<times> ip_addr list" where
  "parse_nameservers found [] = Inr found"
| "parse_nameservers found (l # ls) =
     bindE (parse_nameserver found l) (\<lambda>f. parse_nameservers f ls)"

definition parse_resolv_conf :: "string \<Rightarrow> network_error + ip_addr list \<times> ip_addr list" where
  "parse_resolv_conf text = parse_nameservers ([], []) (lines text)"

definition read_resolv_conf_servers ::
  "'w dns_sys \<Rightarrow> string \<Rightarrow> ('w, network_error, ip_addr list \<times> ip_addr list) op" where
  "read_resolv_conf_servers sys path =
     bindS (map_errS NetIo (dn_read_file sys path)) (\<lambda>text. liftS (parse_resolv_conf text))"

text \<open>The check of one family; \<open>fam\<close> is its name in the messages.\<close>

definition verify_family ::
  "string \<Rightarrow> ip_addr list \<Rightarrow> ip_addr list \<Rightarrow> network_error + unit" where
  "verify_family fam expected found =
     (if expected = []
      then (if found \<noteq> []
            then Inl (DnsVerifyFailed (''unexpected '' @ fam @ '' DNS: '' @ format_ip_list found))
            else Inr ())
      else if found = [] then Inl (DnsVerifyFailed (''missing '' @ fam @ '' DNS''))
      else let extras = filter (\<lambda>a. a \<notin> set expected) found in
        if extras \<noteq> []
        then Inl (DnsVerifyFailed (''unexpected '' @ fam @ '' DNS: '' @ format_ip_list extras))
        else Inr ())"

definition verify_found ::
  "ip_addr list \<Rightarrow> ip_addr list \<times> ip_addr list \<Rightarrow> network_error + unit" where
  "verify_found servers found =
     bindE (verify_family ''IPv4'' (filter is_ipv4 servers) (fst found)) (\<lambda>_.
     verify_family ''IPv6'' (filter is_ipv6 servers) (snd found))"

definition verify_resolv_conf_servers ::
  "'w dns_sys \<Rightarrow> string \<Rightarrow> ip_addr list \<Rightarrow> ('w, network_error, unit) op" where
  "verify_resolv_conf_servers sys path servers =
     bindS (read_resolv_conf_servers sys path) (\<lambda>found. liftS (verify_found servers found))"

text \<open>Five attempts with a pause after each failure.\<close>

fun wait_loop ::
  "nat \<Rightarrow> network_error option \<Rightarrow> 'w dns_sys \<Rightarrow> string \<Rightarrow> ip_addr list
   \<Rightarrow> ('w, network_error, unit) op" where
  "wait_loop 0 last_error sys path servers =
     throwS (case last_error of Some e \<Rightarrow> e | None \<Rightarrow> DnsVerifyFailed ''dns verify timeout'')"
| "wait_loop (Suc n) last_error sys path servers =
     withS (verify_resolv_conf_servers sys path servers) (\<lambda>r. case r of
       Inr _ \<Rightarrow> returnS ()
     | Inl (DnsVerifyFailed m) \<Rightarrow>
         (\<lambda>w. wait_loop n (Some (DnsVerifyFailed m)) sys path servers (dn_sleep sys 200 w))
     | Inl e \<Rightarrow> throwS e)"

definition wait_for_resolv_conf_servers ::
  "'w dns_sys \<Rightarrow> string \<Rightarrow> ip_addr list \<Rightarrow> ('w, network_error, unit) op" where
  "wait_for_resolv_conf_servers sys path servers = wait_loop 5 None sys path servers"

subsection \<open>\<open>probe.rs\<close>\<close>

definition RESOLV_CONF :: string where "RESOLV_CONF = ''/etc/resolv.conf''"

definition read_resolv_conf_info :: "'w dns_sys \<Rightarrow> 'w \<Rightarrow> resolv_conf_info \<times> 'w" where
  "read_resolv_conf_info sys w =
     (case dn_read_file sys RESOLV_CONF w of (r, w') \<Rightarrow>
       (\<lparr>rci_path = RESOLV_CONF, rci_is_symlink = dn_is_symlink sys w,
         rci_target = (if dn_is_symlink sys w then dn_link_target sys w else None),
         rci_contents = (case r of Inl _ \<Rightarrow> None | Inr t \<Rightarrow> Some t)\<rparr>, w'))"

definition detect_preferred_backend :: "resolv_conf_info \<Rightarrow> dns_backend_kind option" where
  "detect_preferred_backend info =
     (let target = (case rci_target info of None \<Rightarrow> [] | Some t \<Rightarrow> t);
          contents = (case rci_contents info of None \<Rightarrow> [] | Some c \<Rightarrow> c)
      in if contains_str ''systemd/resolve'' target \<or> contains_str ''systemd-resolved'' contents
            \<or> contains_str ''Stub resolver'' contents
         then Some KResolved
         else if contains_str ''resolvconf'' target \<or> contains_str ''resolvconf'' contents
         then Some KResolvconf
         else if contains_str ''NetworkManager'' contents then Some KNetworkManager
         else if \<not> rci_is_symlink info then Some KResolvConf
         else None)"

definition dns_backend_order_from_probes ::
  "resolv_conf_info \<Rightarrow> dns_backend_kind option \<Rightarrow> bool \<Rightarrow> bool \<Rightarrow> bool \<Rightarrow> dns_backend_kind list" where
  "dns_backend_order_from_probes info preferred resolved_ok resolvconf_ok nm_ok =
     (let order = (if resolved_ok then [KResolved] else [])
            @ (if resolvconf_ok then [KResolvconf] else [])
            @ (if nm_ok then [KNetworkManager] else [])
            @ (if \<not> rci_is_symlink info then [KResolvConf] else [])
      in case preferred of
           Some p \<Rightarrow> if p \<in> set order then p # filter (\<lambda>b. b \<noteq> p) order else order
         | None \<Rightarrow> order)"

definition probe_resolved_backend :: "'w dns_sys \<Rightarrow> 'w \<Rightarrow> bool \<times> 'w" where
  "probe_resolved_backend sys w =
     (case dns_resolve_command sys ''resolvectl'' w of
        None \<Rightarrow> (False, w)
      | Some p \<Rightarrow> (case dn_probe sys p [''status''] w of (out, w') \<Rightarrow> (out \<noteq> None, w')))"

definition probe_resolvconf_backend :: "'w dns_sys \<Rightarrow> 'w \<Rightarrow> bool" where
  "probe_resolvconf_backend sys w = (dns_resolve_command sys ''resolvconf'' w \<noteq> None)"

definition probe_network_manager :: "'w dns_sys \<Rightarrow> 'w \<Rightarrow> bool \<times> 'w" where
  "probe_network_manager sys w =
     (case dns_resolve_command sys ''nmcli'' w of
        None \<Rightarrow> (False, w)
      | Some p \<Rightarrow>
          (case dn_probe sys p [''-t'', ''-f'', ''RUNNING'', ''general''] w of (out, w') \<Rightarrow>
             ((case out of Some v \<Rightarrow> eq_ignore_ascii_case (trim v) ''running'' | None \<Rightarrow> False), w')))"

text \<open>The two probes run concurrently; the model runs them one after the other.\<close>

definition dns_backend_order ::
  "'w dns_sys \<Rightarrow> resolv_conf_info \<Rightarrow> 'w \<Rightarrow> dns_backend_kind list \<times> 'w" where
  "dns_backend_order sys info w =
     (case dn_order_get sys w of
        Some cached \<Rightarrow> (cached, w)
      | None \<Rightarrow>
          (case probe_resolved_backend sys w of (resolved_ok, w1) \<Rightarrow>
           (case probe_network_manager sys w1 of (nm_ok, w2) \<Rightarrow>
             let order = dns_backend_order_from_probes info (detect_preferred_backend info)
                   resolved_ok (probe_resolvconf_backend sys w2) nm_ok
             in (order, dn_order_set sys order w2))))"

subsection \<open>\<open>backend/resolved.rs\<close> and \<open>backend/resolvconf.rs\<close>\<close>

definition apply_resolved ::
  "'w dns_sys \<Rightarrow> string \<Rightarrow> string \<Rightarrow> ip_addr list \<Rightarrow> string list \<Rightarrow> ('w, network_error, unit) op" where
  "apply_resolved sys resolvectl tun servers search =
     bindS (if servers \<noteq> [] then dns_run_cmd sys resolvectl ([''dns'', tun] @ map show_ip servers)
            else returnS ()) (\<lambda>_.
     if servers \<noteq> [] \<or> search \<noteq> []
     then dns_run_cmd sys resolvectl ([''domain'', tun] @ search
            @ (if servers \<noteq> [] \<and> ''~.'' \<notin> set search then [''~.''] else []))
     else returnS ())"

definition cleanup_resolved ::
  "'w dns_sys \<Rightarrow> string \<Rightarrow> string \<Rightarrow> ('w, network_error, unit) op" where
  "cleanup_resolved sys resolvectl tun = dns_run_cmd sys resolvectl [''revert'', tun]"

definition nameserver_lines :: "ip_addr list \<Rightarrow> string" where
  "nameserver_lines servers = concat (map (\<lambda>a. ''nameserver '' @ show_ip a @ [CHR 0x0A]) servers)"

definition search_line :: "string list \<Rightarrow> string" where
  "search_line search =
     (if search \<noteq> [] then ''search '' @ join '' '' search @ [CHR 0x0A] else [])"

definition apply_resolvconf ::
  "'w dns_sys \<Rightarrow> string \<Rightarrow> string \<Rightarrow> ip_addr list \<Rightarrow> string list \<Rightarrow> ('w, network_error, unit) op" where
  "apply_resolvconf sys resolvconf tun servers search =
     dns_run_cmd_with_input sys resolvconf [''-a'', tun] (nameserver_lines servers @ search_line search)"

definition cleanup_resolvconf ::
  "'w dns_sys \<Rightarrow> string \<Rightarrow> string \<Rightarrow> ('w, network_error, unit) op" where
  "cleanup_resolvconf sys resolvconf tun = dns_run_cmd sys resolvconf [''-d'', tun]"

subsection \<open>\<open>backend/resolv_conf.rs\<close>\<close>

definition build_resolv_conf_contents :: "ip_addr list \<Rightarrow> string list \<Rightarrow> string" where
  "build_resolv_conf_contents servers search =
     ''# Generated by r-wg'' @ [CHR 0x0A] @ search_line search @ nameserver_lines servers"

definition write_resolv_conf ::
  "'w dns_sys \<Rightarrow> string \<Rightarrow> string \<Rightarrow> ('w, network_error, unit) op" where
  "write_resolv_conf sys path contents =
     bindS (map_errS NetIo (dn_truncate sys path)) (\<lambda>_.
     map_errS NetIo (dn_write_all sys path contents))"

definition apply_resolv_conf_file ::
  "'w dns_sys \<Rightarrow> resolv_conf_info \<Rightarrow> ip_addr list \<Rightarrow> string list \<Rightarrow> ('w, network_error, dns_state) op" where
  "apply_resolv_conf_file sys info servers search =
     (if rci_is_symlink info then throwS DnsNotSupported
      else
        bindS (map_errS NetIo (dn_read_file sys (rci_path info))) (\<lambda>original.
        bindS (write_resolv_conf sys (rci_path info) (build_resolv_conf_contents servers search)) (\<lambda>_.
        withS (verify_resolv_conf_servers sys (rci_path info) servers) (\<lambda>r. case r of
          Inl e \<Rightarrow> ignoreS (write_resolv_conf sys (rci_path info) original) (throwS e)
        | Inr _ \<Rightarrow> returnS (DnsResolvConf (rci_path info) original)))))"

definition cleanup_resolv_conf_file ::
  "'w dns_sys \<Rightarrow> string \<Rightarrow> string \<Rightarrow> ('w, network_error, unit) op" where
  "cleanup_resolv_conf_file sys path original = write_resolv_conf sys path original"

subsection \<open>\<open>backend/network_manager.rs\<close>\<close>

text \<open>\<open>line.splitn(4, ':')\<close>, a missing part being empty.\<close>

definition splitn4 :: "string \<Rightarrow> string \<times> string \<times> string \<times> string" where
  "splitn4 line =
     (let next = (\<lambda>s. case split_once CHR '':'' s of None \<Rightarrow> (s, []) | Some (a, b) \<Rightarrow> (a, b));
          (a, r) = next line; (b, r') = next r; (c, d) = next r'
      in (a, b, c, d))"

definition nm_active_line :: "string \<Rightarrow> (string \<times> string) option" where
  "nm_active_line line =
     (case splitn4 line of (n, d, k, s) \<Rightarrow>
       let name = trim n; device = trim d; kind = to_ascii_lowercase (trim k); state = trim s in
       if name = [] \<or> device = [] \<or> device = ''--'' then None
       else if state \<noteq> ''activated'' then None
       else if contains_str ''loopback'' kind \<or> contains_str ''tun'' kind
            \<or> contains_str ''wireguard'' kind \<or> contains_str ''vpn'' kind then None
       else Some (name, device))"

definition nmcli_active_connections ::
  "'w dns_sys \<Rightarrow> string \<Rightarrow> ('w, network_error, (string \<times> string) list) op" where
  "nmcli_active_connections sys nmcli =
     bindS (run_cmd_capture sys nmcli
       [''-t'', ''-f'', ''NAME,DEVICE,TYPE,STATE'', ''connection'', ''show'', ''--active'']) (\<lambda>out.
     returnS (List.map_filter nm_active_line (lines out)))"

definition nmcli_get ::
  "'w dns_sys \<Rightarrow> string \<Rightarrow> string \<Rightarrow> string \<Rightarrow> ('w, network_error, string) op" where
  "nmcli_get sys nmcli name field =
     bindS (run_cmd_capture sys nmcli [''-g'', field, ''connection'', ''show'', name]) (\<lambda>out.
     returnS (trim out))"

definition normalize_nmcli_bool :: "string \<Rightarrow> string" where
  "normalize_nmcli_bool value = (if trim value = [] then ''no'' else trim value)"

definition read_nm_connection_state ::
  "'w dns_sys \<Rightarrow> string \<Rightarrow> string \<Rightarrow> string \<Rightarrow> ('w, network_error, nm_connection_state) op" where
  "read_nm_connection_state sys nmcli name device =
     bindS (nmcli_get sys nmcli name ''ipv4.dns'') (\<lambda>d4.
     bindS (nmcli_get sys nmcli name ''ipv4.ignore-auto-dns'') (\<lambda>i4.
     bindS (nmcli_get sys nmcli name ''ipv4.dns-search'') (\<lambda>s4.
     bindS (nmcli_get sys nmcli name ''ipv4.dns-priority'') (\<lambda>p4.
     bindS (nmcli_get sys nmcli name ''ipv6.dns'') (\<lambda>d6.
     bindS (nmcli_get sys nmcli name ''ipv6.ignore-auto-dns'') (\<lambda>i6.
     bindS (nmcli_get sys nmcli name ''ipv6.dns-search'') (\<lambda>s6.
     bindS (nmcli_get sys nmcli name ''ipv6.dns-priority'') (\<lambda>p6.
     returnS \<lparr>nm_name = name, nm_device = device, nm_ipv4_dns = d4,
       nm_ipv4_ignore_auto = normalize_nmcli_bool i4, nm_ipv4_search = s4, nm_ipv4_priority = p4,
       nm_ipv6_dns = d6, nm_ipv6_ignore_auto = normalize_nmcli_bool i6, nm_ipv6_search = s6,
       nm_ipv6_priority = p6\<rparr>))))))))"

definition nmcli_reapply :: "'w dns_sys \<Rightarrow> string \<Rightarrow> string \<Rightarrow> ('w, network_error, unit) op" where
  "nmcli_reapply sys nmcli device = dns_run_cmd sys nmcli [''device'', ''reapply'', device]"

definition apply_nm_connection ::
  "'w dns_sys \<Rightarrow> string \<Rightarrow> string \<Rightarrow> string \<Rightarrow> string \<Rightarrow> string \<Rightarrow> string
   \<Rightarrow> ('w, network_error, unit) op" where
  "apply_nm_connection sys nmcli name device v4_dns v6_dns search =
     bindS (dns_run_cmd sys nmcli
       [''connection'', ''modify'', name, ''ipv4.dns'', v4_dns, ''ipv4.ignore-auto-dns'', ''yes'',
        ''ipv4.dns-search'', search, ''ipv4.dns-priority'', ''-42'',
        ''ipv6.dns'', v6_dns, ''ipv6.ignore-auto-dns'', ''yes'',
        ''ipv6.dns-search'', search, ''ipv6.dns-priority'', ''-42'']) (\<lambda>_.
     nmcli_reapply sys nmcli device)"

definition restore_nm_connection ::
  "'w dns_sys \<Rightarrow> string \<Rightarrow> nm_connection_state \<Rightarrow> ('w, network_error, unit) op" where
  "restore_nm_connection sys nmcli s =
     bindS (dns_run_cmd sys nmcli
       [''connection'', ''modify'', nm_name s, ''ipv4.dns'', nm_ipv4_dns s,
        ''ipv4.ignore-auto-dns'', nm_ipv4_ignore_auto s, ''ipv4.dns-search'', nm_ipv4_search s,
        ''ipv4.dns-priority'', nm_ipv4_priority s, ''ipv6.dns'', nm_ipv6_dns s,
        ''ipv6.ignore-auto-dns'', nm_ipv6_ignore_auto s, ''ipv6.dns-search'', nm_ipv6_search s,
        ''ipv6.dns-priority'', nm_ipv6_priority s]) (\<lambda>_.
     nmcli_reapply sys nmcli (nm_device s))"

text \<open>Both loops that restore connections ignore the errors.\<close>

fun restore_each :: "'w dns_sys \<Rightarrow> string \<Rightarrow> nm_connection_state list \<Rightarrow> ('w, 'e, unit) op" where
  "restore_each sys nmcli [] = returnS ()"
| "restore_each sys nmcli (s # ss) =
     ignoreS (restore_nm_connection sys nmcli s) (restore_each sys nmcli ss)"

definition cleanup_network_manager ::
  "'w dns_sys \<Rightarrow> string \<Rightarrow> nm_connection_state list \<Rightarrow> ('w, 'e, unit) op" where
  "cleanup_network_manager sys nmcli conns = restore_each sys nmcli conns"

fun run_each :: "('a \<Rightarrow> ('w, 'e, unit) op) \<Rightarrow> 'a list \<Rightarrow> ('w, 'e, unit) op" where
  "run_each f [] = returnS ()"
| "run_each f (x # xs) = bindS (f x) (\<lambda>_. run_each f xs)"

definition nmcli_reconnect ::
  "'w dns_sys \<Rightarrow> string \<Rightarrow> nm_connection_state list \<Rightarrow> ('w, network_error, unit) op" where
  "nmcli_reconnect sys nmcli conns =
     bindS (run_each (\<lambda>c. dns_run_cmd sys nmcli [''connection'', ''down'', nm_name c]) conns) (\<lambda>_.
     run_each (\<lambda>c. dns_run_cmd sys nmcli
       [''connection'', ''up'', nm_name c, ''ifname'', nm_device c]) conns)"

definition split_dns_servers :: "ip_addr list \<Rightarrow> string list \<times> string list" where
  "split_dns_servers servers =
     (map show_ip (filter is_ipv4 servers), map show_ip (filter is_ipv6 servers))"

text \<open>The samples for the log: commands and a read without consequence for the result.\<close>

fun log_nmcli_dns_snapshot :: "'w dns_sys \<Rightarrow> string \<Rightarrow> nm_connection_state list \<Rightarrow> ('w, 'e, unit) op" where
  "log_nmcli_dns_snapshot sys nmcli [] = returnS ()"
| "log_nmcli_dns_snapshot sys nmcli (s # ss) =
     ignoreS (run_cmd_capture sys nmcli
       [''-f'', ''IP4.DNS,IP6.DNS,IP4.DOMAIN,IP6.DOMAIN'', ''device'', ''show'', nm_device s])
     (log_nmcli_dns_snapshot sys nmcli ss)"

definition sample_dns ::
  "'w dns_sys \<Rightarrow> string \<Rightarrow> nm_connection_state list \<Rightarrow> ('w, network_error, 'a) op
   \<Rightarrow> ('w, network_error, 'a) op" where
  "sample_dns sys nmcli touched k =
     ignoreS (log_nmcli_dns_snapshot sys nmcli touched :: ('w, network_error, unit) op)
       (ignoreS (read_resolv_conf_servers sys RESOLV_CONF) k)"

definition settle_dns ::
  "'w dns_sys \<Rightarrow> string \<Rightarrow> nm_connection_state list \<Rightarrow> nat \<Rightarrow> ('w, network_error, 'a) op
   \<Rightarrow> ('w, network_error, 'a) op" where
  "settle_dns sys nmcli touched ms k =
     sample_dns sys nmcli touched (\<lambda>w. sample_dns sys nmcli touched k (dn_sleep sys ms w))"

fun apply_connections ::
  "'w dns_sys \<Rightarrow> string \<Rightarrow> string \<Rightarrow> string \<Rightarrow> string \<Rightarrow> nm_connection_state list
   \<Rightarrow> (string \<times> string) list \<Rightarrow> ('w, network_error, nm_connection_state list) op" where
  "apply_connections sys nmcli v4 v6 search touched [] = returnS touched"
| "apply_connections sys nmcli v4 v6 search touched ((name, device) # conns) =
     bindS (read_nm_connection_state sys nmcli name device) (\<lambda>state.
     withS (apply_nm_connection sys nmcli name device v4 v6 search) (\<lambda>r. case r of
       Inl e \<Rightarrow> bindS (restore_each sys nmcli (rev touched)) (\<lambda>_. throwS e)
     | Inr _ \<Rightarrow> apply_connections sys nmcli v4 v6 search (touched @ [state]) conns))"

definition apply_network_manager ::
  "'w dns_sys \<Rightarrow> string \<Rightarrow> ip_addr list \<Rightarrow> string list \<Rightarrow> ('w, network_error, dns_state) op" where
  "apply_network_manager sys nmcli servers search =
     bindS (nmcli_active_connections sys nmcli) (\<lambda>conns.
     if conns = [] then throwS DnsNotSupported
     else
       let v4 = join '','' (fst (split_dns_servers servers));
           v6 = join '','' (snd (split_dns_servers servers)) in
       bindS (apply_connections sys nmcli v4 v6 (join '','' search) [] conns) (\<lambda>touched.
       let fail = (\<lambda>e. bindS (cleanup_network_manager sys nmcli touched) (\<lambda>_. throwS e)) in
       settle_dns sys nmcli touched 800
         (withS (wait_for_resolv_conf_servers sys RESOLV_CONF servers) (\<lambda>r. case r of
            Inr _ \<Rightarrow> returnS (DnsNetworkManager touched)
          | Inl (DnsVerifyFailed m) \<Rightarrow>
              withS (nmcli_reconnect sys nmcli touched) (\<lambda>c.
              if \<not> is_ok c then fail (DnsVerifyFailed m)
              else settle_dns sys nmcli touched 1200
                (withS (wait_for_resolv_conf_servers sys RESOLV_CONF servers) (\<lambda>r'. case r' of
                   Inr _ \<Rightarrow> returnS (DnsNetworkManager touched)
                 | Inl e \<Rightarrow> fail e)))
          | Inl e \<Rightarrow> fail e))))"

subsection \<open>\<open>mod.rs\<close>\<close>

text \<open>One backend: no state when its command is missing.\<close>

definition with_tool ::
  "'w dns_sys \<Rightarrow> string \<Rightarrow> (string \<Rightarrow> ('w, network_error, dns_state) op)
   \<Rightarrow> ('w, network_error, dns_state option) op" where
  "with_tool sys program k =
     askS (\<lambda>w. case dns_resolve_command sys program w of
       None \<Rightarrow> returnS None
     | Some p \<Rightarrow> bindS (k p) (\<lambda>s. returnS (Some s)))"

definition attempt_backend ::
  "'w dns_sys \<Rightarrow> resolv_conf_info \<Rightarrow> string \<Rightarrow> ip_addr list \<Rightarrow> string list \<Rightarrow> dns_backend_kind
   \<Rightarrow> ('w, network_error, dns_state option) op" where
  "attempt_backend sys info tun servers search b =
     (case b of
        KResolved \<Rightarrow> with_tool sys ''resolvectl'' (\<lambda>p.
          bindS (apply_resolved sys p tun servers search) (\<lambda>_. returnS DnsResolved))
      | KResolvconf \<Rightarrow> with_tool sys ''resolvconf'' (\<lambda>p.
          bindS (apply_resolvconf sys p tun servers search) (\<lambda>_. returnS DnsResolvconf))
      | KNetworkManager \<Rightarrow> with_tool sys ''nmcli'' (\<lambda>p. apply_network_manager sys p servers search)
      | KResolvConf \<Rightarrow>
          bindS (apply_resolv_conf_file sys info servers search) (\<lambda>s. returnS (Some s)))"

fun apply_dns_loop ::
  "'w dns_sys \<Rightarrow> resolv_conf_info \<Rightarrow> string \<Rightarrow> ip_addr list \<Rightarrow> string list \<Rightarrow> network_error option
   \<Rightarrow> dns_backend_kind list \<Rightarrow> ('w, network_error, dns_state) op" where
  "apply_dns_loop sys info tun servers search last_error [] =
     throwS (case last_error of Some e \<Rightarrow> e | None \<Rightarrow> DnsNotSupported)"
| "apply_dns_loop sys info tun servers search last_error (b # bs) =
     withS (attempt_backend sys info tun servers search b) (\<lambda>r. case r of
       Inr (Some s) \<Rightarrow> returnS s
     | Inr None \<Rightarrow> apply_dns_loop sys info tun servers search last_error bs
     | Inl e \<Rightarrow> apply_dns_loop sys info tun servers search (Some e) bs)"

definition apply_dns ::
  "'w dns_sys \<Rightarrow> string \<Rightarrow> ip_addr list \<Rightarrow> string list \<Rightarrow> ('w, network_error, dns_state) op" where
  "apply_dns sys tun servers search w =
     (case read_resolv_conf_info sys w of (info, w1) \<Rightarrow>
      (case dns_backend_order sys info w1 of (order, w2) \<Rightarrow>
        apply_dns_loop sys info tun servers search None order w2))"

definition if_tool ::
  "'w dns_sys \<Rightarrow> string \<Rightarrow> (string \<Rightarrow> ('w, network_error, unit) op) \<Rightarrow> ('w, network_error, unit) op" where
  "if_tool sys program k =
     askS (\<lambda>w. case dns_resolve_command sys program w of None \<Rightarrow> returnS () | Some p \<Rightarrow> k p)"

definition cleanup_dns :: "'w dns_sys \<Rightarrow> string \<Rightarrow> dns_state \<Rightarrow> ('w, network_error, unit) op" where
  "cleanup_dns sys tun s =
     (case s of
        DnsResolved \<Rightarrow> if_tool sys ''resolvectl'' (\<lambda>p. cleanup_resolved sys p tun)
      | DnsResolvconf \<Rightarrow> if_tool sys ''resolvconf'' (\<lambda>p. cleanup_resolvconf sys p tun)
      | DnsNetworkManager conns \<Rightarrow> if_tool sys ''nmcli'' (\<lambda>p. cleanup_network_manager sys p conns)
      | DnsResolvConf path original \<Rightarrow> cleanup_resolv_conf_file sys path original)"

end
