(* ===== verification/Ip_Text.thy ===== *)
theory Ip_Text
  imports Rust_Net
begin

text \<open>
  Reading back a printed address: \<open>IpAddr::to_string\<close> followed by \<open>IpAddr::from_str\<close> is the
  identity, for the compressed, the plain and the IPv4-mapped forms; and the bytes a printed
  address consists of.
\<close>

subsection \<open>Segments\<close>

lemma unat_u128_less: "unat (a :: u128) < 2 ^ 128"
  using unsigned_less [of a] by simp

lemma segment_le: "segment i a \<le> 0xFFFF"
proof -
  have "drop_bit (16 * (7 - i)) a AND 0xFFFF \<le> (0xFFFF :: u128)" by (rule word_and_le1)
  then show ?thesis by (simp add: segment_def word_le_nat_alt)
qed

lemma segment_unat: "segment i a = unat a div 2 ^ (16 * (7 - i)) mod 65536"
proof -
  have "segment i a = unat (take_bit 16 (drop_bit (16 * (7 - i)) a))"
    by (simp add: segment_def take_bit_eq_mask mask_eq_exp_minus_1)
  also have "\<dots> = take_bit 16 (drop_bit (16 * (7 - i)) (unat a))"
    using take_bit_nat_eq_self [OF unat_u128_less [of a]]
    by (simp add: unsigned_take_bit_eq unsigned_drop_bit_eq)
  finally show ?thesis by (simp add: drop_bit_eq_div take_bit_eq_mod)
qed

lemma segments_simps:
  "segments a = [segment 0 a, segment 1 a, segment 2 a, segment 3 a, segment 4 a, segment 5 a,
     segment 6 a, segment 7 a]"
  by (simp add: segments_def upt_rec numeral_eq_Suc)

lemma fold_segments: "foldl (\<lambda>acc g. acc * 65536 + g) 0 (segments a) = unat a"
proof -
  let ?n = "unat a"
  define m where "m i = ?n div 65536 ^ i" for i :: nat
  have lt: "?n < 65536 ^ 8" using unat_u128_less [of a] by simp
  have step: "m (Suc i) * 65536 + m i mod 65536 = m i" for i
    by (simp only: m_def power_Suc2 div_mult2_eq div_mult_mod_eq)
  have seg: "segment i a = m (7 - i) mod 65536" for i
    by (simp add: segment_unat m_def power_mult)
  have top: "m 7 mod 65536 = m 7"
    using lt by (simp add: m_def div_less_iff_less_mult)
  have "foldl (\<lambda>acc g. acc * 65536 + g) 0 (segments a) = m 0"
    using step [of 0] step [of 1] step [of 2] step [of 3] step [of 4] step [of 5] step [of 6]
    by (simp add: segments_simps seg top numeral_2_eq_2 [symmetric])
  then show ?thesis by (simp add: m_def)
qed

lemma ipv6_of_segments: "ipv6_of_groups (segments a) = a"
  by (simp add: ipv6_of_groups_def fold_segments)

subsection \<open>The longest run of zeros\<close>

definition zeros :: "nat list \<Rightarrow> nat \<times> nat \<Rightarrow> bool" where
  "zeros gs r = (fst r + snd r \<le> length gs \<and> (\<forall>j. fst r \<le> j \<and> j < fst r + snd r \<longrightarrow> gs ! j = 0))"

lemma zero_run_zeros:
  assumes "zeros gs longest" "zeros gs cur" "0 < snd cur \<Longrightarrow> fst cur + snd cur = i"
    "gs = take i gs @ xs" "i \<le> length gs"
  shows "zeros gs (zero_run i longest cur xs)"
  using assms
proof (induction xs arbitrary: i longest cur)
  case (Cons x xs)
  have i: "i < length gs" "gs ! i = x" "gs = take (Suc i) gs @ xs"
  proof -
    show "i < length gs" using Cons.prems(4,5) by (metis append_Nil2 le_neq_implies_less list.distinct(1) take_all_iff append_self_conv le_refl)
    then show "gs ! i = x" using Cons.prems(4) by (metis nth_append_length length_take min.absorb2 less_imp_le)
    with \<open>i < length gs\<close> Cons.prems(4) show "gs = take (Suc i) gs @ xs"
      by (simp add: take_Suc_conv_app_nth)
  qed
  show ?case
  proof (cases "x = 0")
    case True
    define c where "c = ((if snd cur = 0 then i else fst cur), snd cur + 1)"
    have c: "zeros gs c" "fst c + snd c = Suc i"
      using Cons.prems(2,3) i True by (auto simp: zeros_def c_def less_Suc_eq)
    have "zeros gs (zero_run (Suc i) (if snd longest < snd c then c else longest) c xs)"
      by (rule Cons.IH) (use c Cons.prems(1) i in auto)
    moreover have "zero_run i longest cur (x # xs)
        = zero_run (Suc i) (if snd longest < snd c then c else longest) c xs"
      using True by (simp add: Let_def c_def)
    ultimately show ?thesis by simp
  next
    case False
    have "zeros gs (zero_run (Suc i) longest (0, 0) xs)"
      by (rule Cons.IH) (use Cons.prems(1) i in \<open>auto simp: zeros_def\<close>)
    then show ?thesis using False by simp
  qed
qed simp


lemma segments_zero_run:
  assumes "zero_run 0 (0, 0) (0, 0) (segments a) = (start, len)"
  shows "start + len \<le> 8"
    "take start (segments a) @ replicate len 0 @ drop (start + len) (segments a) = segments a"
proof -
  have "zeros (segments a) (zero_run 0 (0, 0) (0, 0) (segments a))"
    by (rule zero_run_zeros) (simp_all add: zeros_def)
  with assms have z: "start + len \<le> 8" "\<forall>j. start \<le> j \<and> j < start + len \<longrightarrow> segments a ! j = 0"
    by (simp_all add: zeros_def segments_simps)
  then show "start + len \<le> 8" by simp
  have l: "length (segments a) = 8" by (simp add: segments_simps)
  have "take len (drop start (segments a)) = replicate len 0"
    using z l by (intro nth_equalityI) simp_all
  then have "take len (drop start (segments a)) @ drop (start + len) (segments a) = drop start (segments a)"
    by (metis append_take_drop_id drop_drop add.commute)
  with \<open>take len _ = _\<close>
  show "take start (segments a) @ replicate len 0 @ drop (start + len) (segments a) = segments a"
    by simp
qed

subsection \<open>What printed numbers consist of\<close>

definition hex_chars :: string where
  "hex_chars = ''0123456789abcdef''"

definition ip_chars :: string where
  "ip_chars = ''0123456789abcdef.:''"

lemma hex_ip_chars: "set hex_chars \<subseteq> set ip_chars"
proof -
  have "list_all (\<lambda>c. c \<in> set ip_chars) hex_chars" by code_simp
  then show ?thesis by (auto simp: list_all_iff)
qed

lemma separators: "CHR ''.'' \<in> set ip_chars" "CHR '':'' \<in> set ip_chars" "CHR ''f'' \<in> set ip_chars"
  "CHR ''.'' \<notin> set hex_chars"
  by (simp_all add: ip_chars_def hex_chars_def)

lemma digit_char_16: "d < 16 \<Longrightarrow> digit_char d \<in> set hex_chars"
proof -
  have "list_all (\<lambda>d. digit_char d \<in> set hex_chars) [0..<16]" by code_simp
  then show "d < 16 \<Longrightarrow> digit_char d \<in> set hex_chars" by (simp add: list_all_iff)
qed

lemma set_show_radix: "2 \<le> r \<Longrightarrow> r \<le> 16 \<Longrightarrow> set (show_radix r n) \<subseteq> set hex_chars"
proof (induction r n rule: show_radix.induct)
  case (1 r n)
  show ?case
  proof (cases "n < r")
    case True
    with "1.prems" show ?thesis by (simp add: show_radix_small digit_char_16)
  next
    case False
    have "n mod r < 16" using "1.prems" by (intro less_le_trans [OF mod_less_divisor]) simp_all
    with "1.IH" False "1.prems" show ?thesis by (simp add: show_radix_step digit_char_16)
  qed
qed

lemma set_join: "set (join sep xs) \<subseteq> set sep \<union> \<Union> (set ` set xs)"
  by (induction sep xs rule: join.induct) auto

lemma set_show_groups: "set (show_groups gs) \<subseteq> insert CHR '':'' (set hex_chars)"
proof -
  have "\<Union> (set ` set (map show_hex gs)) \<subseteq> set hex_chars"
    using set_show_radix [of 16] by (auto simp: show_hex_def)
  then have "set '':'' \<union> \<Union> (set ` set (map show_hex gs)) \<subseteq> insert CHR '':'' (set hex_chars)"
    by auto
  then show ?thesis unfolding show_groups_def by (rule subset_trans [OF set_join])
qed

lemma set_show_ip: "set (show_ip a) \<subseteq> set ip_chars"
proof -
  have n: "set (show_nat n) \<subseteq> set ip_chars" for n
    using set_show_radix [of 10 n] hex_ip_chars by (auto simp: show_nat_def)
  have g: "set (show_groups gs) \<subseteq> set ip_chars" for gs
    using set_show_groups [of gs] hex_ip_chars separators by auto
  have 4: "set (show_ipv4 b) \<subseteq> set ip_chars" for b
    using n separators by (simp add: show_ipv4_def)
  show ?thesis
  proof (cases a)
    case (V6 b)
    obtain start len where r: "zero_run 0 (0, 0) (0, 0) (segments b) = (start, len)" by (metis surj_pair)
    show ?thesis
      using 4 [of "ucast b"] g [of "take start (segments b)"] g [of "drop (start + len) (segments b)"]
        g [of "segments b"] separators
      by (simp only: V6 show_ip.simps show_ipv6_def Let_def r prod.case) simp
  qed (use 4 in simp)
qed

subsection \<open>Reading groups\<close>

lemma to_digit_seps: "to_digit r CHR '':'' = None" "to_digit r CHR ''.'' = None"
  if "r \<le> 16"
  using that by (simp_all add: to_digit_def Let_def)

definition at_colon :: "string \<Rightarrow> bool" where
  "at_colon s = (s = [] \<or> hd s = CHR '':'')"

lemma at_colon_stops: "at_colon s \<Longrightarrow> r \<le> 16 \<Longrightarrow> stops r s"
  by (auto simp: at_colon_def stops_def to_digit_seps)

lemma read_digits_rest:
  assumes "read_digits r m cnt acc (u @ s) = Some (c, n, rest)" "CHR ''.'' \<notin> set u" "at_colon s" "r \<le> 16"
  shows "rest = [] \<or> hd rest \<noteq> CHR ''.''"
  using assms
proof (induction u arbitrary: cnt acc)
  case Nil
  then have "read_digits r m cnt acc s = Some (cnt, acc, s)"
    by (simp add: read_digits_stops at_colon_stops)
  with Nil show ?case by (auto simp: at_colon_def)
next
  case (Cons x u)
  then show ?case by (cases "to_digit r x") (auto split: if_splits)
qed

lemma no_ipv4:
  assumes "CHR ''.'' \<notin> set u" "at_colon s"
  shows "read_ipv4_octets (u @ s) = None"
proof -
  have "read_octet (Suc 0) rest = None" if "read_octet 0 (u @ s) = Some (n, rest)" for n rest
  proof -
    from that have "\<exists>c. read_digits 10 3 0 0 (u @ s) = Some (c, n, rest)"
      by (auto simp: read_octet_def read_separator_def read_number_def split: option.splits if_splits)
    with read_digits_rest assms have "rest = [] \<or> hd rest \<noteq> CHR ''.''" by fastforce
    then show ?thesis
      by (cases rest) (auto simp: read_octet_def read_separator_def read_given_char_def)
  qed
  then show ?thesis by (auto simp: read_ipv4_octets_def split: option.split)
qed

lemma read_number_none: "at_colon s \<Longrightarrow> r \<le> 16 \<Longrightarrow> read_number r m z mx s = None"
  by (simp add: read_number_def read_digits_stops at_colon_stops)

text \<open>The end of the groups: the end of the input, or the compression.\<close>

definition group_end :: "string \<Rightarrow> bool" where
  "group_end s = (s = [] \<or> (\<exists>t. s = CHR '':'' # CHR '':'' # t))"

lemma group_end_at_colon: "group_end s \<Longrightarrow> at_colon s"
  by (auto simp: group_end_def at_colon_def)

lemma read_groups_end:
  assumes "group_end s"
  shows "read_groups k i s = ([], False, s)"
proof -
  have none: "read_ipv4_octets s = None" "read_number 16 4 True 0xFFFF s = None"
    using no_ipv4 [of "[]" s] group_end_at_colon [OF assms] by (simp_all add: read_number_none)
  have tail: "read_ipv4_octets t = None" "read_number 16 4 True 0xFFFF t = None"
    if "s = CHR '':'' # t" for t
    using that assms no_ipv4 [of "[]" t]
    by (auto simp: group_end_def at_colon_def read_number_none)
  have sep: "read_separator CHR '':'' i read_ipv4_octets s = None"
    "read_separator CHR '':'' i (read_number 16 4 True 0xFFFF) s = None"
    using none tail by (auto simp: read_separator_def read_given_char_def split: list.splits)
  show ?thesis by (cases k) (simp_all add: sep)
qed

definition group_text :: "nat list \<Rightarrow> string" where
  "group_text gs = concat (map (\<lambda>g. CHR '':'' # show_hex g) gs)"

lemma show_hex_group:
  assumes "g \<le> 0xFFFF" "at_colon s"
  shows "read_number 16 4 True 0xFFFF (show_hex g @ s) = Some (g, s)"
    "read_ipv4_octets (show_hex g @ s) = None"
proof -
  show "read_number 16 4 True 0xFFFF (show_hex g @ s) = Some (g, s)"
    unfolding show_hex_def using assms by (intro read_number_show at_colon_stops) simp_all
  show "read_ipv4_octets (show_hex g @ s) = None"
    using set_show_radix [of 16 g] separators assms by (intro no_ipv4) (auto simp: show_hex_def)
qed

lemma at_colon_text: "group_end s \<Longrightarrow> at_colon (group_text gs @ s)"
  by (cases gs) (auto simp: group_text_def at_colon_def group_end_def)

lemma read_groups_text:
  assumes "group_end s" "\<forall>g\<in>set gs. g \<le> 0xFFFF" "length gs \<le> k" "0 < i"
  shows "read_groups k i (group_text gs @ s) = (gs, False, s)"
  using assms
proof (induction gs arbitrary: k i)
  case Nil
  then show ?case by (simp add: group_text_def read_groups_end)
next
  case (Cons g gs)
  then obtain j where k: "k = Suc j" by (cases k) auto
  have t: "group_text (g # gs) @ s = CHR '':'' # show_hex g @ (group_text gs @ s)"
    by (simp add: group_text_def)
  have g: "g \<le> 0xFFFF" using Cons.prems by simp
  show ?case
    using Cons.prems Cons.IH [of j "Suc i"] show_hex_group [OF g at_colon_text [OF Cons.prems(1)]]
    by (auto simp: k t read_separator_def read_given_char_def group_text_def)
qed

lemma show_groups_text: "show_groups (g # gs) = show_hex g @ group_text gs"
  by (induction gs arbitrary: g) (simp_all add: show_groups_def group_text_def)

lemma read_groups_show:
  assumes "group_end s" "\<forall>g\<in>set gs. g \<le> 0xFFFF" "length gs \<le> k"
  shows "read_groups k 0 (show_groups gs @ s) = (gs, False, s)"
proof (cases gs)
  case Nil
  then show ?thesis using assms(1) by (simp add: show_groups_def read_groups_end)
next
  case (Cons g gs')
  then obtain j where k: "k = Suc j" using assms(3) by (cases k) auto
  have g: "g \<le> 0xFFFF" using assms(2) Cons by simp
  show ?thesis
    using assms Cons k show_hex_group [OF g at_colon_text [OF assms(1), of gs']]
      read_groups_text [OF assms(1), of gs' j 1]
    by (auto simp: show_groups_text read_separator_def group_text_def)
qed

subsection \<open>The round trip\<close>

lemma dot_free_groups: "CHR ''.'' \<notin> set (show_groups gs)"
  using set_show_groups [of gs] separators by auto

lemma group_le: "g \<in> set (segments a) \<Longrightarrow> g \<le> 0xFFFF"
  by (auto simp: segments_def segment_le)

lemma read_ipv6_show:
  assumes "drop_bit 32 a \<noteq> 0xFFFF"
  shows "read_ipv6_addr (show_ipv6 a) = Some (a, []) \<and> CHR ''.'' \<notin> set (show_ipv6 a)"
proof -
  obtain start len where r: "zero_run 0 (0, 0) (0, 0) (segments a) = (start, len)"
    by (metis surj_pair)
  let ?h = "take start (segments a)" and ?t = "drop (start + len) (segments a)"
  have l: "length (segments a) = 8" by (simp add: segments_simps)
  have gs: "\<forall>g\<in>set ?h. g \<le> 0xFFFF" "\<forall>g\<in>set ?t. g \<le> 0xFFFF" "\<forall>g\<in>set (segments a). g \<le> 0xFFFF"
    using group_le set_take_subset set_drop_subset by fast+
  note z = segments_zero_run [OF r]
  show ?thesis
  proof (cases "1 < len")
    case True
    have s: "show_ipv6 a = show_groups ?h @ ''::'' @ show_groups ?t"
      using assms r True by (simp add: show_ipv6_def Let_def)
    have head: "read_groups 8 0 (show_groups ?h @ (''::'' @ show_groups ?t)) = (?h, False, ''::'' @ show_groups ?t)"
      using gs l z by (intro read_groups_show) (auto simp: group_end_def)
    have lh: "length ?h = start" "start < 8" using l z True by simp_all
    have tail: "read_groups (8 - (start + 1)) 0 (show_groups ?t) = (?t, False, [])"
      using read_groups_show [of "[]" ?t "8 - (start + 1)"] gs l z True by (simp add: group_end_def)
    have "8 - start - length ?t = len" using l z by simp
    then have "ipv6_of_groups (?h @ replicate (8 - start - length ?t) 0 @ ?t) = a"
      using z(2) ipv6_of_segments by simp
    then show ?thesis
      using head tail lh dot_free_groups by (simp add: s read_ipv6_addr_def read_given_char_def)
  next
    case False
    then have s: "show_ipv6 a = show_groups (segments a)"
      using assms r by (simp add: show_ipv6_def Let_def)
    have "read_groups 8 0 (show_groups (segments a) @ []) = (segments a, False, [])"
      by (rule read_groups_show) (simp_all add: group_end_def gs l)
    then show ?thesis
      using l dot_free_groups by (simp add: s read_ipv6_addr_def ipv6_of_segments)
  qed
qed

lemma octets_unat: "((octet 0 b * 256 + octet 1 b) * 256 + octet 2 b) * 256 + octet 3 b = unat b"
proof -
  let ?n = "unat b"
  have o: "octet 0 b = ?n div 256 div 256 div 256" "octet 1 b = ?n div 256 div 256 mod 256"
    "octet 2 b = ?n div 256 mod 256" "octet 3 b = ?n mod 256"
    using unat_u32_less [of b] by (simp_all add: octet_unat div_mult2_eq [symmetric])
  show ?thesis unfolding o by (simp only: div_mult_mod_eq)
qed

lemma mapped_groups:
  assumes "drop_bit 32 a = 0xFFFF"
  shows "ipv6_of_groups [0, 0, 0, 0, 0, 0xFFFF, octet 0 (ucast a) * 256 + octet 1 (ucast a),
     octet 2 (ucast a) * 256 + octet 3 (ucast a)] = a"
proof -
  let ?b = "ucast a :: u32"
  have b: "((octet 0 ?b * 256 + octet 1 ?b) * 256 + octet 2 ?b) * 256 + octet 3 ?b = unat a mod 2 ^ 32"
    using octets_unat [of ?b] by (simp add: unsigned_ucast_eq unsigned_take_bit_eq take_bit_eq_mod)
  have "unat (drop_bit 32 a) = unat a div 2 ^ 32" by (simp only: unat_drop_bit_eq) (simp only: drop_bit_eq_div)
  then have d: "unat a div 2 ^ 32 = 0xFFFF" using assms by simp
  have "unat a = 0xFFFF * 2 ^ 32 + unat a mod 2 ^ 32"
    using d by (metis div_mult_mod_eq)
  with b have "foldl (\<lambda>acc g. acc * 65536 + g) 0 [0, 0, 0, 0, 0, 0xFFFF,
      octet 0 ?b * 256 + octet 1 ?b, octet 2 ?b * 256 + octet 3 ?b] = unat a"
    by simp
  then show ?thesis by (simp only: ipv6_of_groups_def) simp
qed


lemma show_ipv4_at:
  "at_colon (CHR '':'' # s)" "group_end ''''"
  by (simp_all add: at_colon_def group_end_def)

lemma read_groups_first:
  "read_ipv4_octets x = None \<Longrightarrow> read_number 16 4 True 0xFFFF x = Some (g, y)
   \<Longrightarrow> read_groups k 1 y = (gs, v4, r) \<Longrightarrow> read_groups (Suc k) 0 x = (g # gs, v4, r)"
  by (auto simp: read_separator_def)

lemma read_mapped:
  assumes "drop_bit 32 a = 0xFFFF"
  shows "read_ipv6_addr (show_ipv6 a) = Some (a, [])"
proof -
  let ?b = "ucast a :: u32"
  let ?v = "[octet 0 ?b * 256 + octet 1 ?b, octet 2 ?b * 256 + octet 3 ?b]"
  have s: "show_ipv6 a = ''::'' @ ''ffff'' @ CHR '':'' # show_ipv4 ?b"
    using assms by (simp add: show_ipv6_def)
  have head: "read_groups 8 0 (''::'' @ r) = ([], False, ''::'' @ r)" for r
    by (rule read_groups_end) (simp add: group_end_def)
  have f: "show_hex 0xFFFF = ''ffff''" by (simp add: str_eval, code_simp)
  have ffff: "read_number 16 4 True 0xFFFF (''ffff'' @ CHR '':'' # show_ipv4 ?b) = Some (0xFFFF, CHR '':'' # show_ipv4 ?b)"
    "read_ipv4_octets (''ffff'' @ CHR '':'' # show_ipv4 ?b) = None"
  proof -
    have "at_colon (CHR '':'' # show_ipv4 ?b)" "(0xFFFF :: nat) \<le> 0xFFFF" by (simp_all add: at_colon_def)
    from show_hex_group [OF this(2,1)] show
      "read_number 16 4 True 0xFFFF (''ffff'' @ CHR '':'' # show_ipv4 ?b) = Some (0xFFFF, CHR '':'' # show_ipv4 ?b)"
      "read_ipv4_octets (''ffff'' @ CHR '':'' # show_ipv4 ?b) = None"
      by (simp_all only: f)
  qed
  have quad: "read_separator CHR '':'' 1 read_ipv4_octets (CHR '':'' # show_ipv4 ?b)
      = Some ((octet 0 ?b, octet 1 ?b, octet 2 ?b, octet 3 ?b), [])"
    using read_ipv4_show [of "[]" ?b]
    by (simp add: read_separator_def read_given_char_def stops_def)
  have "read_groups (Suc 5) 1 (CHR '':'' # show_ipv4 ?b) = (?v, True, [])"
    using quad by (simp only: read_groups.simps(2) option.case prod.case if_True zero_less_numeral)
  moreover have "(6 :: nat) = Suc 5" "(7 :: nat) = Suc 6" by simp_all
  ultimately have "read_groups 7 0 (''ffff'' @ CHR '':'' # show_ipv4 ?b) = (0xFFFF # ?v, True, [])"
    using read_groups_first [OF ffff(2,1)] by metis
  with head [of "''ffff'' @ CHR '':'' # show_ipv4 ?b"] mapped_groups [OF assms]
  show ?thesis
    unfolding s read_ipv6_addr_def
    by (simp add: read_given_char_def replicate_numeral_eval)
qed

lemma parse_ip_show_ip: "parse_ip (show_ip a) = Some a"
proof (cases a)
  case (V4 b)
  then show ?thesis by (simp only: parse_ip_show_ipv4)
next
  case (V6 b)
  have "read_ipv4_octets (show_ipv6 b) = None"
  proof (cases "drop_bit 32 b = 0xFFFF")
    case True
    then have "show_ipv6 b = [] @ ''::ffff:'' @ show_ipv4 (ucast b)" by (simp add: show_ipv6_def)
    then show ?thesis using no_ipv4 [of "[]" "''::ffff:'' @ show_ipv4 (ucast b)"]
      by (simp add: at_colon_def)
  next
    case False
    then show ?thesis using read_ipv6_show [OF False] no_ipv4 [of "show_ipv6 b" "[]"]
      by (simp add: at_colon_def)
  qed
  moreover have "read_ipv6_addr (show_ipv6 b) = Some (b, [])"
    using read_mapped read_ipv6_show by blast
  ultimately show ?thesis using V6 by (simp add: parse_ip_def read_ip_addr_def)
qed

end
