(* ===== verification/Net_Dns_Laws.thy ===== *)
theory Net_Dns_Laws
  imports Net_Dns Ip_Text
begin

text \<open>
  What the DNS backends guarantee: the strict verification characterised, the text the
  program writes read back by its own reader, and the file backend over a locale of files
  whose writes may fail half way, interpreted on files with faults.
\<close>

subsection \<open>Printable bytes\<close>

definition plain :: "char \<Rightarrow> bool" where
  "plain c = (0x21 \<le> (of_char c :: nat) \<and> of_char c < (0x7F :: nat))"

lemma plain_not_ws:
  assumes "plain c"
  shows "\<not> ascii_ws c" "\<not> ws2 c b" "\<not> ws2 b c" "\<not> ws3 c b d" "\<not> ws3 b d c"
  using assms by (auto simp: plain_def ascii_ws_def ws2_def ws3_def)

lemma ws_len_plain: "plain c \<Longrightarrow> ws_len (c # s) = 0"
  by (cases "c # s" rule: ws_len.cases) (auto simp: plain_not_ws)

lemma ws_len_rev_plain: "plain c \<Longrightarrow> ws_len_rev (c # s) = 0"
  by (cases "c # s" rule: ws_len_rev.cases) (auto simp: plain_not_ws)

lemma trim_start_plain: "plain c \<Longrightarrow> trim_start (c # s) = c # s"
  by (simp add: trim_start_def drop_lead_id ws_len_plain)

lemma trim_end_plain: "plain c \<Longrightarrow> trim_end (s @ [c]) = s @ [c]"
  by (simp add: trim_end_def drop_lead_id ws_len_rev_plain)

lemma trim_plain:
  assumes "plain (hd s)" "plain (last s)" "s \<noteq> []"
  shows "trim s = s"
proof -
  have "trim_start s = s" using trim_start_plain [of "hd s" "tl s"] assms by simp
  moreover have "trim_end s = s" using trim_end_plain [of "last s" "butlast s"] assms by simp
  ultimately show ?thesis by (simp add: trim_def)
qed

lemma trim_end_prefix: "\<exists>r. s = trim_end s @ r"
proof -
  obtain p where "rev s = p @ drop_lead ws_len_rev (rev s)" using drop_lead_suffix by blast
  then have "s = rev (drop_lead ws_len_rev (rev s)) @ rev p"
    by (metis rev_append rev_rev_ident)
  then show ?thesis unfolding trim_end_def by blast
qed

lemma hd_trim_plain: "plain c \<Longrightarrow> trim (c # s) = [] \<or> hd (trim (c # s)) = c"
  using trim_end_prefix [of "c # s"]
  by (cases "trim_end (c # s)") (auto simp: trim_def trim_start_plain)

lemma ip_chars_plain: "c \<in> set ip_chars \<Longrightarrow> plain c \<and> c \<noteq> CHR ''%'' \<and> c \<noteq> CHR 0x0A \<and> c \<noteq> CHR 0x0D"
proof -
  have "list_all (\<lambda>c. plain c \<and> c \<noteq> CHR ''%'' \<and> c \<noteq> CHR 0x0A \<and> c \<noteq> CHR 0x0D) ip_chars" by code_simp
  then show "c \<in> set ip_chars \<Longrightarrow> plain c \<and> c \<noteq> CHR ''%'' \<and> c \<noteq> CHR 0x0A \<and> c \<noteq> CHR 0x0D"
    by (simp add: list_all_iff)
qed

lemma show_ip_plain:
  "c \<in> set (show_ip a) \<Longrightarrow> plain c \<and> c \<noteq> CHR ''%'' \<and> c \<noteq> CHR 0x0A \<and> c \<noteq> CHR 0x0D"
  using set_show_ip [of a] ip_chars_plain by blast

lemma show_ip_ne: "show_ip a \<noteq> []"
  using parse_ip_show_ip [of a] by (auto simp: parse_ip_def read_ip_addr_def read_ipv4_octets_def
      read_octet_def read_separator_def read_number_def read_ipv6_addr_def read_given_char_def
      read_groups_end [of "[]"] group_end_def)

subsection \<open>Words and lines\<close>

lemma take_word_plain:
  "\<forall>c\<in>set u. plain c \<Longrightarrow> s = [] \<or> ws_len s \<noteq> 0 \<Longrightarrow> length u \<le> n
   \<Longrightarrow> take_word n (u @ s) = (u, s)"
proof (induction n arbitrary: u)
  case (Suc n)
  then show ?case by (cases u) (auto simp: ws_len_plain)
qed simp

lemma split_two_words:
  assumes "\<forall>c\<in>set u. plain c" "u \<noteq> []" "\<forall>c\<in>set v. plain c" "v \<noteq> []"
  shows "split_whitespace (u @ CHR '' '' # v) = [u, v]"
proof -
  have sp: "ws_len (CHR '' '' # v) = 1" by (cases "CHR '' '' # v" rule: ws_len.cases) (auto simp: ascii_ws_def)
  obtain c u' where u: "u = c # u'" using assms by (cases u) auto
  obtain d v' where v: "v = d # v'" using assms by (cases v) auto
  have t: "trim_start (CHR '' '' # v) = v"
  proof -
    have "drop_lead ws_len (CHR '' '' # v) = drop_lead ws_len v"
      by (subst drop_lead.simps) (simp add: sp)
    then show ?thesis using assms v by (simp add: trim_start_def drop_lead_id ws_len_plain)
  qed
  have w1: "take_word (length (u @ CHR '' '' # v)) (u @ CHR '' '' # v) = (u, CHR '' '' # v)"
    by (rule take_word_plain) (use assms sp in auto)
  have w2: "take_word (length v) (v @ []) = (v, [])"
    by (rule take_word_plain) (use assms in auto)
  have s1: "trim_start (u @ CHR '' '' # v) = c # u' @ CHR '' '' # v"
    using u assms by (simp add: trim_start_plain)
  have s2: "trim_start v = d # v'" "trim_start [] = []"
    using v assms by (simp add: trim_start_plain, simp add: trim_start_def drop_lead_id)
  have l1: "words_loop (Suc n) (u @ CHR '' '' # v) = u # words_loop n (CHR '' '' # v)" for n
    using w1 s1 by (simp only: words_loop.simps list.case u append_Cons prod.case)
  have l2: "words_loop (Suc n) (CHR '' '' # v) = v # words_loop n []" for n
    using w2 t by (simp only: words_loop.simps v append_Nil2 list.case prod.case)
  have l3: "words_loop n [] = []" for n by (cases n) (simp_all only: words_loop.simps s2 list.case)
  have "length (u @ CHR '' '' # v) = Suc (Suc (length u' + length v))" by (simp add: u)
  then show ?thesis unfolding split_whitespace_def by (simp only: l1 l2 l3)
qed

lemma lines_aux_line:
  "CHR 0x0A \<notin> set l \<Longrightarrow> lines_aux acc (l @ CHR 0x0A # rest) = strip_cr (rev acc @ l) # lines rest"
  by (induction l arbitrary: acc) (auto simp: lines_def)

lemma lines_line: "CHR 0x0A \<notin> set l \<Longrightarrow> lines (l @ CHR 0x0A # rest) = strip_cr l # lines rest"
  using lines_aux_line [of l "[]" rest] by (simp add: lines_def)


subsection \<open>The text the program writes\<close>

lemma strip_cr_cases: "\<exists>r. l = strip_cr l @ r"
  by (cases l rule: rev_cases) (auto simp: strip_cr_def)

text \<open>A line that starts with another byte than \<open>n\<close> names no server.\<close>

lemma other_line:
  assumes "l = c # l'" "plain c" "c \<noteq> CHR ''n''"
  shows "parse_nameserver found (strip_cr l) = Inr found"
proof -
  have "trim (strip_cr l) = [] \<or> hd (trim (strip_cr l)) = c"
  proof (cases "strip_cr l")
    case Nil
    then show ?thesis by (simp add: str_eval)
  next
    case (Cons d ds)
    with strip_cr_cases [of l] assms(1) have "d = c" by auto
    with Cons assms(2) show ?thesis by (simp add: hd_trim_plain)
  qed
  moreover have "\<not> starts_with ''nameserver'' s" if "s = [] \<or> hd s = c" for s
    using that assms(3) by (cases s) (auto simp: starts_with_def)
  ultimately show ?thesis by (auto simp: parse_nameserver_def Let_def)
qed

lemma nameserver_line:
  "parse_nameserver found (strip_cr (''nameserver '' @ show_ip a)) =
     Inr (if is_ipv4 a then (fst found @ [a], snd found) else (fst found, snd found @ [a]))"
proof -
  let ?l = "''nameserver '' @ show_ip a"
  have last: "plain (last ?l)" "last ?l \<noteq> CHR 0x0D"
    using show_ip_plain [of "last (show_ip a)" a] show_ip_ne [of a] by simp_all
  have word: "\<forall>c\<in>set ''nameserver''. plain c" by (simp add: plain_def)
  have cr: "strip_cr ?l = ?l" using last by (simp add: strip_cr_def)
  have trim: "trim ?l = ?l" by (rule trim_plain) (use last in \<open>simp_all add: plain_def\<close>)
  have "split_whitespace (''nameserver'' @ CHR '' '' # show_ip a) = [''nameserver'', show_ip a]"
    by (rule split_two_words) (use word show_ip_plain show_ip_ne in auto)
  then have "split_whitespace ?l = [''nameserver'', show_ip a]" by simp
  moreover have "split_on CHR ''%'' (show_ip a) = [show_ip a]"
    by (rule split_on_single) (use show_ip_plain in blast)
  ultimately show ?thesis
    unfolding parse_nameserver_def cr trim Let_def
    by (simp add: parse_ip_show_ip starts_with_def)
qed

lemma parse_nameserver_lines:
  "parse_nameservers found (lines (nameserver_lines servers)) =
     Inr (fst found @ filter is_ipv4 servers, snd found @ filter is_ipv6 servers)"
proof (induction servers arbitrary: found)
  case Nil
  then show ?case by (simp add: nameserver_lines_def lines_def)
next
  case (Cons a servers)
  have "CHR 0x0A \<notin> set (''nameserver '' @ show_ip a)" using show_ip_plain by auto
  from lines_line [OF this, of "nameserver_lines servers"]
  have eq: "lines (nameserver_lines (a # servers))
      = strip_cr (''nameserver '' @ show_ip a) # lines (nameserver_lines servers)"
    by (simp add: nameserver_lines_def)
  show ?case
    unfolding eq parse_nameservers.simps nameserver_line
    by (simp add: Cons.IH bindE_def is_ipv6_def)
qed

lemma parse_written:
  assumes "\<forall>d\<in>set search. CHR 0x0A \<notin> set d"
  shows "parse_resolv_conf (build_resolv_conf_contents servers search)
     = Inr (filter is_ipv4 servers, filter is_ipv6 servers)"
proof -
  let ?h = "''# Generated by r-wg''" and ?s = "''search '' @ join '' '' search"
  have h: "parse_nameserver found (strip_cr ?h) = Inr found" for found
    by (rule other_line [of _ "CHR ''#''" "tl ?h"]) (simp_all add: plain_def)
  have s: "parse_nameserver found (strip_cr ?s) = Inr found" for found
    by (rule other_line [of _ "CHR ''s''" "tl ?s"]) (simp_all add: plain_def)
  have "CHR 0x0A \<notin> set ?s"
    using set_join [of "'' ''" search] assms by auto
  note nl = lines_line [of ?h] lines_line [OF this]
  have "lines (search_line search @ nameserver_lines servers) =
     (if search = [] then [] else [strip_cr ?s]) @ lines (nameserver_lines servers)"
    using nl(2) by (simp add: search_line_def)
  moreover have "lines (build_resolv_conf_contents servers search)
      = strip_cr ?h # lines (search_line search @ nameserver_lines servers)"
    using nl(1) by (simp add: build_resolv_conf_contents_def)
  ultimately show ?thesis
    using h s parse_nameserver_lines [of "([], [])" servers]
    by (simp add: parse_resolv_conf_def bindE_def)
qed

subsection \<open>The strict check\<close>

lemma verify_family_ok:
  "verify_family fam expected found = Inr () \<longleftrightarrow>
     set found \<subseteq> set expected \<and> (found = [] \<longleftrightarrow> expected = [])"
  by (auto simp: verify_family_def Let_def filter_empty_conv)

lemma verify_found_ok:
  "verify_found servers found = Inr () \<longleftrightarrow>
     (set (fst found) \<subseteq> set (filter is_ipv4 servers) \<and> (fst found = [] \<longleftrightarrow> filter is_ipv4 servers = []))
   \<and> (set (snd found) \<subseteq> set (filter is_ipv6 servers) \<and> (snd found = [] \<longleftrightarrow> filter is_ipv6 servers = []))"
proof -
  have "bindE r (\<lambda>_. s) = Inr () \<longleftrightarrow> r = Inr () \<and> s = Inr ()" for r s :: "network_error + unit"
    by (cases r) (auto simp: bindE_def)
  then show ?thesis unfolding verify_found_def by (simp only: verify_family_ok conj_assoc)
qed


subsection \<open>Files\<close>

text \<open>
  A write may fail after any prefix of the text; what a failing read returns is not used.
\<close>

locale dns_files =
  fixes sys :: "'w dns_sys" and content :: "'w \<Rightarrow> string \<Rightarrow> string"
  assumes read: "wp (dn_read_file sys p) (\<lambda>r w'. content w' = content w
      \<and> (case r of Inl _ \<Rightarrow> True | Inr t \<Rightarrow> t = content w p)) w"
    and truncate: "wp (dn_truncate sys p) (\<lambda>r w'. case r of
        Inl _ \<Rightarrow> content w' = content w | Inr _ \<Rightarrow> content w' = (content w)(p := [])) w"
    and write_all: "wp (dn_write_all sys p t) (\<lambda>r w'. case r of
        Inl _ \<Rightarrow> \<exists>n. content w' = (content w)(p := content w p @ take n t)
      | Inr _ \<Rightarrow> content w' = (content w)(p := content w p @ t)) w"
begin

text \<open>Only the file at hand changes, and a successful write replaces its text.\<close>

lemma wp_write:
  "wp (write_resolv_conf sys p t) (\<lambda>r w'. (\<forall>q. q \<noteq> p \<longrightarrow> content w' q = content w q)
     \<and> (is_ok r \<longrightarrow> content w' = (content w)(p := t))) w"
proof -
  have W: "wp (map_errS NetIo (dn_write_all sys p t)) (\<lambda>r w'. (\<forall>q. q \<noteq> p \<longrightarrow> content w' q = content w q)
     \<and> (is_ok r \<longrightarrow> content w' = (content w)(p := t))) w1" if "content w1 = (content w)(p := [])" for w1
    unfolding wp_map_errS
    by (rule wp_mono [OF write_all]) (use that in \<open>auto simp: map_err_def split: sum.splits\<close>)
  show ?thesis
    unfolding write_resolv_conf_def wp_bindS wp_map_errS
  proof (rule wp_mono [OF truncate], goal_cases)
    case (1 r w')
    then show ?case using W [of w'] by (cases r) (simp_all add: map_err_def wp_map_errS)
  qed
qed

lemma wp_verify:
  "wp (verify_resolv_conf_servers sys p servers) (\<lambda>r w'. content w' = content w) w"
  unfolding verify_resolv_conf_servers_def read_resolv_conf_servers_def wp_bindS wp_map_errS
  by (rule wp_mono [OF read]) (auto simp: wp_rules map_err_def split: sum.splits)

text \<open>
  An application keeps every other file, and its state names the text it replaced.
\<close>

lemma wp_apply_file:
  "wp (apply_resolv_conf_file sys info servers search) (\<lambda>r w'.
     (\<forall>q. q \<noteq> rci_path info \<longrightarrow> content w' q = content w q)
   \<and> (case r of Inl _ \<Rightarrow> True
      | Inr s \<Rightarrow> s = DnsResolvConf (rci_path info) (content w (rci_path info))
         \<and> content w' = (content w)(rci_path info := build_resolv_conf_contents servers search))) w"
proof -
  let ?p = "rci_path info" and ?c = "build_resolv_conf_contents servers search"
  let ?Q = "\<lambda>r w'. (\<forall>q. q \<noteq> ?p \<longrightarrow> content w' q = content w q)
   \<and> (case r of Inl _ \<Rightarrow> True
      | Inr s \<Rightarrow> s = DnsResolvConf ?p (content w ?p) \<and> content w' = (content w)(?p := ?c))"
  have V: "wp (withS (verify_resolv_conf_servers sys ?p servers) (\<lambda>r. case r of
          Inl e \<Rightarrow> ignoreS (write_resolv_conf sys ?p (content w ?p)) (throwS e)
        | Inr _ \<Rightarrow> returnS (DnsResolvConf ?p (content w ?p)))) ?Q w1"
    if "content w1 = (content w)(?p := ?c)" for w1
    unfolding wp_withS
  proof (rule wp_mono [OF wp_verify])
    fix r :: "network_error + unit" and w2 assume "content w2 = content w1"
    with that show "wp (case r of
          Inl e \<Rightarrow> ignoreS (write_resolv_conf sys ?p (content w ?p)) (throwS e)
        | Inr _ \<Rightarrow> returnS (DnsResolvConf ?p (content w ?p))) ?Q w2"
      by (cases r) (auto simp: wp_rules intro!: wp_mono [OF wp_write])
  qed
  have W: "wp (bindS (write_resolv_conf sys ?p ?c) (\<lambda>_.
        withS (verify_resolv_conf_servers sys ?p servers) (\<lambda>r. case r of
          Inl e \<Rightarrow> ignoreS (write_resolv_conf sys ?p (content w ?p)) (throwS e)
        | Inr _ \<Rightarrow> returnS (DnsResolvConf ?p (content w ?p))))) ?Q w1"
    if "content w1 = content w" for w1
    unfolding wp_bindS
  proof (rule wp_mono [OF wp_write], goal_cases)
    case (1 r w')
    then show ?case using V [of w'] that by (cases r) (simp_all add: is_ok_def)
  qed
  show ?thesis
  proof (cases "rci_is_symlink info")
    case False
    show ?thesis
      unfolding apply_resolv_conf_file_def if_not_P [OF False] wp_bindS [of "map_errS NetIo _"]
        wp_map_errS
    proof (rule wp_mono [OF read], goal_cases)
      case (1 r w')
      then show ?case using W [of w'] by (cases r) (simp_all add: map_err_def)
    qed
  qed (simp add: apply_resolv_conf_file_def wp_rules)
qed

lemma cleanup_restores:
  assumes "apply_resolv_conf_file sys info servers search w = (Inr s, w1)"
    and "cleanup_dns sys tun s w1 = (Inr (), w2)"
  shows "content w1 = (content w)(rci_path info := build_resolv_conf_contents servers search)"
    "content w2 = content w"
proof -
  from wpD [OF wp_apply_file assms(1)]
  have s: "s = DnsResolvConf (rci_path info) (content w (rci_path info))"
    and f: "content w1 = (content w)(rci_path info := build_resolv_conf_contents servers search)"
    by simp_all
  then show "content w1 = (content w)(rci_path info := build_resolv_conf_contents servers search)" by simp
  have "write_resolv_conf sys (rci_path info) (content w (rci_path info)) w1 = (Inr (), w2)"
    using assms(2) s by (simp add: cleanup_dns_def cleanup_resolv_conf_file_def)
  from wpD [OF wp_write this] f show "content w2 = content w" by simp
qed

end

subsection \<open>Files with faults\<close>

text \<open>
  No DNS command is installed; a fault makes the write stop after four bytes.
\<close>

record file_world =
  fd_files :: "string \<Rightarrow> string"
  fd_faults :: "bool list"

definition sim_write :: "string \<Rightarrow> string \<Rightarrow> (file_world, string, unit) op" where
  "sim_write p t w =
     (let w' = w\<lparr>fd_faults := tl (fd_faults w)\<rparr>; old = fd_files w p in
      if fd_faults w \<noteq> [] \<and> hd (fd_faults w)
      then (Inl ''No space left on device'', w'\<lparr>fd_files := (fd_files w)(p := old @ take 4 t)\<rparr>)
      else (Inr (), w'\<lparr>fd_files := (fd_files w)(p := old @ t)\<rparr>))"

definition sim_dns :: "file_world dns_sys" where
  "sim_dns =
     \<lparr>dn_is_file = (\<lambda>_ _. False),
      dn_exec = (\<lambda>_ _ _. throwS ''not found''),
      dn_probe = (\<lambda>_ _ w. (None, w)),
      dn_is_symlink = (\<lambda>_. False),
      dn_link_target = (\<lambda>_. None),
      dn_read_file = (\<lambda>p w. (Inr (fd_files w p), w)),
      dn_truncate = (\<lambda>p w. (Inr (), w\<lparr>fd_files := (fd_files w)(p := [])\<rparr>)),
      dn_write_all = sim_write,
      dn_sleep = (\<lambda>_ w. w),
      dn_order_get = (\<lambda>_. None),
      dn_order_set = (\<lambda>_ w. w)\<rparr>"

interpretation sim_files: dns_files sim_dns fd_files
  by unfold_locales (auto simp: wp_def sim_dns_def sim_write_def Let_def)

text \<open>
  The error of a failed write is passed on without putting the original back: the file is
  left cut off, and no state records what it held.
\<close>

definition full_disk :: file_world where
  "full_disk = \<lparr>fd_files = (\<lambda>_. ''nameserver 9.9.9.9''), fd_faults = [True]\<rparr>"

lemma resolv_conf_lost:
  "fst (apply_dns sim_dns ''wg0'' [V4 1] [] full_disk) = Inl (NetIo ''No space left on device'')
   \<and> fd_files (snd (apply_dns sim_dns ''wg0'' [V4 1] [] full_disk)) RESOLV_CONF = ''# Ge''"
  by code_simp

text \<open>
  NetworkManager with two active connections, the second of which cannot be read: the first
  one has been modified and is never restored. The world is the log of the commands.
\<close>

definition nm_exec :: "string \<Rightarrow> string list \<Rightarrow> string option \<Rightarrow> (string list list, string, dns_output) op" where
  "nm_exec p args input log =
     (Inr \<lparr>do_success = (args \<noteq> [''-g'', ''ipv4.dns'', ''connection'', ''show'', ''B'']),
           do_code = Some 0, do_stdout = ''old'', do_stderr = []\<rparr>, log @ [args])"

definition nm_dns :: "string list list dns_sys" where
  "nm_dns =
     \<lparr>dn_is_file = (\<lambda>p _. p = ''/usr/bin/nmcli''),
      dn_exec = nm_exec,
      dn_probe = (\<lambda>_ _ w. (None, w)),
      dn_is_symlink = (\<lambda>_. True),
      dn_link_target = (\<lambda>_. None),
      dn_read_file = (\<lambda>_. returnS []),
      dn_truncate = (\<lambda>_. throwS ''read-only''),
      dn_write_all = (\<lambda>_ _. throwS ''read-only''),
      dn_sleep = (\<lambda>_ w. w),
      dn_order_get = (\<lambda>_. None),
      dn_order_set = (\<lambda>_ w. w)\<rparr>"

lemma nm_modified_not_restored:
  "\<not> is_ok (fst (apply_connections nm_dns ''nmcli'' ''1.1.1.1'' [] [] [] [(''A'', ''eth0''), (''B'', ''eth1'')] []))
   \<and> filter (\<lambda>a. take 2 a = [''connection'', ''modify''])
        (snd (apply_connections nm_dns ''nmcli'' ''1.1.1.1'' [] [] [] [(''A'', ''eth0''), (''B'', ''eth1'')] []))
     = [[''connection'', ''modify'', ''A'', ''ipv4.dns'', ''1.1.1.1'', ''ipv4.ignore-auto-dns'', ''yes'',
         ''ipv4.dns-search'', [], ''ipv4.dns-priority'', ''-42'',
         ''ipv6.dns'', [], ''ipv6.ignore-auto-dns'', ''yes'',
         ''ipv6.dns-search'', [], ''ipv6.dns-priority'', ''-42'']]"
  by code_simp

end
