(* ===== verification/Net_Properties.thy ===== *)
theory Net_Properties
  imports Net_Policy_Laws Net_Firewall_Laws Net_Dns_Laws
begin

text \<open>
  The properties of the Linux network platform: the policy rules over every rule table that
  satisfies \<open>rule_tables\<close>, and the kill switch over every \<open>iptables\<close>.
\<close>

subsection \<open>Policy rules\<close>

text \<open>C26: the rules an application installs are, in order and attribute by attribute, the ones
  the recovery deletes after a crash, although the two are built by separate code; and the
  recognition accepts each of them.\<close>

theorem recovery_names_installed_rules:
  "apply_policy_rules recorder (pr_fwmark p) (pr_table_id p) (pr_v4 p) (pr_v6 p) ms
     = (Inr (), ms @ policy_rule_messages (policy_snapshot p))
   \<and> cleanup_policy_state recorder p ms = ms @ policy_rule_messages (policy_snapshot p)
   \<and> list_all (\<lambda>r. is_exact_policy_rule r p \<and> is_managed_policy_rule_signature r)
       (policy_rule_messages (policy_snapshot p))"
proof -
  have "is_exact_policy_rule r p" if "r \<in> set (policy_rule_messages (policy_snapshot p))" for r
    using that
    by (auto simp: policy_rule_messages_def policy_snapshot_def recovery_messages exact_signature
        message_signatures split: if_splits)
  with exact_is_managed show ?thesis
    by (auto simp: applied_messages snapshot_deletes list_all_iff)
qed


definition sample_policy :: policy_routing where
  "sample_policy = \<lparr>pr_table_id = 51820, pr_fwmark = 7, pr_v4 = True, pr_v6 = True\<rparr>"








text \<open>The condition matters: a rule of someone else that differs from the tunnel rule only in the
  invert bit is deleted in its place.\<close>

lemma confusable_rule_lost:
  defines "other \<equiv> (dump_rule False (tunnel_rule_message AfInet 7 51820))\<lparr>rm_invert := False\<rparr>"
  defines "table \<equiv> \<lparr>rw_rules = [other, dump_rule False (tunnel_rule_message AfInet 7 51820)],
    rw_faults = []\<rparr>"
  shows "\<not> is_policy_rule other (Some sample_policy)"
    "sim_rules (snd (cleanup_policy_rules sim_rule_sys (Some sample_policy) True True table)) False
      = [dump_rule False (tunnel_rule_message AfInet 7 51820)]"
  unfolding other_def table_def by code_simp+

text \<open>C29: under every interleaving of callers at most one is inside the cleanup, none while the
  flag is idle or done, and a cleanup that succeeded is never run again.\<close>

theorem cleanup_runs_once:
  assumes "once_reachable s"
  shows "on_inside s + on_successes s \<le> 1
    \<and> (on_flag s = CLEANUP_STATE_IN_PROGRESS \<longleftrightarrow> on_inside s = 1)
    \<and> (on_flag s = CLEANUP_STATE_DONE \<longleftrightarrow> on_successes s = 1)
    \<and> (fst (begin_cleanup_once (on_flag s)) \<longleftrightarrow> on_inside s = 0 \<and> on_successes s = 0)"
  using once_invariant [OF assms] by (auto simp: begin_cleanup_once_def)

theorem cleanup_runs_once_witness:
  "\<not> fst (begin_cleanup_once (on_flag (once_initial\<lparr>on_flag := CLEANUP_STATE_IN_PROGRESS,
     on_inside := Suc (on_inside once_initial)\<rparr>)))"
proof -
  have "once_step once_initial (once_initial\<lparr>on_flag := CLEANUP_STATE_IN_PROGRESS,
      on_inside := Suc (on_inside once_initial)\<rparr>)"
    by (rule once_step.enter) (simp add: once_initial_def begin_cleanup_once_def)
  from cleanup_runs_once [OF once_reachable.step [OF once_reachable.init this]]
  show ?thesis by (simp add: once_initial_def)
qed

subsection \<open>The kill switch\<close>

text \<open>C30: a kill switch applied through iptables meets, for every family it was asked to protect,
  each outgoing packet before any other rule does, and rejects it unless it leaves on the
  loopback, on the tunnel, or carries the mark of the engine. The last hypothesis is that a
  rule without conditions matches.\<close>

theorem kill_switch_rejects:
  assumes "iptables sys tables"
    and "apply_kill_switch sys tun mark ipv4 ipv6 w = (Inr k, w')" "kw_backend k = Iptables"
    and "matches [] packet"
  shows "(ipv4 \<or> ipv6)
    \<and> (ipv4 \<longrightarrow> (\<exists>p. path_of ''iptables'' p
        \<and> output_verdict matches (tables w' p) (tb_output (tables w' p)) packet
          = (if passes matches tun mark packet
             then output_verdict matches (tables w' p) (tl (tb_output (tables w' p))) packet
             else Some ''REJECT'')))
    \<and> (ipv6 \<longrightarrow> (\<exists>p. path_of ''ip6tables'' p
        \<and> output_verdict matches (tables w' p) (tb_output (tables w' p)) packet
          = (if passes matches tun mark packet
             then output_verdict matches (tables w' p) (tl (tb_output (tables w' p))) packet
             else Some ''REJECT'')))"
proof -
  have "(ipv4 \<or> ipv6) \<and> iptables.forced_families tables tun mark ipv4 ipv6 w'"
    using wpD [OF iptables.wp_kill_switch [OF assms(1)] assms(2)] assms(3) by auto
  then show ?thesis
    unfolding iptables.forced_families_def [OF assms(1)]
    using in_force_verdict [of IPTABLES_CHAIN_NAME tun mark _ matches packet] assms(4) by blast
qed

lemma sim_resolve:
  "resolve_command sim_fw ''nft'' w = None"
  "resolve_command sim_fw ''iptables'' w = Some ''/usr/sbin/iptables''"
  "resolve_command sim_fw ''ip6tables'' w = Some ''/usr/sbin/ip6tables''"
  by (simp_all add: resolve_command_def sim_fw_def command_dirs_def str_eval)

lemma sim_table:
  "xo_success exec_done" "table_command [''-N'', c] t =
     (if tb_chains t c \<noteq> None then (exec_refused ''iptables: Chain already exists.'', t)
      else (exec_done, t\<lparr>tb_chains := (tb_chains t)(c \<mapsto> [])\<rparr>))"
  "tb_chains t c = Some rs \<Longrightarrow> table_command (''-A'' # c # rule) t =
     (exec_done, t\<lparr>tb_chains := (tb_chains t)(c \<mapsto> rs @ [rule])\<rparr>)"
  "tb_chains t c = Some rs \<Longrightarrow> table_command [''-I'', ''OUTPUT'', ''1'', ''-j'', c] t =
     (exec_done, t\<lparr>tb_output := jump c # tb_output t\<rparr>)"
  "tb_output t = jump c # out \<Longrightarrow> table_command [''-D'', ''OUTPUT'', ''-j'', c] t =
     (exec_done, t\<lparr>tb_output := out\<rparr>)"
  "tb_chains t c = Some rs \<Longrightarrow> table_command [''-F'', c] t =
     (exec_done, t\<lparr>tb_chains := (tb_chains t)(c \<mapsto> [])\<rparr>)"
  "tb_chains t c = Some rs \<Longrightarrow> jump c \<notin> set (tb_output t) \<Longrightarrow> table_command [''-X'', c] t =
     (exec_done, t\<lparr>tb_chains := (tb_chains t)(c := None)\<rparr>)"
  by (simp_all add: table_command_def exec_done_def)

lemma missing_states:
  "is_missing_firewall_state (command_failed p args (exec_refused no_chain))"
  "is_missing_firewall_state (command_failed p args
     (exec_refused ''iptables: Bad rule (does a matching rule exist in that chain?).''))"
  by (simp_all add: is_missing_firewall_state_def command_failed_def exec_refused_def no_chain_def)
    code_simp+

text \<open>Without faults, the switch comes up on a table without the chain.\<close>

definition bare :: "'a fw_sim_scheme \<Rightarrow> string \<Rightarrow> bool" where
  "bare w p = (fs_faults w = [] \<and> without_chain IPTABLES_CHAIN_NAME (fs_tables w p))"

definition only_changed :: "string \<Rightarrow> 'a fw_sim_scheme \<Rightarrow> 'a fw_sim_scheme \<Rightarrow> bool" where
  "only_changed p w w' = (fs_faults w' = [] \<and> (\<forall>q. q \<noteq> p \<longrightarrow> fs_tables w' q = fs_tables w q))"

lemma refused_commands:
  assumes "without_chain c t"
  shows "table_command [''-D'', ''OUTPUT'', ''-j'', c] t =
      (exec_refused ''iptables: Bad rule (does a matching rule exist in that chain?).'', t)"
    "table_command [''-F'', c] t = (exec_refused no_chain, t)"
    "table_command [''-X'', c] t = (exec_refused no_chain, t)"
  using assms by (simp_all add: table_command_def without_chain_def)

lemma sim_cleanup:
  assumes "bare w p"
  shows "wp (cleanup_iptables_family sim_fw p) (\<lambda>_ w'. bare w' p \<and> only_changed p w w') w"
proof -
  have *: "w\<lparr>fs_faults := [], fs_tables := (fs_tables w)(p := fs_tables w p)\<rparr> = w"
    using assms by (simp add: bare_def)
  have n: "\<not> xo_success (exec_refused m)" for m by (simp add: exec_refused_def)
  show ?thesis
    using assms refused_commands [of IPTABLES_CHAIN_NAME "fs_tables w p"] *
    by (simp add: cleanup_iptables_family_def cleanup_chain_def numeral_eq_Suc wp_rules
        wp_ignore_missing wp_sim_run missing_states n bare_def only_changed_def)
qed

text \<open>The chain is there, entered first and from nowhere else.\<close>

definition armed :: "'a fw_sim_scheme \<Rightarrow> string \<Rightarrow> bool" where
  "armed w p = (fs_faults w = [] \<and> tb_chains (fs_tables w p) IPTABLES_CHAIN_NAME \<noteq> None
     \<and> (\<exists>out. tb_output (fs_tables w p) = jump IPTABLES_CHAIN_NAME # out
          \<and> jump IPTABLES_CHAIN_NAME \<notin> set out))"

lemma sim_disarm:
  assumes "armed w p"
  shows "wp (cleanup_iptables_family sim_fw p) (\<lambda>r w'. r = Inr () \<and> only_changed p w w') w"
proof -
  have n: "\<not> xo_success (exec_refused m)" for m by (simp add: exec_refused_def)
  have gone: "jump c \<notin> set (tb_output t) \<Longrightarrow> table_command [''-D'', ''OUTPUT'', ''-j'', c] t =
      (exec_refused ''iptables: Bad rule (does a matching rule exist in that chain?).'', t)" for c t
    by (simp add: table_command_def)
  show ?thesis
    using assms
    by (auto simp: armed_def cleanup_iptables_family_def cleanup_chain_def numeral_eq_Suc wp_rules
        wp_ignore_missing wp_sim_run missing_states n sim_table gone only_changed_def Let_def)
qed

lemma sim_inner:
  assumes "bare w p"
  shows "wp (apply_iptables_family_inner sim_fw p tun mark)
    (\<lambda>r w'. r = Inr () \<and> only_changed p w w' \<and> armed w' p) w"
  using assms
  by (simp add: apply_iptables_family_inner_def wp_rules wp_sim_run sim_table bare_def
      without_chain_def only_changed_def Let_def armed_def)

lemma sim_family:
  assumes "bare w p"
  shows "wp (apply_iptables_family sim_fw p tun mark)
    (\<lambda>r w'. r = Inr () \<and> only_changed p w w' \<and> armed w' p) w"
  unfolding apply_iptables_family_def guarded_apply_def wp_rules
  by (rule wp_mono [OF sim_cleanup [OF assms]], rule wp_mono [OF sim_inner])
    (auto simp: wp_rules only_changed_def)

definition bare_tables :: fw_sim where
  "bare_tables = \<lparr>fs_tables = (\<lambda>_. \<lparr>tb_chains = (\<lambda>_. None), tb_output = [[''-j'', ''ACCEPT'']]\<rparr>),
     fs_faults = []\<rparr>"

definition both_armed :: "'a fw_sim_scheme \<Rightarrow> bool" where
  "both_armed w = (armed w ''/usr/sbin/iptables'' \<and> armed w ''/usr/sbin/ip6tables'')"

lemma sim_kill_switch:
  assumes 4: "bare w ''/usr/sbin/iptables''" and 6: "bare w ''/usr/sbin/ip6tables''"
  shows "wp (apply_kill_switch sim_fw tun mark True True) (\<lambda>r w'. both_armed w' \<and> r = Inr
     \<lparr>kw_backend = Iptables, kw_tun_name = tun, kw_fwmark = mark, kw_ipv4 = True, kw_ipv6 = True\<rparr>) w"
proof -
  have fam6: "wp (apply_iptables_family sim_fw ''/usr/sbin/ip6tables'' tun mark)
      (\<lambda>r w'. both_armed w' \<and> r = Inr ()) w'"
    if "only_changed ''/usr/sbin/iptables'' w w'" "armed w' ''/usr/sbin/iptables''" for w'
    by (rule wp_mono [OF sim_family])
      (use 6 that in \<open>auto simp: bare_def only_changed_def both_armed_def armed_def\<close>)
  have "wp (apply_iptables sim_fw tun mark True True) (\<lambda>r w'. both_armed w' \<and> r = Inr ()) w"
    unfolding apply_iptables_def apply_iptables_with_resolver_def apply_ip6tables_def wp_rules
      if_True sim_resolve option.case
    by (rule wp_mono [OF sim_family [OF 4]]) (auto simp: wp_rules intro!: wp_mono [OF fam6])
  then show ?thesis
    unfolding apply_kill_switch_def Let_def wp_askS sim_resolve option.case
    by (simp add: wp_rules) (erule wp_mono, simp add: wp_rules)
qed

lemma sim_lift:
  assumes "both_armed w" "kw_backend k = Iptables"
  shows "wp (cleanup_kill_switch sim_fw k) (\<lambda>r w'. r = Inr () \<and> fs_faults w' = []) w"
proof -
  have six: "wp (cleanup_iptables_family sim_fw ''/usr/sbin/ip6tables'')
      (\<lambda>r w'. r = Inr () \<and> fs_faults w' = []) w'"
    if "only_changed ''/usr/sbin/iptables'' w w'" for w'
    by (rule wp_mono [OF sim_disarm])
      (use assms(1) that in \<open>auto simp: both_armed_def armed_def only_changed_def\<close>)
  have six': "wp (cleanup_iptables_family sim_fw ''/usr/sbin/ip6tables'')
      (\<lambda>r w'. r = Inr () \<and> fs_faults w' = []) w"
    by (rule six) (use assms(1) in \<open>simp add: both_armed_def armed_def only_changed_def\<close>)
  have four: "wp (cleanup_iptables_family sim_fw ''/usr/sbin/iptables'')
      (\<lambda>r w'. r = Inr () \<and> only_changed ''/usr/sbin/iptables'' w w') w"
    by (rule sim_disarm) (use assms(1) in \<open>simp add: both_armed_def\<close>)
  show ?thesis
    using assms six'
    by (auto simp: cleanup_kill_switch_def cleanup_iptables_def cleanup_both_def require_command_def
        wp_askS sim_resolve wp_rules both_armed_def armed_def only_changed_def
        intro!: wp_mono [OF four] six)
qed

lemma bare_tables_bare: "bare bare_tables ''/usr/sbin/iptables''" "bare bare_tables ''/usr/sbin/ip6tables''"
  by (simp_all add: bare_def bare_tables_def without_chain_def jump_def IPTABLES_CHAIN_NAME_def)

text \<open>A packet is its interface; \<open>eth0\<close> carries no mark.\<close>

definition leaves_on :: "string list \<Rightarrow> string \<Rightarrow> bool" where
  "leaves_on m ifname = (m = [] \<or> m = [''-o'', ifname])"

theorem kill_switch_rejects_witness:
  "\<exists>p. path_of ''ip6tables'' p
     \<and> output_verdict leaves_on
         (fs_tables (snd (apply_kill_switch sim_fw ''wg0'' 51820 True True bare_tables)) p)
         (tb_output (fs_tables (snd (apply_kill_switch sim_fw ''wg0'' 51820 True True bare_tables)) p))
         ''eth0'' = Some ''REJECT''"
proof -
  let ?a = "apply_kill_switch sim_fw ''wg0'' 51820 True True bare_tables"
  let ?k = "\<lparr>kw_backend = Iptables, kw_tun_name = ''wg0'', kw_fwmark = 51820, kw_ipv4 = True,
    kw_ipv6 = True\<rparr>"
  have *: "?a = (fst ?a, snd ?a)" by simp
  have "fst ?a = Inr ?k" using wpD [OF sim_kill_switch [OF bare_tables_bare] *] by simp
  with * have "?a = (Inr ?k, snd ?a)" by (rule back_subst [where P = "\<lambda>r. ?a = (r, snd ?a)"])
  note * = kill_switch_rejects [OF sim_tables.iptables_axioms this, of leaves_on "''eth0''"]
  have "\<not> passes leaves_on ''wg0'' 51820 ''eth0''"
    by (simp add: passes_def leaves_on_def mark_match_def)
  with * show ?thesis by (simp add: leaves_on_def)
qed

text \<open>C31: a kill switch taken down successfully through iptables is gone in every family it
  covered: its chain is deleted and nothing jumps to it.\<close>

theorem kill_switch_lifts:
  assumes "iptables sys tables"
    and "cleanup_kill_switch sys k w = (Inr (), w')" "kw_backend k = Iptables"
  shows "(kw_ipv4 k \<longrightarrow> (\<exists>p. path_of ''iptables'' p
        \<and> tb_chains (tables w' p) IPTABLES_CHAIN_NAME = None
        \<and> jump IPTABLES_CHAIN_NAME \<notin> set (tb_output (tables w' p))))
    \<and> (kw_ipv6 k \<longrightarrow> (\<exists>p. path_of ''ip6tables'' p
        \<and> tb_chains (tables w' p) IPTABLES_CHAIN_NAME = None
        \<and> jump IPTABLES_CHAIN_NAME \<notin> set (tb_output (tables w' p))))"
proof -
  have "cleanup_iptables sys (kw_ipv4 k) (kw_ipv6 k) w = (Inr (), w')"
    using assms(2,3) by (simp add: cleanup_kill_switch_def)
  from wpD [OF iptables.wp_cleanup_iptables [OF assms(1)] this] show ?thesis
    by (simp add: iptables.freed_families_def [OF assms(1)] without_chain_def)
qed

text \<open>The chain is there with a jump to it.\<close>

definition guarded_tables :: fw_sim where
  "guarded_tables = \<lparr>fs_tables = (\<lambda>_. \<lparr>tb_chains = [IPTABLES_CHAIN_NAME \<mapsto> [[''-j'', ''REJECT'']]],
     tb_output = [jump IPTABLES_CHAIN_NAME, [''-j'', ''ACCEPT'']]\<rparr>), fs_faults = []\<rparr>"

theorem kill_switch_lifts_witness:
  "\<exists>p. path_of ''iptables'' p \<and> jump IPTABLES_CHAIN_NAME \<notin> set (tb_output (fs_tables
     (snd (cleanup_kill_switch sim_fw \<lparr>kw_backend = Iptables, kw_tun_name = ''wg0'',
        kw_fwmark = 7, kw_ipv4 = True, kw_ipv6 = False\<rparr> guarded_tables)) p))"
proof -
  let ?k = "\<lparr>kw_backend = Iptables, kw_tun_name = ''wg0'', kw_fwmark = 7, kw_ipv4 = True,
    kw_ipv6 = False\<rparr>"
  let ?c = "cleanup_kill_switch sim_fw ?k guarded_tables"
  have "fst ?c = Inr ()" by code_simp
  then have "?c = (Inr (), snd ?c)" by (metis prod.collapse)
  from kill_switch_lifts [OF sim_tables.iptables_axioms this] show ?thesis by auto
qed


subsection \<open>DNS\<close>

text \<open>The verification of a resolver file accepts exactly the servers that were asked for: no
  other server of either family, and one at least of each family that has any.\<close>

theorem dns_verification_strict:
  "verify_found servers found = Inr () \<longleftrightarrow>
     set (fst found) \<subseteq> {a \<in> set servers. is_ipv4 a} \<and> set (snd found) \<subseteq> {a \<in> set servers. is_ipv6 a}
   \<and> (fst found = [] \<longleftrightarrow> filter is_ipv4 servers = []) \<and> (snd found = [] \<longleftrightarrow> filter is_ipv6 servers = [])"
  unfolding verify_found_ok set_filter by blast

text \<open>C32: the resolver file the program writes is read back as the configured servers, family by
  family and in order, and passes the strict check; and cleaning up restores every file to
  what it was. The last hypothesis is that no search domain contains a line feed.\<close>

theorem dns_file_round_trip:
  assumes "dns_files sys content"
    and "apply_resolv_conf_file sys info servers search w = (Inr s, w1)"
    and "cleanup_dns sys tun s w1 = (Inr (), w2)"
    and "list_all (\<lambda>d. CHR 0x0A \<notin> set d) search"
  shows "parse_resolv_conf (content w1 (rci_path info))
       = Inr (filter is_ipv4 servers, filter is_ipv6 servers)
    \<and> verify_found servers (filter is_ipv4 servers, filter is_ipv6 servers) = Inr ()
    \<and> content w2 = content w"
proof -
  note c = dns_files.cleanup_restores [OF assms(1-3)]
  have "parse_resolv_conf (build_resolv_conf_contents servers search)
      = Inr (filter is_ipv4 servers, filter is_ipv6 servers)"
    by (rule parse_written) (use assms(4) in \<open>simp add: list_all_iff\<close>)
  then show ?thesis using c by (simp add: verify_found_ok)
qed

definition sample_resolv_info :: resolv_conf_info where
  "sample_resolv_info = \<lparr>rci_path = RESOLV_CONF, rci_is_symlink = False, rci_target = None,
     rci_contents = None\<rparr>"

definition sample_disk :: file_world where
  "sample_disk = \<lparr>fd_files = (\<lambda>_. ''nameserver 9.9.9.9''), fd_faults = []\<rparr>"

theorem dns_file_round_trip_witness:
  "\<exists>s w1 w2. apply_resolv_conf_file sim_dns sample_resolv_info [V4 1] [] sample_disk = (Inr s, w1)
     \<and> cleanup_dns sim_dns ''wg0'' s w1 = (Inr (), w2) \<and> fd_files w2 = fd_files sample_disk"
proof -
  let ?a = "apply_resolv_conf_file sim_dns sample_resolv_info [V4 1] [] sample_disk"
  have "fst ?a = Inr (DnsResolvConf RESOLV_CONF ''nameserver 9.9.9.9'')" by code_simp
  then obtain s where a: "?a = (Inr s, snd ?a)" by (metis prod.collapse)
  have "fst (cleanup_dns sim_dns ''wg0'' (DnsResolvConf RESOLV_CONF ''nameserver 9.9.9.9'') (snd ?a)) = Inr ()"
    by code_simp
  moreover have "s = DnsResolvConf RESOLV_CONF ''nameserver 9.9.9.9''"
    using a \<open>fst ?a = _\<close> by (metis prod.sel(1) sum.inject(2))
  ultimately obtain w2 where c: "cleanup_dns sim_dns ''wg0'' s (snd ?a) = (Inr (), w2)"
    by (metis prod.collapse)
  have "list_all (\<lambda>d. CHR 0x0A \<notin> set d) []" by simp
  from dns_file_round_trip [OF sim_files.dns_files_axioms a c this] a c show ?thesis by blast
qed

end
