(* ===== verification/Net_Routes.thy ===== *)
theory Net_Routes
  imports Net_Firewall Net_Dns
begin

text \<open>
  \<open>platform/linux/network\<close>: links, addresses and routes (\<open>netlink.rs\<close>, \<open>routes.rs\<close>, the
  stale default routes of \<open>policy.rs\<close>, the route part of \<open>recovery/netlink_match.rs\<close> and
  \<open>recovery/cleanup.rs\<close>), the journal and the persisted report. The rtnetlink handle with
  its route builder, the JSON codec and the state directory are the operations of \<open>net_sys\<close>.
\<close>

subsection \<open>Messages\<close>

datatype route_attribute = RtTable u32 | RtOif u32 | RtDestination ip_addr | RtOther

record route_message =
  rtm_prefix_len :: u8
  rtm_table :: u8
  rtm_attributes :: "route_attribute list"

datatype net_info_kind = NkTun | NkOther string
datatype net_link_info = NliKind net_info_kind | NliOther
datatype net_link_attribute = NlIfName string | NlLinkInfo "net_link_info list" | NlOther

record net_link =
  nl_index :: u32
  nl_layer_none :: bool
  nl_attributes :: "net_link_attribute list"

fun find_map :: "('a \<Rightarrow> 'b option) \<Rightarrow> 'a list \<Rightarrow> 'b option" where
  "find_map f [] = None"
| "find_map f (x # xs) = (case f x of Some y \<Rightarrow> Some y | None \<Rightarrow> find_map f xs)"

definition route_message_table_id :: "route_message \<Rightarrow> u32" where
  "route_message_table_id m =
     (case find_map (\<lambda>a. case a of RtTable v \<Rightarrow> Some v | _ \<Rightarrow> None) (rtm_attributes m) of
        Some v \<Rightarrow> v
      | None \<Rightarrow> ucast (rtm_table m))"

definition route_message_oif :: "route_message \<Rightarrow> u32 option" where
  "route_message_oif m =
     find_map (\<lambda>a. case a of RtOif v \<Rightarrow> Some v | _ \<Rightarrow> None) (rtm_attributes m)"

definition route_message_destination :: "route_message \<Rightarrow> ip_addr option" where
  "route_message_destination m =
     find_map (\<lambda>a. case a of RtDestination d \<Rightarrow> Some d | _ \<Rightarrow> None) (rtm_attributes m)"

definition route_message_matches :: "route_message \<Rightarrow> u32 \<Rightarrow> allowed_ip \<Rightarrow> u32 option \<Rightarrow> bool" where
  "route_message_matches m link_index route table =
     (rtm_prefix_len m = cidr route
      \<and> route_message_oif m = Some link_index
      \<and> route_message_table_id m = (case table of Some t \<Rightarrow> t | None \<Rightarrow> main_table)
      \<and> route_message_destination m = Some (addr route))"

definition route_message_matches_snapshot :: "route_message \<Rightarrow> route_snapshot \<Rightarrow> bool" where
  "route_message_matches_snapshot m s =
     (rtm_prefix_len m = rsn_cidr s
      \<and> route_message_table_id m = (case rsn_table_id s of Some t \<Rightarrow> t | None \<Rightarrow> main_table)
      \<and> route_message_destination m = Some (rsn_addr s))"

definition link_name :: "net_link \<Rightarrow> string option" where
  "link_name l = find_map (\<lambda>a. case a of NlIfName n \<Rightarrow> Some n | _ \<Rightarrow> None) (nl_attributes l)"

definition link_info_kind :: "net_link \<Rightarrow> net_info_kind option" where
  "link_info_kind l =
     find_map (\<lambda>a. case a of
         NlLinkInfo infos \<Rightarrow> find_map (\<lambda>i. case i of NliKind k \<Rightarrow> Some k | NliOther \<Rightarrow> None) infos
       | _ \<Rightarrow> None) (nl_attributes l)"

definition is_tun_link :: "net_link \<Rightarrow> bool" where
  "is_tun_link l = (nl_layer_none l \<or> link_info_kind l = Some NkTun)"

subsection \<open>The journal\<close>

datatype recovery_phase = PhaseApplying | PhaseRunning

record recovery_journal =
  rj_tun_name :: string
  rj_phase :: recovery_phase
  rj_routes :: "route_snapshot list"
  rj_policy :: "policy_snapshot option"
  rj_kill_switch :: "kill_switch option"
  rj_dns :: "dns_state option"

text \<open>The flags of the once-only cleanups and the report are the memory of an application.\<close>

record net_ctx =
  nc_report :: apply_report
  nc_policy_once :: u8
  nc_stale_once :: u8

record 'w net_sys =
  ns_rules :: "'w rule_sys"
  ns_fw :: "'w fw_sys"
  ns_dns :: "'w dns_sys"
  ns_open :: "('w, network_error, unit) op"
  ns_link_by_name :: "string \<Rightarrow> ('w, network_error, net_link option) op"
  ns_links :: "'w \<Rightarrow> net_link dump \<times> 'w"
  ns_set_mtu :: "u32 \<Rightarrow> u32 \<Rightarrow> ('w, network_error, unit) op"
  ns_set_up :: "u32 \<Rightarrow> ('w, network_error, unit) op"
  ns_add_address :: "u32 \<Rightarrow> ip_addr \<Rightarrow> u8 \<Rightarrow> ('w, network_error, unit) op"
  ns_find_address :: "u32 \<Rightarrow> ip_addr \<Rightarrow> u8 \<Rightarrow> ('w, network_error, string option) op"
  ns_del_address :: "string \<Rightarrow> ('w, network_error, unit) op"
  ns_build_route :: "u32 option \<Rightarrow> ip_addr \<Rightarrow> u8 \<Rightarrow> u32 option \<Rightarrow> route_message"
  ns_add_route :: "route_message \<Rightarrow> ('w, network_error, unit) op"
  ns_get_routes :: "bool \<Rightarrow> 'w \<Rightarrow> route_message dump \<times> 'w"
  ns_del_route :: "route_message \<Rightarrow> ('w, network_error, unit) op"
  ns_create_dir :: "('w, string, unit) op"
  ns_encode_journal :: "recovery_journal \<Rightarrow> string + string"
  ns_decode_journal :: "string \<Rightarrow> string + recovery_journal"
  ns_write_journal :: "string \<Rightarrow> ('w, string, unit) op"
  ns_read_journal :: "('w, file_error, string) op"
  ns_remove_journal :: "('w, file_error, unit) op"
  ns_encode_report :: "apply_report \<Rightarrow> string + string"
  ns_decode_report :: "string \<Rightarrow> string + apply_report"
  ns_write_report :: "string \<Rightarrow> ('w, string, unit) op"
  ns_read_report :: "('w, file_error, string) op"
  ns_remove_report :: "('w, file_error, unit) op"

definition write_recovery_journal ::
  "'w net_sys \<Rightarrow> recovery_journal \<Rightarrow> ('w, network_error, unit) op" where
  "write_recovery_journal sys j =
     bindS (map_errS NetIo (ns_create_dir sys)) (\<lambda>_.
     bindS (map_errS NetIo (liftS (ns_encode_journal sys j))) (\<lambda>json.
     map_errS NetIo (ns_write_journal sys json)))"

definition write_applying_journal ::
  "'w net_sys \<Rightarrow> string \<Rightarrow> route_plan \<Rightarrow> policy_routing option \<Rightarrow> kill_switch option
   \<Rightarrow> ('w, network_error, unit) op" where
  "write_applying_journal sys tun plan policy ks =
     write_recovery_journal sys \<lparr>rj_tun_name = tun, rj_phase = PhaseApplying,
       rj_routes = route_snapshots plan, rj_policy = map_option policy_snapshot policy,
       rj_kill_switch = ks, rj_dns = None\<rparr>"

definition write_running_journal ::
  "'w net_sys \<Rightarrow> string \<Rightarrow> route_op list \<Rightarrow> policy_routing option \<Rightarrow> kill_switch option
   \<Rightarrow> dns_state option \<Rightarrow> ('w, network_error, unit) op" where
  "write_running_journal sys tun routes policy ks dns =
     write_recovery_journal sys \<lparr>rj_tun_name = tun, rj_phase = PhaseRunning,
       rj_routes = route_snapshots_from_ops routes, rj_policy = map_option policy_snapshot policy,
       rj_kill_switch = ks, rj_dns = dns\<rparr>"

definition load_recovery_journal :: "'w net_sys \<Rightarrow> ('w, network_error, recovery_journal option) op" where
  "load_recovery_journal sys =
     withS (ns_read_journal sys) (\<lambda>r. case r of
       Inl FileNotFound \<Rightarrow> returnS None
     | Inl (FileFailed e) \<Rightarrow> throwS (NetIo e)
     | Inr text \<Rightarrow> bindS (map_errS NetIo (liftS (ns_decode_journal sys text))) (\<lambda>j. returnS (Some j)))"

text \<open>Removing a file that is not there is no error.\<close>

definition ignore_not_found :: "('w, file_error, unit) op \<Rightarrow> ('w, network_error, unit) op" where
  "ignore_not_found m =
     withS m (\<lambda>r. case r of
       Inr _ \<Rightarrow> returnS ()
     | Inl FileNotFound \<Rightarrow> returnS ()
     | Inl (FileFailed e) \<Rightarrow> throwS (NetIo e))"

definition clear_recovery_journal :: "'w net_sys \<Rightarrow> ('w, network_error, unit) op" where
  "clear_recovery_journal sys = ignore_not_found (ns_remove_journal sys)"

definition journal_requires_exact_cleanup :: "recovery_journal \<Rightarrow> bool" where
  "journal_requires_exact_cleanup j =
     (rj_routes j \<noteq> [] \<or> rj_policy j \<noteq> None \<or> rj_kill_switch j \<noteq> None)"

definition write_persisted_apply_report ::
  "'w net_sys \<Rightarrow> apply_report \<Rightarrow> ('w, network_error, unit) op" where
  "write_persisted_apply_report sys report =
     bindS (map_errS NetIo (ns_create_dir sys)) (\<lambda>_.
     bindS (map_errS NetIo (liftS (ns_encode_report sys report))) (\<lambda>json.
     map_errS NetIo (ns_write_report sys json)))"

definition load_persisted_apply_report ::
  "'w net_sys \<Rightarrow> ('w, network_error, apply_report option) op" where
  "load_persisted_apply_report sys =
     withS (ns_read_report sys) (\<lambda>r. case r of
       Inl FileNotFound \<Rightarrow> returnS None
     | Inl (FileFailed e) \<Rightarrow> throwS (NetIo e)
     | Inr text \<Rightarrow> bindS (map_errS NetIo (liftS (ns_decode_report sys text))) (\<lambda>j. returnS (Some j)))"

definition clear_persisted_apply_report :: "'w net_sys \<Rightarrow> ('w, network_error, unit) op" where
  "clear_persisted_apply_report sys = ignore_not_found (ns_remove_report sys)"

definition persist_applying_recovery_state ::
  "'w net_sys \<Rightarrow> string \<Rightarrow> route_plan \<Rightarrow> policy_routing option \<Rightarrow> kill_switch option \<Rightarrow> apply_report
   \<Rightarrow> ('w, network_error, unit) op" where
  "persist_applying_recovery_state sys tun plan policy ks report =
     bindS (write_persisted_apply_report sys report) (\<lambda>_.
     write_applying_journal sys tun plan policy ks)"

definition persist_running_recovery_state ::
  "'w net_sys \<Rightarrow> string \<Rightarrow> route_op list \<Rightarrow> policy_routing option \<Rightarrow> kill_switch option
   \<Rightarrow> dns_state option \<Rightarrow> apply_report \<Rightarrow> ('w, network_error, unit) op" where
  "persist_running_recovery_state sys tun routes policy ks dns report =
     bindS (write_persisted_apply_report sys report) (\<lambda>_.
     write_running_journal sys tun routes policy ks dns)"

subsection \<open>\<open>netlink.rs\<close>\<close>

definition link_index :: "'w net_sys \<Rightarrow> string \<Rightarrow> ('w, network_error, u32) op" where
  "link_index sys tun =
     bindS (ns_link_by_name sys tun) (\<lambda>l. case l of
       Some link \<Rightarrow> returnS (nl_index link)
     | None \<Rightarrow> throwS (LinkNotFound tun))"

definition delete_address ::
  "'w net_sys \<Rightarrow> u32 \<Rightarrow> interface_address \<Rightarrow> ('w, network_error, unit) op" where
  "delete_address sys i a =
     bindS (ns_find_address sys i (ia_addr a) (ia_cidr a)) (\<lambda>m. case m of
       Some message \<Rightarrow> ns_del_address sys message
     | None \<Rightarrow> returnS ())"

definition build_route_message ::
  "'w net_sys \<Rightarrow> u32 \<Rightarrow> allowed_ip \<Rightarrow> u32 option \<Rightarrow> route_message" where
  "build_route_message sys i route table = ns_build_route sys (Some i) (addr route) (cidr route) table"

text \<open>The first matching route of a dump; an error ends the search.\<close>

fun first_match ::
  "(route_message \<Rightarrow> bool) \<Rightarrow> network_error option \<Rightarrow> route_message list
   \<Rightarrow> network_error + route_message option" where
  "first_match P err [] = (case err of None \<Rightarrow> Inr None | Some e \<Rightarrow> Inl e)"
| "first_match P err (m # ms) = (if P m then Inr (Some m) else first_match P err ms)"

definition search_routes ::
  "'w net_sys \<Rightarrow> bool \<Rightarrow> (route_message \<Rightarrow> bool) \<Rightarrow> ('w, network_error, route_message option) op" where
  "search_routes sys v6 P w =
     (case ns_get_routes sys v6 w of ((ms, err), w') \<Rightarrow> (first_match P err ms, w'))"

definition delete_route ::
  "'w net_sys \<Rightarrow> u32 \<Rightarrow> allowed_ip \<Rightarrow> u32 option \<Rightarrow> ('w, network_error, unit) op" where
  "delete_route sys i route table =
     withS (ns_del_route sys (build_route_message sys i route table)) (\<lambda>r.
     if is_ok r then returnS ()
     else bindS (search_routes sys (is_ipv6 (addr route))
            (\<lambda>m. route_message_matches m i route table)) (\<lambda>f. case f of
          Some m \<Rightarrow> ns_del_route sys m
        | None \<Rightarrow> returnS ()))"

subsection \<open>\<open>recovery/cleanup.rs\<close>\<close>

definition build_route_message_without_oif ::
  "'w net_sys \<Rightarrow> allowed_ip \<Rightarrow> u32 option \<Rightarrow> route_message" where
  "build_route_message_without_oif sys route table =
     ns_build_route sys None (addr route) (cidr route) table"

definition cleanup_route_snapshot ::
  "'w net_sys \<Rightarrow> route_snapshot \<Rightarrow> ('w, network_error, unit) op" where
  "cleanup_route_snapshot sys s =
     ignoreS (ns_del_route sys
         (build_route_message_without_oif sys (AllowedIp (rsn_addr s) (rsn_cidr s)) (rsn_table_id s)))
       (bindS (search_routes sys (is_ipv6 (rsn_addr s)) (\<lambda>m. route_message_matches_snapshot m s)) (\<lambda>f.
        case f of
          Some m \<Rightarrow> ignoreS (ns_del_route sys m) (returnS ())
        | None \<Rightarrow> returnS ()))"

fun cleanup_route_snapshots ::
  "'w net_sys \<Rightarrow> route_snapshot list \<Rightarrow> ('w, network_error, unit) op" where
  "cleanup_route_snapshots sys [] = returnS ()"
| "cleanup_route_snapshots sys (s # ss) =
     ignoreS (cleanup_route_snapshot sys s) (cleanup_route_snapshots sys ss)"

definition cleanup_exact_snapshot ::
  "'w net_sys \<Rightarrow> route_snapshot list \<Rightarrow> policy_snapshot option \<Rightarrow> ('w, network_error, unit) op" where
  "cleanup_exact_snapshot sys routes policy =
     bindS (cleanup_route_snapshots sys routes) (\<lambda>_ w.
       (Inr (), case policy of None \<Rightarrow> w | Some p \<Rightarrow> cleanup_policy_snapshot (ns_rules sys) p w))"

subsection \<open>Stale default routes\<close>

record link_metadata =
  lm_name :: string
  lm_is_tun :: bool

text \<open>The map from indexes to links, in the order of insertion: the last one wins.\<close>

fun collect_metadata ::
  "(u32 \<Rightarrow> link_metadata option) \<Rightarrow> net_link list \<Rightarrow> u32 \<Rightarrow> link_metadata option" where
  "collect_metadata m [] = m"
| "collect_metadata m (l # ls) =
     (case link_name l of
        None \<Rightarrow> collect_metadata m ls
      | Some n \<Rightarrow> collect_metadata (m(nl_index l \<mapsto> \<lparr>lm_name = n, lm_is_tun = is_tun_link l\<rparr>)) ls)"

definition link_metadata_by_index ::
  "'w net_sys \<Rightarrow> ('w, network_error, u32 \<Rightarrow> link_metadata option) op" where
  "link_metadata_by_index sys w =
     (case ns_links sys w of ((ls, err), w') \<Rightarrow>
       ((case err of Some e \<Rightarrow> Inl e | None \<Rightarrow> Inr (collect_metadata (\<lambda>_. None) ls)), w'))"

definition is_stale_default_route ::
  "string \<Rightarrow> u32 \<Rightarrow> (u32 \<Rightarrow> link_metadata option) \<Rightarrow> route_message \<Rightarrow> bool" where
  "is_stale_default_route tun tun_index metadata m =
     (if rtm_prefix_len m \<noteq> 0 then False
      else if route_message_table_id m \<noteq> main_table then False
      else case route_message_oif m of
        None \<Rightarrow> False
      | Some oif \<Rightarrow>
          if oif = tun_index then False
          else (case metadata oif of
            None \<Rightarrow> False
          | Some l \<Rightarrow> lm_name l \<noteq> tun \<and> lm_is_tun l))"

fun del_routes ::
  "(route_message \<Rightarrow> ('w, network_error, unit) op) \<Rightarrow> (route_message \<Rightarrow> bool) \<Rightarrow> network_error option
   \<Rightarrow> route_message list \<Rightarrow> ('w, network_error, unit) op" where
  "del_routes del P err [] = (case err of None \<Rightarrow> returnS () | Some e \<Rightarrow> throwS e)"
| "del_routes del P err (m # ms) =
     (if P m then bindS (del m) (\<lambda>_. del_routes del P err ms) else del_routes del P err ms)"

definition cleanup_stale_default_routes_family ::
  "'w net_sys \<Rightarrow> string \<Rightarrow> u32 \<Rightarrow> (u32 \<Rightarrow> link_metadata option) \<Rightarrow> bool
   \<Rightarrow> ('w, network_error, unit) op" where
  "cleanup_stale_default_routes_family sys tun i metadata v6 w =
     (case ns_get_routes sys v6 w of ((ms, err), w') \<Rightarrow>
       del_routes (ns_del_route sys) (is_stale_default_route tun i metadata) err ms w')"

definition cleanup_stale_default_routes ::
  "'w net_sys \<Rightarrow> string \<Rightarrow> u32 \<Rightarrow> ('w, network_error, unit) op" where
  "cleanup_stale_default_routes sys tun i =
     bindS (link_metadata_by_index sys) (\<lambda>metadata.
     bindS (cleanup_stale_default_routes_family sys tun i metadata False) (\<lambda>_.
     cleanup_stale_default_routes_family sys tun i metadata True))"

text \<open>A cleanup of the world behind its flag.\<close>

definition cleanup_once ::
  "(net_ctx \<Rightarrow> u8) \<Rightarrow> (u8 \<Rightarrow> net_ctx \<Rightarrow> net_ctx) \<Rightarrow> ('w, network_error, unit) op
   \<Rightarrow> (net_ctx \<times> 'w, network_error, unit) op" where
  "cleanup_once get put m =
     readS (\<lambda>s. case begin_cleanup_once (get (fst s)) of
       (False, _) \<Rightarrow> returnS ()
     | (True, flag) \<Rightarrow> setS (put flag)
         (withS (onW m) (\<lambda>r. setS (\<lambda>c. put (finish_cleanup_once (is_ok r) (get c)) c) (liftS r))))"

definition cleanup_stale_default_routes_once ::
  "'w net_sys \<Rightarrow> string \<Rightarrow> u32 \<Rightarrow> (net_ctx \<times> 'w, network_error, unit) op" where
  "cleanup_stale_default_routes_once sys tun i =
     cleanup_once nc_stale_once (\<lambda>f c. c\<lparr>nc_stale_once := f\<rparr>) (cleanup_stale_default_routes sys tun i)"

definition cleanup_rules_once ::
  "'w net_sys \<Rightarrow> policy_routing option \<Rightarrow> (net_ctx \<times> 'w, network_error, unit) op" where
  "cleanup_rules_once sys policy =
     cleanup_once nc_policy_once (\<lambda>f c. c\<lparr>nc_policy_once := f\<rparr>)
       (cleanup_policy_rules (ns_rules sys) policy True True)"

end
