(* ===== verification/Net_Apply.thy ===== *)
theory Net_Apply
  imports Net_Routes
begin

text \<open>
  \<open>platform/linux/network\<close>: the stages (\<open>stages/*.rs\<close>), the apply pipeline with its rollback
  (\<open>apply_pipeline.rs\<close>), the cleanup pipeline (\<open>cleanup_pipeline.rs\<close>) and the repair at the
  start of the service (\<open>recovery/startup.rs\<close>). The report that the stages extend is part
  of the context of an operation; the log lines are left out.
\<close>

record applied_state =
  as_tun :: string
  as_addresses :: "interface_address list"
  as_routes :: "route_op list"
  as_table :: "route_table option"
  as_dns :: "dns_state option"
  as_policy :: "policy_routing option"
  as_kill_switch :: "kill_switch option"

type_synonym ('w, 'a) net_op = "(net_ctx \<times> 'w, network_error, 'a) op"

definition reporting :: "(apply_report \<Rightarrow> apply_report) \<Rightarrow> ('w, 'a) net_op \<Rightarrow> ('w, 'a) net_op" where
  "reporting f k = setS (\<lambda>c. c\<lparr>nc_report := f (nc_report c)\<rparr>) k"

text \<open>Write the journal with the report as it is; a failure is reported under \<open>evidence\<close>.\<close>

definition journal_failed :: "string \<Rightarrow> network_error \<Rightarrow> apply_report \<Rightarrow> apply_report" where
  "journal_failed what e =
     mark_failed \<circ> push_failed_kind ''apply:linux:journal'' KRecoveryJournal (Some FPersistence)
       [what @ show_network_error e]"

definition persist_applying ::
  "'w net_sys \<Rightarrow> string \<Rightarrow> route_plan \<Rightarrow> policy_routing option \<Rightarrow> kill_switch option
   \<Rightarrow> ('w, unit) net_op" where
  "persist_applying sys tun plan policy ks =
     readS (\<lambda>s. onW (persist_applying_recovery_state sys tun plan policy ks (nc_report (fst s))))"

subsection \<open>Stages\<close>

fun add_addresses ::
  "'w net_sys \<Rightarrow> u32 \<Rightarrow> interface_address list \<Rightarrow> ('w, network_error, unit) op" where
  "add_addresses sys i [] = returnS ()"
| "add_addresses sys i (a # as) =
     bindS (ns_add_address sys i (ia_addr a) (ia_cidr a)) (\<lambda>_. add_addresses sys i as)"

definition configure_link ::
  "'w net_sys \<Rightarrow> u32 \<Rightarrow> interface_config \<Rightarrow> ('w, network_error, unit) op" where
  "configure_link sys i iface =
     bindS (case if_mtu iface of Some mtu \<Rightarrow> ns_set_mtu sys i (ucast mtu) | None \<Rightarrow> returnS ()) (\<lambda>_.
     bindS (ns_set_up sys i) (\<lambda>_.
     add_addresses sys i (if_addresses iface)))"

definition policy_evidence :: "string \<Rightarrow> policy_rule_op \<Rightarrow> string \<Rightarrow> string" where
  "policy_evidence verb op suffix =
     verb @ '' Linux policy rule for '' @ family_label (po_family op) @ '' via table ''
     @ show_nat (unat (po_table_id op)) @ '' with fwmark 0x'' @ show_hex (unat (po_fwmark op)) @ suffix"

definition skip_routes :: "(route_op \<Rightarrow> string) \<Rightarrow> route_op list \<Rightarrow> apply_report \<Rightarrow> apply_report" where
  "skip_routes why = fold (\<lambda>r. push_skipped_kind (route_item_id r) KRoute [why r])"

definition policy_failed ::
  "policy_rule_op \<Rightarrow> network_error \<Rightarrow> policy_rule_op list \<Rightarrow> route_op list \<Rightarrow> apply_report \<Rightarrow> apply_report"
where
  "policy_failed op e rest routes =
     mark_failed
     \<circ> skip_routes (\<lambda>r. ''Skipped because policy apply aborted before route installation for ''
          @ route_text (addr (ro_route r)) (cidr (ro_route r)) @ ''.'') routes
     \<circ> fold (\<lambda>o'. push_skipped_kind (policy_item_id o') KPolicyRule
          [''Skipped because policy apply aborted after '' @ family_label (po_family op)
            @ '' failed.'']) rest
     \<circ> push_failed_kind (policy_item_id op) KPolicyRule (Some FSystem)
         [policy_evidence ''Failed to apply'' op ('': '' @ show_network_error e)]"

fun policy_loop ::
  "'w net_sys \<Rightarrow> string \<Rightarrow> route_plan \<Rightarrow> policy_routing \<Rightarrow> kill_switch option \<Rightarrow> route_op list
   \<Rightarrow> policy_rule_op list \<Rightarrow> ('w, unit) net_op" where
  "policy_loop sys tun plan p ks routes [] = returnS ()"
| "policy_loop sys tun plan p ks routes (op # rest) =
     withS (onW (apply_policy_rules (ns_rules sys) (pr_fwmark p) (pr_table_id p)
         (po_family op = FamIpv4) (po_family op = FamIpv6))) (\<lambda>r. case r of
       Inl e \<Rightarrow> reporting (policy_failed op e rest routes) (throwS e)
     | Inr _ \<Rightarrow>
         reporting (push_applied_kind (policy_item_id op) KPolicyRule [policy_evidence ''Applied'' op ''.''])
         (withS (persist_applying sys tun plan (Some p) ks) (\<lambda>r. case r of
            Inl e \<Rightarrow> reporting (journal_failed (''Failed to persist Linux apply journal after policy rule ''
                @ family_label (po_family op) @ '': '') e) (throwS e)
          | Inr _ \<Rightarrow> policy_loop sys tun plan p ks routes rest)))"

definition apply_policy_stage ::
  "'w net_sys \<Rightarrow> string \<Rightarrow> route_plan \<Rightarrow> policy_routing option \<Rightarrow> kill_switch option
   \<Rightarrow> policy_rule_op list \<Rightarrow> route_op list \<Rightarrow> ('w, unit) net_op" where
  "apply_policy_stage sys tun plan policy ks rule_ops routes =
     (case policy of
        None \<Rightarrow> returnS ()
      | Some p \<Rightarrow> ignoreS (cleanup_rules_once sys (Some p)) (policy_loop sys tun plan p ks routes rule_ops))"

definition table_text :: "u32 option \<Rightarrow> string" where
  "table_text t = (case t of Some i \<Rightarrow> ''table '' @ show_nat (unat i) | None \<Rightarrow> ''main'')"

definition route_op_text :: "route_op \<Rightarrow> string" where
  "route_op_text r = route_text (addr (ro_route r)) (cidr (ro_route r))"

text \<open>The cause of a failed request, without the prefix of the program's error.\<close>

definition show_netlink_cause :: "network_error \<Rightarrow> string" where
  "show_netlink_cause e = (case e of NetNetlink m \<Rightarrow> m | _ \<Rightarrow> show_network_error e)"

definition route_failed ::
  "route_op \<Rightarrow> network_error \<Rightarrow> route_op list \<Rightarrow> apply_report \<Rightarrow> apply_report" where
  "route_failed r e rest =
     mark_failed
     \<circ> skip_routes (\<lambda>_. ''Skipped because route apply aborted after '' @ route_op_text r @ '' failed.'') rest
     \<circ> push_failed_kind (route_item_id r) KRoute (Some FSystem)
         [''Failed to apply route '' @ route_op_text r @ '' to '' @ table_text (ro_table_id r)
           @ '' on Linux: '' @ show_netlink_cause e]"

fun route_loop ::
  "'w net_sys \<Rightarrow> u32 \<Rightarrow> string \<Rightarrow> route_plan \<Rightarrow> policy_routing option \<Rightarrow> kill_switch option
   \<Rightarrow> route_op list \<Rightarrow> ('w, unit) net_op" where
  "route_loop sys i tun plan policy ks [] = returnS ()"
| "route_loop sys i tun plan policy ks (r # rest) =
     withS (onW (ns_add_route sys (build_route_message sys i (ro_route r) (ro_table_id r)))) (\<lambda>res.
     case res of
       Inl e \<Rightarrow> reporting (route_failed r e rest) (throwS e)
     | Inr _ \<Rightarrow>
         reporting (push_applied_kind (route_item_id r) KRoute
            [''Applied route '' @ route_op_text r @ '' to '' @ table_text (ro_table_id r) @ '' on Linux.''])
         (withS (persist_applying sys tun plan policy ks) (\<lambda>res. case res of
            Inl e \<Rightarrow> reporting (journal_failed (''Failed to persist Linux apply journal after route ''
                @ route_op_text r @ '': '') e) (throwS e)
          | Inr _ \<Rightarrow> route_loop sys i tun plan policy ks rest)))"

definition apply_route_stage ::
  "'w net_sys \<Rightarrow> u32 \<Rightarrow> string \<Rightarrow> route_plan \<Rightarrow> route_table option \<Rightarrow> policy_routing option
   \<Rightarrow> kill_switch option \<Rightarrow> route_op list \<Rightarrow> ('w, unit) net_op" where
  "apply_route_stage sys i tun plan table policy ks routes =
     (if table = Some RtOff then returnS () else route_loop sys i tun plan policy ks routes)"

definition kill_switch_items :: "policy_routing \<Rightarrow> (string \<times> string) list" where
  "kill_switch_items p =
     (if pr_v4 p then [(''apply:linux:kill_switch_ipv4'', ''IPv4'')] else [])
     @ (if pr_v6 p then [(''apply:linux:kill_switch_ipv6'', ''IPv6'')] else [])"

definition apply_kill_switch_stage ::
  "'w net_sys \<Rightarrow> string \<Rightarrow> policy_routing option \<Rightarrow> bool \<Rightarrow> ('w, kill_switch option) net_op" where
  "apply_kill_switch_stage sys tun policy enabled =
     (case policy of
        None \<Rightarrow> returnS None
      | Some p \<Rightarrow>
          if \<not> enabled then
            reporting (fold (\<lambda>(i, fam). push_skipped_kind i KKillSwitch
                [''Linux kill switch is disabled in Settings, so '' @ fam
                  @ '' traffic is not blocked outside the tunnel.'']) (kill_switch_items p))
              (returnS None)
          else
            withS (onW (apply_kill_switch (ns_fw sys) tun (pr_fwmark p) (pr_v4 p) (pr_v6 p))) (\<lambda>r.
            case r of
              Inr k \<Rightarrow>
                reporting (fold (\<lambda>(i, fam). push_applied_kind i KKillSwitch
                    [''Applied Linux kill switch for '' @ fam @ '' traffic using fwmark 0x''
                      @ show_hex (unat (pr_fwmark p)) @ ''.'']) (kill_switch_items p))
                  (returnS (Some k))
            | Inl e \<Rightarrow>
                reporting (mark_failed \<circ> fold (\<lambda>(i, fam). push_failed_kind i KKillSwitch (Some FSystem)
                    [''Failed to apply Linux kill switch for '' @ fam @ '' traffic with fwmark 0x''
                      @ show_hex (unat (pr_fwmark p)) @ '': '' @ show_network_error e])
                    (kill_switch_items p))
                  (throwS e)))"

definition classify_linux_failure :: "network_error \<Rightarrow> failure_kind" where
  "classify_linux_failure e =
     (case e of
        MissingFwmark \<Rightarrow> FPrecondition
      | DnsVerifyFailed _ \<Rightarrow> FVerification
      | CommandFailed _ _ _ \<Rightarrow> FSystem
      | DnsNotSupported \<Rightarrow> FSystem
      | KillSwitchUnavailable _ \<Rightarrow> FSystem
      | NetIo _ \<Rightarrow> FPersistence
      | NetNetlink _ \<Rightarrow> FLookup
      | LinkNotFound _ \<Rightarrow> FLookup)"

definition apply_dns_stage ::
  "'w net_sys \<Rightarrow> string \<Rightarrow> interface_config \<Rightarrow> ('w, dns_state option) net_op" where
  "apply_dns_stage sys tun iface =
     (if if_dns_servers iface = [] \<and> if_dns_search iface = [] then returnS None
      else withS (onW (apply_dns (ns_dns sys) tun (if_dns_servers iface) (if_dns_search iface))) (\<lambda>r.
        case r of
          Inr s \<Rightarrow>
            reporting (push_applied_kind ''apply:dns'' KDns
                [''Applied Linux tunnel DNS with '' @ show_nat (length (if_dns_servers iface))
                  @ '' server(s) and '' @ show_nat (length (if_dns_search iface))
                  @ '' search domain(s).''])
              (returnS (Some s))
        | Inl e \<Rightarrow>
            reporting (mark_failed \<circ> push_failed_kind ''apply:dns'' KDns (Some (classify_linux_failure e))
                [''Failed to apply Linux tunnel DNS: '' @ show_network_error e])
              (throwS e)))"

subsection \<open>The cleanup pipeline\<close>

fun each_ignored :: "('a \<Rightarrow> ('w, 'e, unit) op) \<Rightarrow> 'a list \<Rightarrow> ('w, 'f, unit) op" where
  "each_ignored f [] = returnS ()"
| "each_ignored f (x # xs) = ignoreS (f x) (each_ignored f xs)"

definition merge_cleanup_results ::
  "network_error + unit \<Rightarrow> network_error + unit \<Rightarrow> network_error + unit" where
  "merge_cleanup_results link ks = bindE link (\<lambda>_. ks)"

text \<open>What depends on the link: nothing of it is done when the lookup fails.\<close>

definition cleanup_link_dependent :: "'w net_sys \<Rightarrow> applied_state \<Rightarrow> ('w, network_error, unit) op" where
  "cleanup_link_dependent sys st =
     withS (link_index sys (as_tun st)) (\<lambda>r. case r of
       Inl _ \<Rightarrow> returnS ()
     | Inr i \<Rightarrow>
         bindS (each_ignored (delete_address sys i) (as_addresses st)) (\<lambda>_.
         bindS (if as_table st \<noteq> Some RtOff
                then each_ignored (\<lambda>r. delete_route sys i (ro_route r) (ro_table_id r))
                       (filter (\<lambda>r. ro_kind r = RkAllowed) (as_routes st))
                else returnS ()) (\<lambda>_.
         withS (case as_dns st of
                  Some s \<Rightarrow> cleanup_dns (ns_dns sys) (as_tun st) s
                | None \<Rightarrow> returnS ()) (\<lambda>dns w.
           (dns, case as_policy st of
                   None \<Rightarrow> w | Some p \<Rightarrow> cleanup_policy_state (ns_rules sys) p w)))))"

definition cleanup_network_config_impl ::
  "'w net_sys \<Rightarrow> applied_state \<Rightarrow> bool \<Rightarrow> ('w, network_error, unit) op" where
  "cleanup_network_config_impl sys st clear_journal =
     withS (bindS (ns_open sys) (\<lambda>_. cleanup_link_dependent sys st)) (\<lambda>result.
     withS (case as_kill_switch st of
              Some k \<Rightarrow> cleanup_kill_switch (ns_fw sys) k
            | None \<Rightarrow> returnS ()) (\<lambda>ks.
     bindS (liftS (merge_cleanup_results result ks)) (\<lambda>_.
     if clear_journal
     then bindS (clear_recovery_journal sys) (\<lambda>_. clear_persisted_apply_report sys)
     else returnS ())))"

definition cleanup_network_config :: "'w net_sys \<Rightarrow> applied_state \<Rightarrow> ('w, network_error, unit) op" where
  "cleanup_network_config sys st = cleanup_network_config_impl sys st True"

subsection \<open>The apply pipeline\<close>

definition abort_apply ::
  "'w net_sys \<Rightarrow> string \<Rightarrow> route_plan \<Rightarrow> applied_state \<Rightarrow> network_error \<Rightarrow> ('w, 'a) net_op" where
  "abort_apply sys tun plan st e =
     ignoreS (persist_applying sys tun plan (as_policy st) (as_kill_switch st))
     (ignoreS (onW (cleanup_network_config_impl sys st False)) (throwS e))"

text \<open>A stage, with the rollback of the state as it was before it.\<close>

definition stage ::
  "'w net_sys \<Rightarrow> string \<Rightarrow> route_plan \<Rightarrow> applied_state \<Rightarrow> ('w, 'b) net_op \<Rightarrow> ('b \<Rightarrow> ('w, 'a) net_op)
   \<Rightarrow> ('w, 'a) net_op" where
  "stage sys tun plan st m k =
     withS m (\<lambda>r. case r of Inl e \<Rightarrow> abort_apply sys tun plan st e | Inr x \<Rightarrow> k x)"

definition persist_running ::
  "'w net_sys \<Rightarrow> string \<Rightarrow> route_op list \<Rightarrow> applied_state \<Rightarrow> ('w, unit) net_op" where
  "persist_running sys tun routes st =
     readS (\<lambda>s. onW (persist_running_recovery_state sys tun routes (as_policy st)
       (as_kill_switch st) (as_dns st) (nc_report (fst s))))"

definition finish_apply ::
  "'w net_sys \<Rightarrow> string \<Rightarrow> route_plan \<Rightarrow> route_op list \<Rightarrow> applied_state \<Rightarrow> ('w, applied_state) net_op" where
  "finish_apply sys tun plan routes st =
     reporting mark_running
     (withS (persist_running sys tun routes st) (\<lambda>r. case r of
        Inl e \<Rightarrow> reporting (journal_failed ''Failed to persist Linux running journal: '' e)
          (abort_apply sys tun plan st e)
      | Inr _ \<Rightarrow> returnS st))"

definition dns_step ::
  "'w net_sys \<Rightarrow> string \<Rightarrow> route_plan \<Rightarrow> interface_config \<Rightarrow> route_op list \<Rightarrow> applied_state
   \<Rightarrow> ('w, applied_state) net_op" where
  "dns_step sys tun plan iface routes st =
     stage sys tun plan st (apply_dns_stage sys tun iface) (\<lambda>d.
       finish_apply sys tun plan routes (case d of Some s \<Rightarrow> st\<lparr>as_dns := Some s\<rparr> | None \<Rightarrow> st))"

definition kill_switch_step ::
  "'w net_sys \<Rightarrow> string \<Rightarrow> route_plan \<Rightarrow> interface_config \<Rightarrow> bool \<Rightarrow> route_op list \<Rightarrow> applied_state
   \<Rightarrow> ('w, applied_state) net_op" where
  "kill_switch_step sys tun plan iface enabled routes st =
     stage sys tun plan st (apply_kill_switch_stage sys tun (as_policy st) enabled) (\<lambda>k.
       case k of
         None \<Rightarrow> dns_step sys tun plan iface routes st
       | Some k' \<Rightarrow>
           let st' = st\<lparr>as_kill_switch := Some k'\<rparr> in
           withS (persist_applying sys tun plan (as_policy st') (as_kill_switch st')) (\<lambda>r. case r of
             Inl e \<Rightarrow> reporting (journal_failed
                 ''Failed to persist Linux apply journal after kill switch setup: '' e)
               (abort_apply sys tun plan st' e)
           | Inr _ \<Rightarrow> dns_step sys tun plan iface routes st'))"

definition apply_stages ::
  "'w net_sys \<Rightarrow> string \<Rightarrow> interface_config \<Rightarrow> route_plan \<Rightarrow> bool \<Rightarrow> linux_apply_plan \<Rightarrow> applied_state
   \<Rightarrow> ('w, applied_state) net_op" where
  "apply_stages sys tun iface plan enabled ap st =
     bindS (onW (link_index sys tun)) (\<lambda>i.
     ignoreS (cleanup_stale_default_routes_once sys tun i)
     (bindS (onW (configure_link sys i iface)) (\<lambda>_.
      stage sys tun plan st (apply_policy_stage sys tun plan (as_policy st) (as_kill_switch st)
          (lp_policy_rule_ops ap) (lp_route_ops ap)) (\<lambda>_.
      stage sys tun plan st (apply_route_stage sys i tun plan (if_table iface) (as_policy st)
          (as_kill_switch st) (lp_route_ops ap)) (\<lambda>_.
      kill_switch_step sys tun plan iface enabled (lp_route_ops ap) st)))))"

definition apply_initial :: "string \<Rightarrow> interface_config \<Rightarrow> linux_apply_plan \<Rightarrow> applied_state" where
  "apply_initial tun iface ap =
     \<lparr>as_tun = tun, as_addresses = if_addresses iface, as_routes = lp_route_ops ap,
      as_table = if_table iface, as_dns = None, as_policy = lp_policy ap, as_kill_switch = None\<rparr>"

text \<open>The report of the outcome is the one left in the context.\<close>

definition apply_network_config ::
  "'w net_sys \<Rightarrow> string \<Rightarrow> wireguard_config \<Rightarrow> route_plan \<Rightarrow> bool \<Rightarrow> ('w, applied_state) net_op" where
  "apply_network_config sys tun cfg plan enabled =
     reporting (\<lambda>_. report_new PfLinux)
     (readS (\<lambda>s. case build_apply_plan cfg plan (nc_report (fst s)) of
        Inl (e, report) \<Rightarrow> reporting (\<lambda>_. report) (throwS e)
      | Inr ap \<Rightarrow>
          let iface = wc_interface cfg; st = apply_initial tun iface ap in
          withS (onW (ns_open sys)) (\<lambda>r. case r of
            Inl e \<Rightarrow> reporting (mark_failed \<circ> push_failed_kind ''apply:linux:netlink'' KAdapter (Some FSystem)
                [''Failed to open Linux netlink handle before route apply: '' @ show_network_error e])
              (throwS e)
          | Inr _ \<Rightarrow>
              withS (persist_applying sys tun plan (as_policy st) (as_kill_switch st)) (\<lambda>r. case r of
                Inl e \<Rightarrow> reporting (journal_failed
                    ''Failed to persist Linux apply journal before any route operation: '' e) (throwS e)
              | Inr _ \<Rightarrow> apply_stages sys tun iface plan enabled ap st))))"

subsection \<open>Repair at the start of the service\<close>

definition attempt_startup_repair :: "'w net_sys \<Rightarrow> ('w, unit) net_op" where
  "attempt_startup_repair sys =
     bindS (onW (load_recovery_journal sys)) (\<lambda>journal. case journal of
       None \<Rightarrow> returnS ()
     | Some j \<Rightarrow>
         bindS (onW (ns_open sys)) (\<lambda>_.
         bindS (if journal_requires_exact_cleanup j
                then ignoreS (onW (cleanup_exact_snapshot sys (rj_routes j) (rj_policy j))) (returnS ())
                else withS (onW (link_index sys (rj_tun_name j))) (\<lambda>r. case r of
                    Inr i \<Rightarrow> ignoreS (cleanup_stale_default_routes_once sys (rj_tun_name j) i)
                      (ignoreS (cleanup_rules_once sys None) (returnS ()))
                  | Inl _ \<Rightarrow> ignoreS (cleanup_rules_once sys None) (returnS ()))) (\<lambda>_.
         bindS (case rj_kill_switch j of
                  Some k \<Rightarrow> onW (cleanup_kill_switch (ns_fw sys) k)
                | None \<Rightarrow> returnS ()) (\<lambda>_.
         bindS (case rj_dns j of
                  Some d \<Rightarrow> onW (cleanup_dns (ns_dns sys) (rj_tun_name j) d)
                | None \<Rightarrow> returnS ()) (\<lambda>_.
         onW (clear_recovery_journal sys))))))"

end
