(* ===== verification/Net_Frames.thy ===== *)
theory Net_Frames
  imports Net_Apply
begin

text \<open>
  Frames: what the primitives of a component leave alone, all of its operations leave alone.
  One locale for the commands of the firewall, one for everything else the pipelines call.
\<close>

subsection \<open>The firewall\<close>

locale fw_frame =
  fixes sys :: "'w fw_sys" and R :: "'w \<Rightarrow> 'w \<Rightarrow> bool"
  assumes reflp [simp]: "reflp R" and transp [simp]: "transp R"
    and exec: "keeps R (fw_exec sys p a i)"
begin

lemmas keep = keeps_bindS [OF reflp transp] keeps_withS [OF transp] keeps_map_errS [OF reflp transp]
  keeps_ignoreS [OF transp] keeps_pure [OF reflp] keeps_askS keeps_branches

lemma keeps_run_cmd: "keeps R (run_cmd sys p a)" "keeps R (run_cmd_with_input sys p a t)"
  unfolding run_cmd_def run_cmd_with_input_def by (intro keep exec)+

lemma keeps_run_all: "keeps R (run_all sys p cmds)"
  by (induction cmds) (simp_all only: run_all.simps, (intro keep keeps_run_cmd | assumption)+)

lemma keeps_delete_jumps: "keeps R (delete_jumps n sys p c)"
  by (induction n) (simp_all only: delete_jumps.simps, (intro keep keeps_run_cmd | assumption)+)

lemma keeps_ignore_missing: "keeps R m \<Longrightarrow> keeps R (ignore_missing_firewall_state m)"
  unfolding ignore_missing_firewall_state_def by (intro keep)

lemma keeps_cleanup_chain: "keeps R (cleanup_chain sys p c)"
  unfolding cleanup_chain_def by (intro keep keeps_delete_jumps keeps_ignore_missing keeps_run_cmd)

lemma keeps_require: "(\<And>p. keeps R (k p)) \<Longrightarrow> keeps R (require_command sys program k)"
  unfolding require_command_def by (intro keep)

lemma keeps_nft: "keeps R (cleanup_nftables sys p)" "keeps R (apply_nftables sys p tun mark v4 v6)"
  unfolding apply_nftables_def cleanup_nftables_def cleanup_nft_table_def
  by (intro keep keeps_ignore_missing keeps_run_cmd)+

lemma keeps_family: "keeps R (cleanup_iptables_family sys p)" "keeps R (apply_iptables_family sys p tun mark)"
  unfolding apply_iptables_family_def guarded_apply_def cleanup_iptables_family_def
    apply_iptables_family_inner_def
  by (intro keep keeps_cleanup_chain keeps_run_all)+

lemma keeps_apply_iptables: "keeps R (apply_iptables sys tun mark v4 v6)"
  unfolding apply_iptables_def apply_iptables_with_resolver_def apply_ip6tables_def
  by (intro keep keeps_family)

lemma keeps_apply_kill_switch: "keeps R (apply_kill_switch sys tun mark v4 v6)"
  unfolding apply_kill_switch_def by (intro keep keeps_nft keeps_apply_iptables)

lemma keeps_cleanup_kill_switch: "keeps R (cleanup_kill_switch sys k)"
  unfolding cleanup_kill_switch_def cleanup_iptables_def cleanup_both_def
  by (cases "kw_backend k") (simp_all only: firewall_backend.case, (intro keep keeps_require keeps_nft keeps_family)+)

end

subsection \<open>DNS, rules, links, addresses and routes\<close>

locale net_frame =
  fixes sys :: "'w net_sys" and R :: "'w \<Rightarrow> 'w \<Rightarrow> bool"
  assumes reflp [simp]: "reflp R" and transp [simp]: "transp R"
    and add_rule: "keeps R (rn_add_rule (ns_rules sys) v6 r)"
    and get_rules: "R w (snd (rn_get_rules (ns_rules sys) v6 w))"
    and del_rule: "keeps R (rn_del_rule (ns_rules sys) r)"
    and dns_exec: "keeps R (dn_exec (ns_dns sys) p a inp)"
    and dns_probe: "R w (snd (dn_probe (ns_dns sys) p a w))"
    and read_file: "keeps R (dn_read_file (ns_dns sys) p)"
    and truncate: "keeps R (dn_truncate (ns_dns sys) p)"
    and write_all: "keeps R (dn_write_all (ns_dns sys) p t)"
    and sleep: "R w (dn_sleep (ns_dns sys) ms w)"
    and order_set: "R w (dn_order_set (ns_dns sys) order w)"
    and netlink: "keeps R (ns_open sys)" "keeps R (ns_link_by_name sys name)"
      "keeps R (ns_set_mtu sys i m)" "keeps R (ns_set_up sys i)"
      "keeps R (ns_add_address sys i ip c)" "keeps R (ns_find_address sys i ip c)"
      "keeps R (ns_del_address sys msg)" "keeps R (ns_add_route sys rt)" "keeps R (ns_del_route sys rt)"
    and links: "R w (snd (ns_links sys w))"
    and get_routes: "R w (snd (ns_get_routes sys v6 w))"
begin

lemmas keep = keeps_bindS [OF reflp transp] keeps_withS [OF transp] keeps_map_errS [OF reflp transp]
  keeps_ignoreS [OF transp] keeps_pure [OF reflp] keeps_askS keeps_branches

lemma trans_steps: "R w w' \<Longrightarrow> keeps R m \<Longrightarrow> m w' = (r, w'') \<Longrightarrow> R w w''"
  using transp by (meson keepsD transpD)

lemma step_trans: "R a b \<Longrightarrow> R b c \<Longrightarrow> R a c"
  using transp by (rule transpD)

lemma keeps_after: "(\<And>w. R w (f w)) \<Longrightarrow> keeps R m \<Longrightarrow> keeps R (\<lambda>w. m (f w))"
  by (rule keepsI) (rule trans_steps)

text \<open>Rules.\<close>

lemma keeps_apply_rules: "keeps R (apply_policy_rules (ns_rules sys) mark t v4 v6)"
  unfolding apply_policy_rules_def apply_policy_rules_family_def by (intro keep add_rule)

lemma keeps_del_matching: "keeps R (del_matching (rn_del_rule (ns_rules sys)) P err rs)"
  by (induction rs) (simp_all only: del_matching.simps, (intro keep del_rule | assumption)+)

lemma keeps_cleanup_rules: "keeps R (cleanup_policy_rules (ns_rules sys) policy v4 v6)"
proof -
  have "keeps R (cleanup_policy_rules_family (ns_rules sys) v6 policy)" for v6
  proof (rule keepsI)
    fix w r w' assume c: "cleanup_policy_rules_family (ns_rules sys) v6 policy w = (r, w')"
    obtain rs err w1 where g: "rn_get_rules (ns_rules sys) v6 w = ((rs, err), w1)" by (metis surj_pair)
    with get_rules [of w v6] have "R w w1" by simp
    with c g show "R w w'" by (simp add: cleanup_policy_rules_family_def trans_steps [OF _ keeps_del_matching])
  qed
  then show ?thesis unfolding cleanup_policy_rules_def by (intro keep)
qed

lemma state_policy: "R w (cleanup_policy_snapshot (ns_rules sys) p w)"
proof -
  have "R w (del_each (rn_del_rule (ns_rules sys)) ms w)" for ms w
  proof (induction ms arbitrary: w)
    case Nil
    then show ?case using reflp by (simp add: reflp_def)
  next
    case (Cons m ms)
    have "R w (snd (rn_del_rule (ns_rules sys) m w))" using del_rule keepsD by (metis prod.collapse)
    from step_trans [OF this Cons.IH] show ?case by simp
  qed
  then show ?thesis by (simp add: cleanup_policy_snapshot_def)
qed

text \<open>DNS.\<close>

lemma keeps_dns_run:
  "keeps R (dns_run_cmd (ns_dns sys) p a)" "keeps R (dns_run_cmd_with_input (ns_dns sys) p a t)"
  "keeps R (run_cmd_capture (ns_dns sys) p a)"
  unfolding dns_run_cmd_def dns_run_cmd_with_input_def run_cmd_capture_def by (intro keep dns_exec)+

lemma keeps_verify: "keeps R (verify_resolv_conf_servers (ns_dns sys) p servers)"
  "keeps R (read_resolv_conf_servers (ns_dns sys) p)"
  unfolding verify_resolv_conf_servers_def read_resolv_conf_servers_def by (intro keep read_file)+

lemma keeps_wait: "keeps R (wait_for_resolv_conf_servers (ns_dns sys) p servers)"
proof -
  have "keeps R (wait_loop n l (ns_dns sys) p servers)" for n l
  proof (induction n arbitrary: l)
    case (Suc n)
    have "keeps R (case r of Inr _ \<Rightarrow> returnS ()
     | Inl (DnsVerifyFailed m) \<Rightarrow>
         (\<lambda>w. wait_loop n (Some (DnsVerifyFailed m)) (ns_dns sys) p servers (dn_sleep (ns_dns sys) 200 w))
     | Inl e \<Rightarrow> throwS e)" for r
      by (auto intro!: keeps_after sleep Suc.IH split: sum.split network_error.split)
    then show ?case unfolding wait_loop.simps by (rule keeps_withS [OF transp keeps_verify(1)])
  qed (simp add: keep)
  then show ?thesis unfolding wait_for_resolv_conf_servers_def .
qed

lemma keeps_write: "keeps R (write_resolv_conf (ns_dns sys) p t)"
  unfolding write_resolv_conf_def by (intro keep truncate write_all)

lemma keeps_restore: "keeps R (restore_nm_connection (ns_dns sys) p s)"
  unfolding restore_nm_connection_def nmcli_reapply_def by (intro keep keeps_dns_run)

lemma keeps_restore_each: "keeps R (restore_each (ns_dns sys) p ss :: ('w, 'e, unit) op)"
  by (induction ss) (simp_all only: restore_each.simps, (intro keep keeps_restore | assumption)+)

lemma keeps_read_state: "keeps R (read_nm_connection_state (ns_dns sys) p n d)"
  unfolding read_nm_connection_state_def nmcli_get_def by (intro keep keeps_dns_run)

lemma keeps_apply_connections: "keeps R (apply_connections (ns_dns sys) p v4 v6 s touched conns)"
proof (induction conns arbitrary: touched)
  case (Cons c conns)
  obtain n d where "c = (n, d)" by (cases c)
  then show ?case
    unfolding apply_connections.simps apply_nm_connection_def nmcli_reapply_def
    by (simp only: apply_connections.simps apply_nm_connection_def nmcli_reapply_def)
      (intro keep keeps_read_state keeps_dns_run keeps_restore_each Cons.IH)
qed (simp add: keep)

lemma keeps_log: "keeps R (log_nmcli_dns_snapshot (ns_dns sys) p ss)"
  by (induction ss) (simp_all only: log_nmcli_dns_snapshot.simps, (intro keep keeps_dns_run | assumption)+)

lemma keeps_settle: "keeps R k \<Longrightarrow> keeps R (settle_dns (ns_dns sys) p ss n k)"
  unfolding settle_dns_def sample_dns_def
  by (intro keep keeps_log keeps_verify keeps_after [where f = "dn_sleep (ns_dns sys) n"] sleep)

lemma keeps_run_each:
  assumes "\<And>x. keeps R (f x)"
  shows "keeps R (run_each f xs)"
  by (induction xs) (simp_all only: run_each.simps, (intro keep assms | assumption)+)

lemma keeps_network_manager: "keeps R (apply_network_manager (ns_dns sys) p servers search)"
proof -
  have fail: "keeps R (bindS (cleanup_network_manager (ns_dns sys) p touched) (\<lambda>_. throwS e))" for touched and e :: network_error
    unfolding cleanup_network_manager_def by (intro keep keeps_restore_each)
  have reconnect: "keeps R (nmcli_reconnect (ns_dns sys) p touched)" for touched
    unfolding nmcli_reconnect_def by (intro keep keeps_run_each keeps_dns_run)
  have again: "keeps R (withS (wait_for_resolv_conf_servers (ns_dns sys) RESOLV_CONF servers) (\<lambda>r'. case r' of
                   Inr _ \<Rightarrow> returnS (DnsNetworkManager touched)
                 | Inl e \<Rightarrow> bindS (cleanup_network_manager (ns_dns sys) p touched) (\<lambda>_. throwS e)))" for touched
    by (intro keep keeps_wait fail)
  show ?thesis
    unfolding apply_network_manager_def nmcli_active_connections_def Let_def
    by (intro keep keeps_dns_run keeps_apply_connections keeps_settle keeps_wait)
      (auto intro!: keep fail reconnect keeps_settle again split: network_error.split)
qed

lemma keeps_attempt: "keeps R (attempt_backend (ns_dns sys) info tun servers search b)"
  unfolding attempt_backend_def with_tool_def apply_resolved_def apply_resolvconf_def
    apply_resolv_conf_file_def
  by (cases b) (simp_all only: dns_backend_kind.case,
      (intro keep keeps_dns_run keeps_network_manager read_file keeps_write keeps_verify)+)

lemma keeps_apply_dns: "keeps R (apply_dns (ns_dns sys) tun servers search)"
proof -
  let ?d = "ns_dns sys"
  have loop: "keeps R (apply_dns_loop ?d info tun servers search l bs)" for info l bs
    by (induction bs arbitrary: l)
      (simp_all only: apply_dns_loop.simps, (intro keep keeps_attempt | assumption | blast)+)
  have info: "R w (snd (read_resolv_conf_info ?d w))" for w
    using read_file [of RESOLV_CONF] by (auto simp: read_resolv_conf_info_def keeps_def split: prod.splits)
  have refl: "R w w" for w using reflp by (simp add: reflp_def)
  have p1: "R w (snd (probe_resolved_backend ?d w))" and p2: "R w (snd (probe_network_manager ?d w))" for w
    using dns_probe [of w] refl
    by (auto simp: probe_resolved_backend_def probe_network_manager_def split: option.split prod.split;
        metis snd_conv)+
  have order: "R w (snd (dns_backend_order ?d info w))" for info w
    using p1 [of w] p2 [of "snd (probe_resolved_backend ?d w)"] refl order_set
    by (auto simp: dns_backend_order_def Let_def split: option.split prod.split; metis transpD transp snd_conv)
  show ?thesis
  proof (rule keepsI)
    fix w r w' assume a: "apply_dns ?d tun servers search w = (r, w')"
    obtain i w1 where i: "read_resolv_conf_info ?d w = (i, w1)" by (metis surj_pair)
    obtain o' w2 where o: "dns_backend_order ?d i w1 = (o', w2)" by (metis surj_pair)
    have "R w w1" "R w1 w2" using info [of w] order [of w1 i] i o by simp_all
    then have "R w w2" by (rule step_trans)
    with a i o show "R w w'" by (simp add: apply_dns_def trans_steps [OF _ loop])
  qed
qed

lemma keeps_cleanup_dns: "keeps R (cleanup_dns (ns_dns sys) tun s)"
  unfolding cleanup_dns_def if_tool_def cleanup_resolved_def cleanup_resolvconf_def
    cleanup_network_manager_def cleanup_resolv_conf_file_def
  by (cases s) (simp_all only: dns_state.case, (intro keep keeps_dns_run keeps_restore_each keeps_write)+)

text \<open>Links, addresses and routes.\<close>

lemma keeps_link_index: "keeps R (link_index sys tun)"
  unfolding link_index_def by (intro keep netlink)

lemma keeps_configure: "keeps R (configure_link sys i iface)"
proof -
  have "keeps R (add_addresses sys i as)" for as
    by (induction as) (simp_all only: add_addresses.simps, (intro keep netlink | assumption)+)
  then show ?thesis unfolding configure_link_def by (intro keep netlink)
qed

lemma keeps_search: "keeps R (search_routes sys v6 P)"
  using get_routes by (auto simp: keeps_def search_routes_def split: prod.splits) (metis snd_conv)

lemma keeps_deletes: "keeps R (delete_address sys i a)" "keeps R (delete_route sys i r t)"
  "keeps R (cleanup_route_snapshot sys s)"
  unfolding delete_address_def delete_route_def cleanup_route_snapshot_def
  by (intro keep netlink keeps_search)+

lemma keeps_each_ignored:
  assumes "\<And>x. keeps R (f x)"
  shows "keeps R (each_ignored f xs)"
  by (induction xs) (simp_all only: each_ignored.simps, (intro keep assms | assumption)+)

lemma keeps_exact: "keeps R (cleanup_exact_snapshot sys routes policy)"
proof -
  have "keeps R (cleanup_route_snapshots sys routes)"
    by (induction routes) (simp_all only: cleanup_route_snapshots.simps, (intro keep keeps_deletes | assumption)+)
  moreover have "keeps R (\<lambda>w. (Inr (), case policy of None \<Rightarrow> w | Some p \<Rightarrow> cleanup_policy_snapshot (ns_rules sys) p w))"
    using reflp by (auto simp: keeps_def reflp_def state_policy split: option.split)
  ultimately show ?thesis unfolding cleanup_exact_snapshot_def by (intro keep)
qed

lemma keeps_stale: "keeps R (cleanup_stale_default_routes sys tun i)"
proof -
  have del: "keeps R (del_routes (ns_del_route sys) P err ms)" for P err ms
    by (induction ms) (simp_all only: del_routes.simps, (intro keep netlink | assumption)+)
  have "keeps R (cleanup_stale_default_routes_family sys tun i md v6)" for md v6
  proof (rule keepsI)
    fix w r w' assume c: "cleanup_stale_default_routes_family sys tun i md v6 w = (r, w')"
    obtain ms err w1 where g: "ns_get_routes sys v6 w = ((ms, err), w1)" by (metis surj_pair)
    with get_routes [of w v6] have "R w w1" by simp
    with c g show "R w w'" by (simp add: cleanup_stale_default_routes_family_def trans_steps [OF _ del])
  qed
  moreover have "keeps R (link_metadata_by_index sys)"
    using links by (auto simp: keeps_def link_metadata_by_index_def split: prod.splits) (metis snd_conv)
  ultimately show ?thesis unfolding cleanup_stale_default_routes_def by (intro keep)
qed

lemma keeps_link_dependent: "keeps R (cleanup_link_dependent sys st)"
proof -
  have "keeps R (\<lambda>w. (dns, case as_policy st of None \<Rightarrow> w | Some p \<Rightarrow> cleanup_policy_state (ns_rules sys) p w))"
    for dns :: "network_error + unit"
    using reflp by (auto simp: keeps_def reflp_def cleanup_policy_state_def state_policy split: option.split)
  then show ?thesis
    unfolding cleanup_link_dependent_def
    by (intro keep keeps_link_index keeps_each_ignored keeps_deletes keeps_cleanup_dns)
qed

end

end
