(* ===== verification/Net_Apply_Laws.thy ===== *)
theory Net_Apply_Laws
  imports Net_Frames Net_Policy_Laws Net_Firewall_Laws
begin

text \<open>
  What the pipelines guarantee about the journal and the kill switch, over every platform
  whose firewall satisfies \<open>iptables\<close>, whose journal file is written and removed as
  \<open>storage/atomic.rs\<close> promises (a failed write leaves the old file or the new one, never a part),
  and whose other operations leave both alone.
\<close>

subsection \<open>Frames on a context and a world\<close>

lemma is_ok_map_err [simp]: "is_ok (map_err f r) = is_ok r"
  by (cases r) simp_all


definition on_world :: "('w \<Rightarrow> 'w \<Rightarrow> bool) \<Rightarrow> 'c \<times> 'w \<Rightarrow> 'c \<times> 'w \<Rightarrow> bool" where
  "on_world R s s' = R (snd s) (snd s')"

lemma on_world_preorder: "reflp R \<Longrightarrow> reflp (on_world R)" "transp R \<Longrightarrow> transp (on_world R)"
  by (auto simp: on_world_def reflp_def transp_def)

lemma keeps_on_world:
  "keeps R m \<Longrightarrow> keeps (on_world R) (onW m)"
  "keeps (on_world R) k \<Longrightarrow> keeps (on_world R) (setS f k)"
  "(\<And>s. keeps (on_world R) (h s)) \<Longrightarrow> keeps (on_world R) (readS h)"
  "keeps (on_world R) n \<Longrightarrow> keeps (on_world R) (reporting g n)"
  by (auto simp: keeps_def on_world_def onW_def setS_def readS_def reporting_def split: prod.splits)

definition applying_journal ::
  "string \<Rightarrow> route_plan \<Rightarrow> policy_routing option \<Rightarrow> kill_switch option \<Rightarrow> recovery_journal" where
  "applying_journal tun plan policy ks =
     \<lparr>rj_tun_name = tun, rj_phase = PhaseApplying, rj_routes = route_snapshots plan,
      rj_policy = map_option policy_snapshot policy, rj_kill_switch = ks, rj_dns = None\<rparr>"

definition running_journal :: "string \<Rightarrow> applied_state \<Rightarrow> recovery_journal" where
  "running_journal tun st =
     \<lparr>rj_tun_name = tun, rj_phase = PhaseRunning, rj_routes = route_snapshots_from_ops (as_routes st),
      rj_policy = map_option policy_snapshot (as_policy st), rj_kill_switch = as_kill_switch st,
      rj_dns = as_dns st\<rparr>"

subsection \<open>Platforms\<close>

locale net_platform = iptables "ns_fw sys" tables
  for sys :: "'w net_sys" and tables :: "'w \<Rightarrow> string \<Rightarrow> fw_table" +
  fixes journal :: "'w \<Rightarrow> recovery_journal option"
  assumes frame: "net_frame sys (\<lambda>w w'. tables w' = tables w \<and> journal w' = journal w)"
    and fw_exec: "keeps (\<lambda>w w'. journal w' = journal w) (fw_exec (ns_fw sys) p a inp)"
    and reports: "keeps (\<lambda>w w'. tables w' = tables w \<and> journal w' = journal w) (ns_create_dir sys)"
      "keeps (\<lambda>w w'. tables w' = tables w \<and> journal w' = journal w) (ns_write_report sys text)"
      "keeps (\<lambda>w w'. tables w' = tables w \<and> journal w' = journal w) (ns_remove_report sys)"
    and write_journal: "ns_encode_journal sys j = Inr json \<Longrightarrow>
      wp (ns_write_journal sys json) (\<lambda>r w'. tables w' = tables w
        \<and> (journal w' = Some j \<or> \<not> is_ok r \<and> journal w' = journal w)) w"
    and read_journal: "wp (ns_read_journal sys) (\<lambda>r w'. tables w' = tables w \<and> journal w' = journal w
        \<and> (r = Inl FileNotFound \<longrightarrow> journal w = None)
        \<and> (\<forall>t j. r = Inr t \<longrightarrow> ns_decode_journal sys t = Inr j \<longrightarrow> journal w = Some j)) w"
    and remove_journal: "wp (ns_remove_journal sys) (\<lambda>r w'. tables w' = tables w
        \<and> journal w' = (if is_ok r then None else journal w)
        \<and> (r = Inl FileNotFound \<longrightarrow> journal w = None)) w"

sublocale net_platform \<subseteq> kept: net_frame sys "\<lambda>w w'. tables w' = tables w \<and> journal w' = journal w"
  by (rule frame)

sublocale net_platform \<subseteq> fw_kept: fw_frame "ns_fw sys" "\<lambda>w w'. journal w' = journal w"
  by unfold_locales (auto simp: reflp_def transp_def fw_exec)

context net_platform begin

abbreviation kept :: "'w \<Rightarrow> 'w \<Rightarrow> bool" where
  "kept w w' \<equiv> tables w' = tables w \<and> journal w' = journal w"

lemma wp_kept: "keeps kept m \<Longrightarrow> (\<And>r w'. tables w' = tables w \<Longrightarrow> journal w' = journal w \<Longrightarrow> Q r w') \<Longrightarrow> wp m Q w"
  by (auto intro!: wpI dest: keepsD)

text \<open>Writing the journal.\<close>

lemma wp_write_journal:
  "wp (write_recovery_journal sys j) (\<lambda>r w'. tables w' = tables w
     \<and> (journal w' = Some j \<or> \<not> is_ok r \<and> journal w' = journal w)) w"
proof -
  have W: "wp (ns_write_journal sys json) (\<lambda>r w'. tables w' = tables w
     \<and> (journal w' = Some j \<or> \<not> is_ok r \<and> journal w' = journal w)) w1"
    if "ns_encode_journal sys j = Inr json" "kept w w1" for json w1
    by (rule wp_mono [OF write_journal [OF that(1)]]) (use that(2) in auto)
  show ?thesis
    unfolding write_recovery_journal_def wp_bindS wp_map_errS
  proof (rule wp_kept [OF reports(1)], goal_cases)
    case (1 r w1)
    then show ?case
      by (cases r; cases "ns_encode_journal sys j") (simp_all add: wp_rules W)
  qed
qed

lemma keeps_report: "keeps kept (write_persisted_apply_report sys r)" "keeps kept (clear_persisted_apply_report sys)"
proof -
  show "keeps kept (write_persisted_apply_report sys r)"
    unfolding write_persisted_apply_report_def by (intro kept.keep reports)
  have "keeps kept (case r of Inr _ \<Rightarrow> returnS () | Inl FileNotFound \<Rightarrow> returnS ()
      | Inl (FileFailed e) \<Rightarrow> throwS (NetIo e))" for r :: "file_error + unit"
    by (auto split: sum.split file_error.split)
  then show "keeps kept (clear_persisted_apply_report sys)"
    unfolding clear_persisted_apply_report_def ignore_not_found_def
    by (rule keeps_withS [OF kept.transp reports(3)])
qed

lemma wp_persist:
  "wp (persist_applying_recovery_state sys tun plan policy ks report) (\<lambda>r w'. tables w' = tables w
     \<and> (journal w' = Some (applying_journal tun plan policy ks) \<or> \<not> is_ok r \<and> journal w' = journal w)) w"
  "wp (persist_running_recovery_state sys tun (as_routes st) (as_policy st) (as_kill_switch st) (as_dns st) report)
     (\<lambda>r w'. tables w' = tables w
       \<and> (journal w' = Some (running_journal tun st) \<or> \<not> is_ok r \<and> journal w' = journal w)) w"
  unfolding persist_applying_recovery_state_def persist_running_recovery_state_def wp_bindS
    write_applying_journal_def write_running_journal_def
    applying_journal_def [symmetric] running_journal_def [symmetric]
  by (rule wp_kept [OF keeps_report(1)], auto intro!: wp_mono [OF wp_write_journal] split: sum.split)+


text \<open>What an operation keeps while a given journal is in place.\<close>

definition guards :: "recovery_journal \<Rightarrow> 'w \<Rightarrow> 'w \<Rightarrow> bool" where
  "guards J w w' = (journal w = Some J \<longrightarrow> tables w' = tables w \<and> journal w' = Some J)"

lemma guards_preorder: "reflp (guards J)" "transp (guards J)"
  by (auto simp: guards_def reflp_def transp_def)

lemma keeps_guards: "keeps kept m \<Longrightarrow> keeps (guards J) m"
  by (auto simp: keeps_def guards_def)

lemmas on_guards [simp] = on_world_preorder(1) [OF guards_preorder(1)] on_world_preorder(2) [OF guards_preorder(2)]

lemmas stage_keep = keeps_bindS [OF on_guards] keeps_withS [OF on_guards(2)] keeps_ignoreS [OF on_guards(2)]
  keeps_pure [OF on_guards(1)] keeps_branches keeps_on_world

lemma keeps_persist:
  "keeps (on_world (guards (applying_journal tun plan policy ks))) (persist_applying sys tun plan policy ks)"
proof -
  have "keeps (guards (applying_journal tun plan policy ks))
    (persist_applying_recovery_state sys tun plan policy ks report)" for report
    by (rule keepsI, drule wpD [OF wp_persist(1), rotated]) (auto simp: guards_def)
  then show ?thesis unfolding persist_applying_def by (intro stage_keep) assumption
qed

lemma keeps_once:
  assumes R: "reflp R" "transp R" and m: "keeps R m"
  shows "keeps (on_world R) (cleanup_once get put m)"
proof -
  note on = on_world_preorder(1) [OF R(1)] on_world_preorder(2) [OF R(2)]
  have "keeps (on_world R) (case b of (False, _) \<Rightarrow> returnS ()
     | (True, flag) \<Rightarrow> setS (put flag)
         (withS (onW m) (\<lambda>r. setS (\<lambda>c. put (finish_cleanup_once (is_ok r) (get c)) c) (liftS r))))" for b
  proof (cases b)
    case (Pair ok flag)
    then show ?thesis
      by (cases ok) (simp_all only: prod.case bool.case,
        (intro keeps_withS [OF on(2)] keeps_pure [OF on(1)] keeps_on_world m)+)
  qed
  then show ?thesis unfolding cleanup_once_def by (intro keeps_on_world)
qed

lemma keeps_policy_stage:
  "keeps (on_world (guards (applying_journal tun plan policy ks)))
     (apply_policy_stage sys tun plan policy ks ops routes)"
proof (cases policy)
  case None
  then show ?thesis by (simp add: apply_policy_stage_def)
next
  case (Some p)
  let ?G = "on_world (guards (applying_journal tun plan (Some p) ks))"
  have "keeps ?G (policy_loop sys tun plan p ks routes ops)"
  proof (induction ops)
    case (Cons op ops)
    then show ?case
      unfolding policy_loop.simps by (intro stage_keep keeps_guards kept.keeps_apply_rules keeps_persist)
  qed simp
  moreover have "keeps ?G (cleanup_rules_once sys (Some p))"
    unfolding cleanup_rules_once_def by (intro keeps_once guards_preorder keeps_guards kept.keeps_cleanup_rules)
  ultimately show ?thesis
    unfolding Some apply_policy_stage_def option.case by (intro keeps_ignoreS on_guards)
qed

lemma keeps_route_stage:
  "keeps (on_world (guards (applying_journal tun plan policy ks)))
     (apply_route_stage sys i tun plan table policy ks routes)"
proof -
  let ?G = "on_world (guards (applying_journal tun plan policy ks))"
  have "keeps ?G (route_loop sys i tun plan policy ks routes)"
  proof (induction routes)
    case (Cons r routes)
    then show ?case
      unfolding route_loop.simps by (intro stage_keep keeps_guards kept.netlink keeps_persist)
  qed simp
  then show ?thesis by (simp add: apply_route_stage_def)
qed

lemma keeps_dns_stage: "keeps (on_world (guards J)) (apply_dns_stage sys tun iface)"
  unfolding apply_dns_stage_def by (intro stage_keep keeps_guards kept.keeps_apply_dns)

text \<open>The cleanup without clearing the journal, and with it.\<close>

lemma keeps_journal: "keeps kept m \<Longrightarrow> keeps (\<lambda>w w'. journal w' = journal w) m"
  by (auto simp: keeps_def)

lemma keeps_cleanup_impl: "keeps (\<lambda>w w'. journal w' = journal w) (cleanup_network_config_impl sys st False)"
  unfolding cleanup_network_config_impl_def if_False not_True_eq_False
  by (intro fw_kept.keep fw_kept.keeps_cleanup_kill_switch keeps_journal kept.keeps_link_dependent
      kept.netlink) simp_all

lemma wp_clear:
  "wp (clear_recovery_journal sys) (\<lambda>r w'. tables w' = tables w
     \<and> journal w' = (if is_ok r then None else journal w)) w"
  unfolding clear_recovery_journal_def ignore_not_found_def wp_withS
proof (rule wp_mono [OF remove_journal], goal_cases)
  case (1 r w')
  then show ?case by (cases r) (auto simp: wp_rules split: file_error.split)
qed

lemma wp_kill_switch_off:
  "wp (cleanup_kill_switch (ns_fw sys) k) (\<lambda>r w'. journal w' = journal w
     \<and> (is_ok r \<longrightarrow> kw_backend k = Iptables \<longrightarrow> freed_families (kw_ipv4 k) (kw_ipv6 k) w')) w"
proof (rule wp_conj)
  show "wp (cleanup_kill_switch (ns_fw sys) k) (\<lambda>r w'. journal w' = journal w) w"
    by (rule wp_keeps [OF fw_kept.keeps_cleanup_kill_switch])
  show "wp (cleanup_kill_switch (ns_fw sys) k)
     (\<lambda>r w'. is_ok r \<longrightarrow> kw_backend k = Iptables \<longrightarrow> freed_families (kw_ipv4 k) (kw_ipv6 k) w') w"
    unfolding cleanup_kill_switch_def
  proof (cases "kw_backend k")
    case Nftables
    then show "wp (case kw_backend k of Nftables \<Rightarrow> require_command (ns_fw sys) ''nft'' (cleanup_nftables (ns_fw sys))
        | Iptables \<Rightarrow> cleanup_iptables (ns_fw sys) (kw_ipv4 k) (kw_ipv6 k))
      (\<lambda>r w'. is_ok r \<longrightarrow> kw_backend k = Iptables \<longrightarrow> freed_families (kw_ipv4 k) (kw_ipv6 k) w') w"
      by (intro wp_any) simp
  next
    case Iptables
    then show "wp (case kw_backend k of Nftables \<Rightarrow> require_command (ns_fw sys) ''nft'' (cleanup_nftables (ns_fw sys))
        | Iptables \<Rightarrow> cleanup_iptables (ns_fw sys) (kw_ipv4 k) (kw_ipv6 k))
      (\<lambda>r w'. is_ok r \<longrightarrow> kw_backend k = Iptables \<longrightarrow> freed_families (kw_ipv4 k) (kw_ipv6 k) w') w"
      unfolding Iptables firewall_backend.case
      by (intro wp_mono [OF wp_cleanup_iptables]) simp
  qed
qed

definition freed_by :: "kill_switch option \<Rightarrow> 'w \<Rightarrow> bool" where
  "freed_by ks w = (\<forall>k. ks = Some k \<longrightarrow> kw_backend k = Iptables
     \<longrightarrow> freed_families (kw_ipv4 k) (kw_ipv6 k) w)"

lemma freed_cong: "tables w' = tables w \<Longrightarrow> freed_families v4 v6 w' = freed_families v4 v6 w"
  by (simp add: freed_families_def)

lemma freed_by_cong: "tables w' = tables w \<Longrightarrow> freed_by ks w' = freed_by ks w"
  by (simp only: freed_by_def freed_families_def)

lemma wp_kill_switch_part:
  "wp (case ks of Some k \<Rightarrow> cleanup_kill_switch (ns_fw sys) k | None \<Rightarrow> returnS ())
     (\<lambda>r w'. journal w' = journal w \<and> (is_ok r \<longrightarrow> freed_by ks w')) w"
proof (cases ks)
  case (Some k)
  show ?thesis
    unfolding Some option.case by (rule wp_mono [OF wp_kill_switch_off]) (simp add: freed_by_def)
qed (simp add: wp_rules freed_by_def)

text \<open>A successful cleanup clears the journal, and the kill switch is off.\<close>

lemma wp_cleanup:
  "wp (cleanup_network_config sys st) (\<lambda>r w'. (journal w' = journal w \<or> journal w' = None)
     \<and> (is_ok r \<longrightarrow> journal w' = None \<and> freed_by (as_kill_switch st) w')) w"
proof -
  have final: "wp (bindS (clear_recovery_journal sys) (\<lambda>_. clear_persisted_apply_report sys))
     (\<lambda>r w'. (journal w' = journal w \<or> journal w' = None)
       \<and> (is_ok r \<longrightarrow> journal w' = None \<and> freed_by ks w')) w1"
    if "journal w1 = journal w" "freed_by ks w1" for ks w1
    unfolding wp_bindS
  proof (rule wp_mono [OF wp_clear], goal_cases)
    case (1 r w')
    with that show ?case
    proof (cases r)
      case (Inr u)
      show ?thesis
        unfolding Inr sum.case
      proof (rule wp_kept [OF keeps_report(2)], goal_cases)
        case (1 r' w2)
        with \<open>tables w' = _ \<and> _\<close> that Inr freed_by_cong [of w2 w1 ks] show ?case by simp
      qed
    qed (use 1 that in simp)
  qed
  have "keeps kept (bindS (ns_open sys) (\<lambda>_. cleanup_link_dependent sys st))"
    by (intro kept.keep kept.netlink kept.keeps_link_dependent)
  then show ?thesis
    unfolding cleanup_network_config_def cleanup_network_config_impl_def if_True wp_withS
  proof (rule wp_kept, goal_cases)
    case (1 r w1)
    note w1 = 1(2)
    show ?case
    proof (rule wp_mono [OF wp_kill_switch_part], goal_cases)
      case (1 k w2)
      show ?case
        unfolding wp_bindS [of "liftS _"] wp_pure
      proof (cases "merge_cleanup_results r k")
        case (Inr u)
        then have "is_ok k" by (cases r) (simp_all add: merge_cleanup_results_def bindE_def)
        with 1 w1 show "(case merge_cleanup_results r k of
            Inl e \<Rightarrow> \<lambda>w'. (journal w' = journal w \<or> journal w' = None) \<and> (is_ok (Inl e :: network_error + unit)
              \<longrightarrow> journal w' = None \<and> freed_by (as_kill_switch st) w')
          | Inr _ \<Rightarrow> wp (bindS (clear_recovery_journal sys) (\<lambda>_. clear_persisted_apply_report sys))
            (\<lambda>r w'. (journal w' = journal w \<or> journal w' = None) \<and> (is_ok r
              \<longrightarrow> journal w' = None \<and> freed_by (as_kill_switch st) w'))) w2"
          unfolding Inr sum.case by (intro final) simp_all
      qed (use 1 w1 in simp)
    qed
  qed
qed


subsection \<open>The apply pipeline\<close>

lemma wp_reporting: "wp (reporting f k) Q (c, w) = wp k Q (c\<lparr>nc_report := f (nc_report c)\<rparr>, w)"
  by (simp add: reporting_def wp_state)

lemma wp_persist_applying:
  assumes "\<And>r w'. tables w' = tables w
      \<Longrightarrow> journal w' = Some (applying_journal tun plan policy ks) \<or> \<not> is_ok r \<and> journal w' = journal w
      \<Longrightarrow> Q r (c, w')"
  shows "wp (persist_applying sys tun plan policy ks) Q (c, w)"
  unfolding persist_applying_def wp_state fst_conv
  by (rule wp_mono [OF wp_persist(1)]) (use assms in blast)

definition left_behind :: "string \<Rightarrow> route_plan \<Rightarrow> policy_routing option \<Rightarrow> 'w \<Rightarrow> bool" where
  "left_behind tun plan policy w =
     ((\<exists>ks. journal w = Some (applying_journal tun plan policy ks))
    \<or> (\<exists>st. as_policy st = policy \<and> journal w = Some (running_journal tun st)))"

lemma wp_abort:
  assumes "left_behind tun plan (as_policy st) w"
    and "\<And>c' w'. left_behind tun plan (as_policy st) w' \<Longrightarrow> Q (Inl e) (c', w')"
  shows "wp (abort_apply sys tun plan st e) Q (c, w)"
  unfolding abort_apply_def wp_ignoreS
proof (rule wp_persist_applying)
  fix r :: "network_error + unit" and w1
  assume "journal w1 = Some (applying_journal tun plan (as_policy st) (as_kill_switch st))
     \<or> \<not> is_ok r \<and> journal w1 = journal w"
  with assms(1) have j: "left_behind tun plan (as_policy st) w1"
    unfolding left_behind_def by metis
  show "wp (onW (cleanup_network_config_impl sys st False)) (\<lambda>_. wp (throwS e) Q) (c, w1)"
    unfolding wp_state wp_pure
    by (rule wp_keeps [OF keeps_cleanup_impl]) (use j assms(2) in \<open>simp add: left_behind_def\<close>)
qed

text \<open>A stage that leaves the journal in place runs on, or the rollback leaves it.\<close>

lemma wp_stage:
  assumes "keeps (on_world (guards J)) m" "J = applying_journal tun plan (as_policy st) ks"
    and "journal w = Some J"
    and "\<And>x c' w'. m (c, w) = (Inr x, (c', w')) \<Longrightarrow> tables w' = tables w \<Longrightarrow> journal w' = Some J
      \<Longrightarrow> wp (k x) Q (c', w')"
    and "\<And>e c' w'. left_behind tun plan (as_policy st) w' \<Longrightarrow> Q (Inl e) (c', w')"
  shows "wp (stage sys tun plan st m k) Q (c, w)"
  unfolding stage_def wp_withS
proof (rule wpI)
  fix r and s' :: "net_ctx \<times> 'w"
  assume m: "m (c, w) = (r, s')"
  obtain c' w' where s': "s' = (c', w')" by (cases s')
  have g: "tables w' = tables w" "journal w' = Some J"
    using keepsD [OF assms(1) m] assms(3) by (simp_all add: on_world_def guards_def s')
  show "wp (case r of Inl e \<Rightarrow> abort_apply sys tun plan st e | Inr x \<Rightarrow> k x) Q s'"
  proof (cases r)
    case (Inl e)
    show ?thesis
      unfolding Inl sum.case s'
      by (rule wp_abort) (use g assms(2,5) in \<open>auto simp: left_behind_def\<close>)
  next
    case (Inr x)
    show ?thesis unfolding Inr sum.case s' by (rule assms(4)) (use m g Inr s' in simp_all)
  qed
qed

text \<open>The kill switch that was asked for is up.\<close>

definition protected :: "bool \<Rightarrow> string \<Rightarrow> applied_state \<Rightarrow> 'w \<Rightarrow> bool" where
  "protected enabled tun st w = (\<forall>p. enabled \<and> as_policy st = Some p \<longrightarrow>
     (\<exists>k. as_kill_switch st = Some k \<and> kw_ipv4 k = pr_v4 p \<and> kw_ipv6 k = pr_v6 p
        \<and> (kw_backend k = Iptables \<longrightarrow> forced_families tun (pr_fwmark p) (pr_v4 p) (pr_v6 p) w)))"

lemma protected_cong: "tables w' = tables w \<Longrightarrow> protected enabled tun st w' = protected enabled tun st w"
  by (simp only: protected_def forced_families_def)

definition finished :: "string \<Rightarrow> route_plan \<Rightarrow> bool \<Rightarrow> applied_state
   \<Rightarrow> network_error + applied_state \<Rightarrow> net_ctx \<times> 'w \<Rightarrow> bool" where
  "finished tun plan enabled st0 res s =
     (case res of
        Inl _ \<Rightarrow> left_behind tun plan (as_policy st0) (snd s)
      | Inr st \<Rightarrow> journal (snd s) = Some (running_journal tun st)
          \<and> rr_attempt_state (nc_report (fst s)) = RunningAttempt
          \<and> (\<exists>d k. st = st0\<lparr>as_dns := d, as_kill_switch := k\<rparr>)
          \<and> protected enabled tun st (snd s))"

lemma finished_failed: "left_behind tun plan (as_policy st0) w \<Longrightarrow> finished tun plan enabled st0 (Inl e) (c, w)"
  by (simp add: finished_def)

lemma wp_finish:
  assumes "journal w = Some (applying_journal tun plan (as_policy st) ks)"
    and "\<exists>d k. st = st0\<lparr>as_dns := d, as_kill_switch := k\<rparr>" "protected enabled tun st w"
  shows "wp (finish_apply sys tun plan (as_routes st) st) (finished tun plan enabled st0) (c, w)"
proof -
  have pol: "as_policy st0 = as_policy st" using assms(2) by auto
  show ?thesis
    unfolding finish_apply_def wp_reporting wp_withS persist_running_def wp_state fst_conv
  proof (rule wp_mono [OF wp_persist(2)])
    fix r :: "network_error + unit" and w'
    assume w': "tables w' = tables w
      \<and> (journal w' = Some (running_journal tun st) \<or> \<not> is_ok r \<and> journal w' = journal w)"
    show "wp (case r of
        Inl e \<Rightarrow> reporting (journal_failed ''Failed to persist Linux running journal: '' e)
          (abort_apply sys tun plan st e)
      | Inr _ \<Rightarrow> returnS st) (finished tun plan enabled st0)
      (c\<lparr>nc_report := mark_running (nc_report c)\<rparr>, w')"
    proof (cases r)
      case (Inl e)
      show ?thesis
        unfolding Inl sum.case wp_reporting
        by (rule wp_abort) (use w' assms(1) Inl pol in \<open>auto simp: left_behind_def finished_def\<close>)
    next
      case (Inr u)
      have "protected enabled tun st w'" using assms(3) w' protected_cong by blast
      with w' Inr assms(2) show ?thesis by (simp add: wp_rules finished_def mark_running_def)
    qed
  qed
qed

lemma wp_dns_step:
  assumes "journal w = Some (applying_journal tun plan (as_policy st) ks)"
    and "\<exists>d k. st = st0\<lparr>as_dns := d, as_kill_switch := k\<rparr>" "protected enabled tun st w"
  shows "wp (dns_step sys tun plan iface (as_routes st) st) (finished tun plan enabled st0) (c, w)"
  unfolding dns_step_def
proof (rule wp_stage [OF keeps_dns_stage refl assms(1)])
  fix d c' w'
  assume w': "tables w' = tables w" "journal w' = Some (applying_journal tun plan (as_policy st) ks)"
  let ?st = "case d of Some s \<Rightarrow> st\<lparr>as_dns := Some s\<rparr> | None \<Rightarrow> st"
  have f: "as_policy ?st = as_policy st" "as_routes ?st = as_routes st" "as_kill_switch ?st = as_kill_switch st"
    by (simp_all split: option.split)
  obtain d0 k0 where "st = st0\<lparr>as_dns := d0, as_kill_switch := k0\<rparr>" using assms(2) by blast
  then have "\<exists>d k. ?st = st0\<lparr>as_dns := d, as_kill_switch := k\<rparr>"
    by (cases st0, cases d) (auto intro: exI [of _ k0])
  moreover have "protected enabled tun ?st w'"
    using assms(3) protected_cong [OF w'(1), of enabled tun st] f by (simp add: protected_def)
  ultimately show "wp (finish_apply sys tun plan (as_routes st) ?st) (finished tun plan enabled st0) (c', w')"
    using wp_finish [of w' tun plan ?st ks st0 enabled c'] w'(2) f by simp
next
  fix e c' w' assume "left_behind tun plan (as_policy st) w'"
  then show "finished tun plan enabled st0 (Inl e) (c', w')" using assms(2) by (auto simp: finished_def)
qed

text \<open>The kill switch stage keeps the journal, and the kill switch it returns is up.\<close>

lemma wp_kill_switch_stage:
  "wp (apply_kill_switch_stage sys tun policy enabled) (\<lambda>r s'. journal (snd s') = journal w
     \<and> (\<forall>x p. r = Inr x \<longrightarrow> policy = Some p \<longrightarrow> enabled \<longrightarrow>
          (\<exists>k. x = Some k \<and> kw_ipv4 k = pr_v4 p \<and> kw_ipv6 k = pr_v6 p
            \<and> (kw_backend k = Iptables \<longrightarrow> forced_families tun (pr_fwmark p) (pr_v4 p) (pr_v6 p) (snd s')))))
     (c, w)"
proof (cases policy)
  case None
  then show ?thesis by (simp add: apply_kill_switch_stage_def wp_rules)
next
  case (Some p)
  show ?thesis
  proof (cases enabled)
    case False
    then show ?thesis by (simp add: Some apply_kill_switch_stage_def wp_reporting wp_rules)
  next
    case True
    have ks: "wp (apply_kill_switch (ns_fw sys) tun (pr_fwmark p) (pr_v4 p) (pr_v6 p)) (\<lambda>r w'.
        journal w' = journal w \<and> (\<forall>k. r = Inr k \<longrightarrow> kw_ipv4 k = pr_v4 p \<and> kw_ipv6 k = pr_v6 p
          \<and> (kw_backend k = Iptables \<longrightarrow> forced_families tun (pr_fwmark p) (pr_v4 p) (pr_v6 p) w'))) w"
    proof (rule wp_conj)
      show "wp (apply_kill_switch (ns_fw sys) tun (pr_fwmark p) (pr_v4 p) (pr_v6 p))
          (\<lambda>r w'. journal w' = journal w) w"
        by (rule wp_keeps [OF fw_kept.keeps_apply_kill_switch])
    next
      show "wp (apply_kill_switch (ns_fw sys) tun (pr_fwmark p) (pr_v4 p) (pr_v6 p)) (\<lambda>r w'.
          \<forall>k. r = Inr k \<longrightarrow> kw_ipv4 k = pr_v4 p \<and> kw_ipv6 k = pr_v6 p
          \<and> (kw_backend k = Iptables \<longrightarrow> forced_families tun (pr_fwmark p) (pr_v4 p) (pr_v6 p) w')) w"
        by (rule wp_mono [OF wp_kill_switch]) (auto split: sum.splits)
    qed
    show ?thesis
      unfolding Some apply_kill_switch_stage_def option.case wp_withS wp_state
    proof (simp only: True not_True_eq_False if_False wp_withS wp_state, rule wp_mono [OF ks], goal_cases)
      case (1 r w')
      then show ?case by (cases r) (simp_all add: wp_reporting wp_rules)
    qed
  qed
qed

lemma wp_kill_switch_step:
  assumes j: "journal w = Some (applying_journal tun plan (as_policy st) ks)"
    and off: "as_kill_switch st = None"
  shows "wp (kill_switch_step sys tun plan iface enabled (as_routes st) st) (finished tun plan enabled st) (c, w)"
  unfolding kill_switch_step_def stage_def wp_withS
proof (rule wp_mono [OF wp_kill_switch_stage], goal_cases)
  case (1 r s')
  obtain c' w' where s': "s' = (c', w')" by (cases s')
  from 1 have j': "journal w' = Some (applying_journal tun plan (as_policy st) ks)" by (simp add: s' j)
  have left: "left_behind tun plan (as_policy st) w'" using j' by (auto simp: left_behind_def)
  show ?case
  proof (cases r)
    case (Inl e)
    show ?thesis unfolding Inl sum.case s' by (rule wp_abort [OF left]) (rule finished_failed)
  next
    case (Inr x)
    have self: "\<exists>d k. st = st\<lparr>as_dns := d, as_kill_switch := k\<rparr>"
      by (rule exI [of _ "as_dns st"], rule exI [of _ "as_kill_switch st"]) simp
    show ?thesis
    proof (cases x)
      case None
      have "protected enabled tun st w'" using 1 Inr None by (auto simp: protected_def)
      then show ?thesis
        unfolding Inr sum.case None option.case s' by (rule wp_dns_step [OF j' self])
    next
      case (Some k)
      let ?st = "st\<lparr>as_kill_switch := Some k\<rparr>"
      have prot: "protected enabled tun ?st w'"
        using 1 Inr Some by (auto simp: protected_def s')
      have upd: "\<exists>d k'. ?st = st\<lparr>as_dns := d, as_kill_switch := k'\<rparr>"
        by (rule exI [of _ "as_dns st"], rule exI [of _ "Some k"]) simp
      have step: "wp (dns_step sys tun plan iface (as_routes ?st) ?st) (finished tun plan enabled st) (c', w2)"
        if "tables w2 = tables w'" "journal w2 = Some (applying_journal tun plan (as_policy ?st) (Some k))" for w2
        by (rule wp_dns_step [OF that(2) upd]) (use prot protected_cong [OF that(1)] in blast)
      show ?thesis
        unfolding Inr sum.case Some option.case s' Let_def wp_withS
      proof (rule wp_persist_applying)
        fix r2 :: "network_error + unit" and w2
        assume w2: "tables w2 = tables w'"
          "journal w2 = Some (applying_journal tun plan (as_policy ?st) (as_kill_switch ?st))
             \<or> \<not> is_ok r2 \<and> journal w2 = journal w'"
        have left2: "left_behind tun plan (as_policy ?st) w2"
          using w2(2) j' by (auto simp: left_behind_def)
        show "wp (case r2 of
            Inl e \<Rightarrow> reporting (journal_failed
                 ''Failed to persist Linux apply journal after kill switch setup: '' e)
               (abort_apply sys tun plan ?st e)
          | Inr _ \<Rightarrow> dns_step sys tun plan iface (as_routes st) ?st) (finished tun plan enabled st) (c', w2)"
        proof (cases r2)
          case (Inl e)
          show ?thesis
            unfolding Inl sum.case wp_reporting
            by (rule wp_abort [OF left2]) (simp add: finished_failed)
        next
          case (Inr u)
          show ?thesis unfolding Inr sum.case using step [of w2] w2 Inr by simp
        qed
      qed
    qed
  qed
qed

text \<open>An error before the first stage leaves the applying journal without a rollback.\<close>

lemma wp_apply_stages:
  assumes j: "journal w = Some (applying_journal tun plan (as_policy st) None)"
    and st: "as_kill_switch st = None" "lp_route_ops ap = as_routes st"
  shows "wp (apply_stages sys tun iface plan enabled ap st) (finished tun plan enabled st) (c, w)"
proof -
  let ?J = "applying_journal tun plan (as_policy st) None"
  let ?Q = "finished tun plan enabled st"
  have left: "left_behind tun plan (as_policy st) w'" if "journal w' = Some ?J" for w'
    using that by (auto simp: left_behind_def)
  have routes: "wp (stage sys tun plan st (apply_route_stage sys i tun plan (if_table iface) (as_policy st)
          (as_kill_switch st) (lp_route_ops ap)) (\<lambda>_.
      kill_switch_step sys tun plan iface enabled (lp_route_ops ap) st)) ?Q (c', w')"
    if "journal w' = Some ?J" for i c' w'
    by (rule wp_stage [OF keeps_route_stage refl])
      (use that st in \<open>auto intro: wp_kill_switch_step finished_failed\<close>)
  have policy: "wp (stage sys tun plan st (apply_policy_stage sys tun plan (as_policy st) (as_kill_switch st)
          (lp_policy_rule_ops ap) (lp_route_ops ap)) (\<lambda>_.
      stage sys tun plan st (apply_route_stage sys i tun plan (if_table iface) (as_policy st)
          (as_kill_switch st) (lp_route_ops ap)) (\<lambda>_.
      kill_switch_step sys tun plan iface enabled (lp_route_ops ap) st))) ?Q (c', w')"
    if "journal w' = Some ?J" for i c' w'
    by (rule wp_stage [OF keeps_policy_stage refl])
      (use that st in \<open>auto intro: routes [unfolded st] finished_failed\<close>)
  have configure: "wp (bindS (onW (configure_link sys i iface)) (\<lambda>_.
      stage sys tun plan st (apply_policy_stage sys tun plan (as_policy st) (as_kill_switch st)
          (lp_policy_rule_ops ap) (lp_route_ops ap)) (\<lambda>_.
      stage sys tun plan st (apply_route_stage sys i tun plan (if_table iface) (as_policy st)
          (as_kill_switch st) (lp_route_ops ap)) (\<lambda>_.
      kill_switch_step sys tun plan iface enabled (lp_route_ops ap) st)))) ?Q (c', w')"
    if w': "journal w' = Some ?J" for i c' w'
    unfolding wp_bindS wp_state
  proof (rule wp_kept [OF kept.keeps_configure], goal_cases)
    case (1 r w2)
    with w' have "journal w2 = Some ?J" by simp
    with policy left show ?case by (cases r) (auto intro: finished_failed)
  qed
  show ?thesis
    unfolding apply_stages_def wp_bindS [of "onW (link_index sys tun)"] wp_state
  proof (rule wp_kept [OF kept.keeps_link_index], goal_cases)
    case (1 r w1)
    with j have j1: "journal w1 = Some ?J" by simp
    show ?case
    proof (cases r)
      case (Inl e)
      show ?thesis using left [OF j1] by (simp add: Inl finished_failed)
    next
      case (Inr i)
      have stale: "keeps (on_world (guards ?J)) (cleanup_stale_default_routes_once sys tun i)"
        unfolding cleanup_stale_default_routes_once_def
        by (intro keeps_once guards_preorder keeps_guards kept.keeps_stale)
      show ?thesis
        unfolding Inr sum.case wp_ignoreS
      proof (rule wp_mono [OF wp_keeps [OF stale]])
        fix r' s'
        assume "on_world (guards ?J) (c, w1) s'"
        then show "wp (bindS (onW (configure_link sys i iface)) (\<lambda>_.
          stage sys tun plan st (apply_policy_stage sys tun plan (as_policy st) (as_kill_switch st)
              (lp_policy_rule_ops ap) (lp_route_ops ap)) (\<lambda>_.
          stage sys tun plan st (apply_route_stage sys i tun plan (if_table iface) (as_policy st)
              (as_kill_switch st) (lp_route_ops ap)) (\<lambda>_.
          kill_switch_step sys tun plan iface enabled (lp_route_ops ap) st)))) ?Q s'"
          using j1 configure by (cases s') (simp add: on_world_def guards_def)
      qed
    qed
  qed
qed

definition applied ::
  "string \<Rightarrow> wireguard_config \<Rightarrow> route_plan \<Rightarrow> bool \<Rightarrow> recovery_journal option
   \<Rightarrow> network_error + applied_state \<Rightarrow> net_ctx \<times> 'w \<Rightarrow> bool" where
  "applied tun cfg plan enabled old res s =
     (case res of
        Inl _ \<Rightarrow> journal (snd s) = old \<or> (\<exists>policy. left_behind tun plan policy (snd s))
      | Inr st \<Rightarrow> journal (snd s) = Some (running_journal tun st)
          \<and> rr_attempt_state (nc_report (fst s)) = RunningAttempt
          \<and> as_tun st = tun \<and> as_addresses st = if_addresses (wc_interface cfg)
          \<and> (\<exists>ap. build_apply_plan cfg plan (report_new PfLinux) = Inr ap
               \<and> as_policy st = lp_policy ap \<and> as_routes st = lp_route_ops ap)
          \<and> protected enabled tun st (snd s))"

lemma wp_apply_network_config:
  "wp (apply_network_config sys tun cfg plan enabled) (applied tun cfg plan enabled (journal w)) (c, w)"
proof (cases "build_apply_plan cfg plan (report_new PfLinux)")
  case (Inl er)
  then show ?thesis
    by (cases er) (simp add: apply_network_config_def wp_reporting wp_state wp_rules applied_def)
next
  case (Inr ap)
  let ?st = "apply_initial tun (wc_interface cfg) ap"
  have st: "as_kill_switch ?st = None" "lp_route_ops ap = as_routes ?st" "as_policy ?st = lp_policy ap"
    by (simp_all add: apply_initial_def)
  let ?c = "c\<lparr>nc_report := report_new PfLinux\<rparr>"
  have stages: "wp (apply_stages sys tun (wc_interface cfg) plan enabled ap ?st)
      (applied tun cfg plan enabled (journal w)) (c', w')"
    if "journal w' = Some (applying_journal tun plan (as_policy ?st) None)" for c' w'
  proof (rule wp_mono [OF wp_apply_stages [OF that st(1,2)]])
    fix r s'
    assume "finished tun plan enabled ?st r s'"
    then show "applied tun cfg plan enabled (journal w) r s'"
      by (cases r) (auto simp: finished_def applied_def left_behind_def Inr apply_initial_def)
  qed
  have persist: "wp (withS (persist_applying sys tun plan (as_policy ?st) (as_kill_switch ?st)) (\<lambda>r. case r of
                Inl e \<Rightarrow> reporting (journal_failed
                    ''Failed to persist Linux apply journal before any route operation: '' e) (throwS e)
              | Inr _ \<Rightarrow> apply_stages sys tun (wc_interface cfg) plan enabled ap ?st))
      (applied tun cfg plan enabled (journal w)) (c', w')" if w': "journal w' = journal w" for c' w'
    unfolding wp_withS
  proof (rule wp_persist_applying, goal_cases)
    case (1 r w2)
    show ?case
    proof (cases r)
      case (Inl e)
      with 1 w' show ?thesis by (auto simp: wp_reporting wp_rules applied_def left_behind_def)
    next
      case (Inr u)
      with 1 st show ?thesis by (simp add: stages)
    qed
  qed
  show ?thesis
    unfolding apply_network_config_def wp_reporting
  proof (simp only: wp_state fst_conv, unfold Let_def, simp add: Inr wp_withS wp_state, rule wp_kept [OF kept.netlink(1)], goal_cases)
    case (1 r w')
    then show ?case
      by (cases r) (simp_all add: wp_reporting wp_rules applied_def persist [unfolded wp_withS])
  qed
qed

subsection \<open>The repair at the start of the service\<close>

text \<open>The journal is only cleared after the kill switch it names was lifted.\<close>

definition repaired :: "recovery_journal option \<Rightarrow> network_error + unit \<Rightarrow> net_ctx \<times> 'w \<Rightarrow> bool" where
  "repaired old r s =
     (if is_ok r then journal (snd s) = None \<and> (\<forall>j. old = Some j \<longrightarrow> freed_by (rj_kill_switch j) (snd s))
      else journal (snd s) = old)"

lemma wp_load_journal:
  "wp (load_recovery_journal sys) (\<lambda>r w'. kept w w' \<and> (\<forall>j. r = Inr j \<longrightarrow> journal w = j)) w"
  unfolding load_recovery_journal_def wp_withS
proof (rule wp_mono [OF read_journal], goal_cases)
  case (1 r w')
  show ?case
  proof (cases r)
    case (Inl e)
    with 1 show ?thesis by (cases e) (simp_all add: wp_rules)
  next
    case (Inr t)
    with 1 show ?thesis by (cases "ns_decode_journal sys t") (simp_all add: wp_rules)
  qed
qed

lemma keeps_netlink_repair:
  "keeps (on_world kept) (if journal_requires_exact_cleanup j
      then ignoreS (onW (cleanup_exact_snapshot sys (rj_routes j) (rj_policy j))) (returnS ())
      else withS (onW (link_index sys (rj_tun_name j))) (\<lambda>r. case r of
          Inr i \<Rightarrow> ignoreS (cleanup_stale_default_routes_once sys (rj_tun_name j) i)
            (ignoreS (cleanup_rules_once sys None) (returnS ()))
        | Inl _ \<Rightarrow> ignoreS (cleanup_rules_once sys None) (returnS ())))"
proof -
  have R: "reflp kept" "transp kept" by (auto simp: reflp_def transp_def)
  note on = on_world_preorder(1) [OF R(1)] on_world_preorder(2) [OF R(2)]
  show ?thesis
    unfolding cleanup_stale_default_routes_once_def cleanup_rules_once_def
    by (intro keeps_withS [OF on(2)] keeps_ignoreS [OF on(2)] keeps_pure [OF on(1)] keeps_branches keeps_on_world
        keeps_once [OF R] kept.keeps_exact kept.keeps_link_index kept.keeps_stale kept.keeps_cleanup_rules)
qed

text \<open>A step of the repair: it leaves the journal, or ends it.\<close>

lemma wp_repair_step:
  assumes "wp m (\<lambda>r w'. journal w' = Some j \<and> (is_ok r \<longrightarrow> P w')) w"
    and "\<And>c' w'. journal w' = Some j \<Longrightarrow> P w' \<Longrightarrow> wp (k ()) (repaired (Some j)) (c', w')"
  shows "wp (bindS (onW m) k) (repaired (Some j)) (c, w)"
  unfolding wp_bindS wp_state
proof (rule wp_mono [OF assms(1)], goal_cases)
  case (1 r w')
  with assms(2) show ?case by (cases r) (simp_all add: repaired_def)
qed

lemma wp_repair: "wp (attempt_startup_repair sys) (repaired (journal w)) (c, w)"
  unfolding attempt_startup_repair_def wp_bindS [of "onW (load_recovery_journal sys)"] wp_state
proof (rule wp_mono [OF wp_load_journal], goal_cases)
  case (1 r w1)
  show ?case
  proof (cases r)
    case (Inr old)
    note w1 = 1 [unfolded Inr]
    show ?thesis
    proof (cases old)
      case (Some j)
      have old: "journal w = Some j" and j1: "journal w1 = Some j" using w1 Some by simp_all
      have clear: "wp (onW (clear_recovery_journal sys)) (repaired (Some j)) (c', w')"
        if "journal w' = Some j" "freed_by (rj_kill_switch j) w'" for c' w'
        unfolding wp_state
      proof (rule wp_mono [OF wp_clear], goal_cases)
        case (1 r w2)
        with that freed_by_cong [of w2 w'] show ?case by (cases r) (simp_all add: repaired_def)
      qed
      have dns: "wp (bindS (case rj_dns j of
            Some d \<Rightarrow> onW (cleanup_dns (ns_dns sys) (rj_tun_name j) d) | None \<Rightarrow> returnS ())
          (\<lambda>_. onW (clear_recovery_journal sys))) (repaired (Some j)) (c', w')"
        if w': "journal w' = Some j" "freed_by (rj_kill_switch j) w'" for c' w'
      proof (cases "rj_dns j")
        case None
        then show ?thesis using clear [OF w'] by (simp add: wp_rules)
      next
        case (Some d)
        have "wp (cleanup_dns (ns_dns sys) (rj_tun_name j) d)
           (\<lambda>r w2. journal w2 = Some j \<and> (is_ok r \<longrightarrow> freed_by (rj_kill_switch j) w2)) w'"
          by (rule wp_kept [OF kept.keeps_cleanup_dns]) (metis w' freed_by_cong)
        then show ?thesis unfolding Some option.case by (rule wp_repair_step) (rule clear)
      qed
      have ks: "wp (bindS (case rj_kill_switch j of
            Some k \<Rightarrow> onW (cleanup_kill_switch (ns_fw sys) k) | None \<Rightarrow> returnS ()) (\<lambda>_.
          bindS (case rj_dns j of
            Some d \<Rightarrow> onW (cleanup_dns (ns_dns sys) (rj_tun_name j) d) | None \<Rightarrow> returnS ()) (\<lambda>_.
          onW (clear_recovery_journal sys)))) (repaired (Some j)) (c', w')"
        if w': "journal w' = Some j" for c' w'
      proof (cases "rj_kill_switch j")
        case None
        have "freed_by (rj_kill_switch j) w'" by (simp add: None freed_by_def)
        from dns [OF w' this] show ?thesis by (simp add: None wp_rules)
      next
        case (Some k)
        have "wp (cleanup_kill_switch (ns_fw sys) k)
           (\<lambda>r w2. journal w2 = Some j \<and> (is_ok r \<longrightarrow> freed_by (rj_kill_switch j) w2)) w'"
          by (rule wp_mono [OF wp_kill_switch_off]) (use w' Some in \<open>simp add: freed_by_def\<close>)
        then show ?thesis unfolding Some option.case by (rule wp_repair_step) (rule dns, assumption, simp add: Some)
      qed
      show ?thesis
        unfolding Inr sum.case Some option.case old
      proof (rule wp_repair_step [where P = "\<lambda>_. True"])
        show "wp (ns_open sys) (\<lambda>r w'. journal w' = Some j \<and> (is_ok r \<longrightarrow> True)) w1"
          by (rule wp_kept [OF kept.netlink(1)]) (use j1 in simp)
      next
        fix c' w' assume w': "journal w' = Some j"
        show "wp (bindS (if journal_requires_exact_cleanup j
                then ignoreS (onW (cleanup_exact_snapshot sys (rj_routes j) (rj_policy j))) (returnS ())
                else withS (onW (link_index sys (rj_tun_name j))) (\<lambda>r. case r of
                    Inr i \<Rightarrow> ignoreS (cleanup_stale_default_routes_once sys (rj_tun_name j) i)
                      (ignoreS (cleanup_rules_once sys None) (returnS ()))
                  | Inl _ \<Rightarrow> ignoreS (cleanup_rules_once sys None) (returnS ()))) (\<lambda>_.
          bindS (case rj_kill_switch j of
            Some k \<Rightarrow> onW (cleanup_kill_switch (ns_fw sys) k) | None \<Rightarrow> returnS ()) (\<lambda>_.
          bindS (case rj_dns j of
            Some d \<Rightarrow> onW (cleanup_dns (ns_dns sys) (rj_tun_name j) d) | None \<Rightarrow> returnS ()) (\<lambda>_.
          onW (clear_recovery_journal sys))))) (repaired (Some j)) (c', w')"
          unfolding wp_bindS [of "if _ then _ else _"]
        proof (rule wp_mono [OF wp_keeps [OF keeps_netlink_repair]], assumption)
          fix r s' assume "on_world kept (c', w') s'"
          then have "journal (snd s') = Some j" using w' by (simp add: on_world_def)
          then show "(case r of Inl e \<Rightarrow> repaired (Some j) (Inl e)
            | Inr x \<Rightarrow> wp (bindS (case rj_kill_switch j of
                Some k \<Rightarrow> onW (cleanup_kill_switch (ns_fw sys) k) | None \<Rightarrow> returnS ()) (\<lambda>_.
              bindS (case rj_dns j of
                Some d \<Rightarrow> onW (cleanup_dns (ns_dns sys) (rj_tun_name j) d) | None \<Rightarrow> returnS ()) (\<lambda>_.
              onW (clear_recovery_journal sys)))) (repaired (Some j))) s'"
            using ks by (cases s'; cases r) (simp_all add: repaired_def)
        qed
      qed
    qed (use w1 Inr in \<open>simp add: wp_rules repaired_def\<close>)
  qed (use 1 in \<open>simp add: repaired_def\<close>)
qed

end

end
