(* ===== verification/Net_Apply_Sim.thy ===== *)
theory Net_Apply_Sim
  imports Net_Apply_Laws Net_Properties
begin

text \<open>
  A host for the pipelines: the firewall tables of \<open>sim_fw\<close>, one link, a journal that is a
  text, and operations that fail when the list of faults says so. The codec knows the
  journals of a list: the text of a journal is its place in the list.
\<close>

record net_sim = fw_sim +
  nm_text :: "string option"
  nm_resolv :: string

definition faulty :: "'e \<Rightarrow> 'a \<Rightarrow> (net_sim, 'e, 'a) op" where
  "faulty e x w =
     (let w' = w\<lparr>fs_faults := tl (fs_faults w)\<rparr> in
      if fs_faults w \<noteq> [] \<and> hd (fs_faults w) then (Inl e, w') else (Inr x, w'))"

fun place :: "'a list \<Rightarrow> 'a \<Rightarrow> nat option" where
  "place [] x = None"
| "place (y # ys) x = (if x = y then Some 0 else map_option Suc (place ys x))"

lemma place_nth: "place xs x = Some i \<Longrightarrow> i < length xs \<and> xs ! i = x"
  by (induction xs arbitrary: i) (auto split: if_splits)

definition sim_encode :: "recovery_journal list \<Rightarrow> recovery_journal \<Rightarrow> string + string" where
  "sim_encode js j = (case place js j of None \<Rightarrow> Inl ''unknown'' | Some i \<Rightarrow> Inr (replicate i (CHR ''1'')))"

definition sim_decode_journal :: "recovery_journal list \<Rightarrow> string \<Rightarrow> string + recovery_journal" where
  "sim_decode_journal js t = (if length t < length js then Inr (js ! length t) else Inl ''bad text'')"

lemma sim_codec: "sim_encode js j = Inr t \<Longrightarrow> sim_decode_journal js t = Inr j"
  by (auto simp: sim_encode_def sim_decode_journal_def split: option.splits dest: place_nth)

definition sim_journal :: "recovery_journal list \<Rightarrow> net_sim \<Rightarrow> recovery_journal option" where
  "sim_journal js w =
     (case nm_text w of
        None \<Rightarrow> None
      | Some t \<Rightarrow> (case sim_decode_journal js t of Inr j \<Rightarrow> Some j | Inl _ \<Rightarrow> None))"

definition sim_rules_quiet :: "net_sim rule_sys" where
  "sim_rules_quiet =
     \<lparr>rn_add_rule = (\<lambda>_ _. faulty (NetNetlink ''rule'') ()),
      rn_get_rules = (\<lambda>_ w. (([], None), w)),
      rn_del_rule = (\<lambda>_. returnS ())\<rparr>"

definition sim_resolv :: "net_sim dns_sys" where
  "sim_resolv =
     \<lparr>dn_is_file = (\<lambda>_ _. False),
      dn_exec = (\<lambda>_ _ _. throwS ''not found''),
      dn_probe = (\<lambda>_ _ w. (None, w)),
      dn_is_symlink = (\<lambda>_. False),
      dn_link_target = (\<lambda>_. None),
      dn_read_file = (\<lambda>p w. (Inr (nm_resolv w), w)),
      dn_truncate = (\<lambda>p w. (Inr (), w\<lparr>nm_resolv := []\<rparr>)),
      dn_write_all = (\<lambda>p t w. (Inr (), w\<lparr>nm_resolv := t\<rparr>)),
      dn_sleep = (\<lambda>_ w. w),
      dn_order_get = (\<lambda>_. None),
      dn_order_set = (\<lambda>_ w. w)\<rparr>"

definition sim_net :: "recovery_journal list \<Rightarrow> net_sim net_sys" where
  "sim_net js =
     \<lparr>ns_rules = sim_rules_quiet, ns_fw = sim_fw, ns_dns = sim_resolv,
      ns_open = returnS (),
      ns_link_by_name = (\<lambda>n. faulty (NetNetlink ''link'')
        (Some \<lparr>nl_index = 7, nl_layer_none = True, nl_attributes = [NlIfName n]\<rparr>)),
      ns_links = (\<lambda>w. (([], None), w)),
      ns_set_mtu = (\<lambda>_ _. returnS ()), ns_set_up = (\<lambda>_. returnS ()),
      ns_add_address = (\<lambda>_ _ _. faulty (NetNetlink ''address'') ()),
      ns_find_address = (\<lambda>_ _ _. returnS None), ns_del_address = (\<lambda>_. returnS ()),
      ns_build_route = (\<lambda>oif a c t.
        \<lparr>rtm_prefix_len = c, rtm_table = 0, rtm_attributes =
           RtDestination a # (case oif of Some i \<Rightarrow> [RtOif i] | None \<Rightarrow> [])
             @ (case t of Some i \<Rightarrow> [RtTable i] | None \<Rightarrow> [])\<rparr>),
      ns_add_route = (\<lambda>_. faulty (NetNetlink ''route'') ()),
      ns_get_routes = (\<lambda>_ w. (([], None), w)),
      ns_del_route = (\<lambda>_. returnS ()),
      ns_create_dir = returnS (),
      ns_encode_journal = sim_encode js,
      ns_decode_journal = sim_decode_journal js,
      ns_write_journal = (\<lambda>t w. case faulty ''disk'' () w of (Inr _, w') \<Rightarrow> (Inr (), w'\<lparr>nm_text := Some t\<rparr>) | r \<Rightarrow> r),
      ns_read_journal = (\<lambda>w. (case nm_text w of Some t \<Rightarrow> Inr t | None \<Rightarrow> Inl FileNotFound, w)),
      ns_remove_journal = (\<lambda>w. case nm_text w of
          Some t \<Rightarrow> (Inr (), w\<lparr>nm_text := None\<rparr>) | None \<Rightarrow> (Inl FileNotFound, w)),
      ns_encode_report = (\<lambda>_. Inr []), ns_decode_report = (\<lambda>_. Inl []),
      ns_write_report = (\<lambda>_. returnS ()), ns_read_report = throwS FileNotFound,
      ns_remove_report = throwS FileNotFound\<rparr>"

lemmas sim_net_defs = sim_net_def sim_resolv_def sim_rules_quiet_def faulty_def sim_journal_def Let_def

interpretation sim_platform: net_platform "sim_net js" fs_tables "sim_journal js" for js
proof -
  have fw: "ns_fw (sim_net js) = sim_fw" by (simp add: sim_net_def)
  have frame: "net_frame (sim_net js) (\<lambda>w w'. fs_tables w' = fs_tables w \<and> sim_journal js w' = sim_journal js w)"
    by unfold_locales (auto simp: reflp_def transp_def keeps_def sim_net_defs returnS_def throwS_def split: if_splits)
  show "net_platform (sim_net js) fs_tables (sim_journal js)"
  proof (intro net_platform.intro net_platform_axioms.intro frame, unfold fw, rule sim_tables.iptables_axioms)
    show "keeps (\<lambda>w w'. sim_journal js w' = sim_journal js w) (fw_exec sim_fw p a inp)" for p a inp
      by (auto simp: keeps_def sim_fw_def sim_exec_def sim_journal_def Let_def split: if_splits prod.splits)
  qed (auto simp: keeps_def wp_def sim_net_defs returnS_def throwS_def dest: sim_codec
      split: if_splits prod.splits option.splits sum.splits)
qed


subsection \<open>Without faults the application succeeds\<close>

definition calm :: "net_sim \<Rightarrow> bool" where
  "calm w = (bare w ''/usr/sbin/iptables'' \<and> bare w ''/usr/sbin/ip6tables'')"

lemma calm_faults [simp]: "calm w \<Longrightarrow> fs_faults w = []" "calm w \<Longrightarrow> calm (w\<lparr>fs_faults := []\<rparr>)"
  "calm w \<Longrightarrow> calm (w\<lparr>nm_text := t\<rparr>)"
  by (simp_all add: calm_def bare_def)

lemma wp_faulty [simp]: "fs_faults w = [] \<Longrightarrow> wp (faulty e x) Q w = Q (Inr x) (w\<lparr>fs_faults := []\<rparr>)"
  by (simp add: wp_def faulty_def)

lemma sim_net_fields [simp]:
  "ns_create_dir (sim_net js) = returnS ()" "ns_encode_report (sim_net js) r = Inr []"
  "ns_write_report (sim_net js) t = returnS ()" "ns_encode_journal (sim_net js) = sim_encode js"
  "ns_open (sim_net js) = returnS ()" "ns_fw (sim_net js) = sim_fw"
  "ns_add_route (sim_net js) m = faulty (NetNetlink ''route'') ()"
  "ns_rules (sim_net js) = sim_rules_quiet" "ns_links (sim_net js) w = (([], None), w)"
  "ns_get_routes (sim_net js) v6 w = (([], None), w)"
  "ns_set_mtu (sim_net js) i u = returnS ()" "ns_set_up (sim_net js) i = returnS ()"
  "ns_add_address (sim_net js) i a l = faulty (NetNetlink ''address'') ()"
  "ns_link_by_name (sim_net js) n = faulty (NetNetlink ''link'')
     (Some \<lparr>nl_index = 7, nl_layer_none = True, nl_attributes = [NlIfName n]\<rparr>)"
  by (simp_all add: sim_net_def)

lemma sim_journal_write:
  "place js j \<noteq> None \<Longrightarrow> fs_faults w = [] \<Longrightarrow>
   wp (write_recovery_journal (sim_net js) j) Q w = (\<exists>t. sim_encode js j = Inr t
     \<and> Q (Inr ()) (w\<lparr>fs_faults := [], nm_text := Some t\<rparr>))"
  by (auto simp: write_recovery_journal_def wp_rules sim_net_def sim_encode_def map_err_def)
    (simp_all add: wp_def faulty_def)

lemma sim_persist:
  assumes "place js (applying_journal tun plan policy ks) \<noteq> None" "fs_faults w = []"
    and "\<And>t. Q (Inr ()) (c, w\<lparr>fs_faults := [], nm_text := Some t\<rparr>)"
  shows "wp (persist_applying (sim_net js) tun plan policy ks) Q (c, w)"
  using assms sim_journal_write [OF assms(1)]
  by (auto simp: sim_encode_def persist_applying_def persist_applying_recovery_state_def
      write_persisted_apply_report_def write_applying_journal_def applying_journal_def [symmetric]
      wp_rules wp_state map_err_def)

lemma sim_persist_applying:
  assumes "place js (applying_journal tun plan policy ks) \<noteq> None" "calm w"
    and "\<And>w'. calm w' \<Longrightarrow> Q (Inr ()) (c, w')"
  shows "wp (persist_applying (sim_net js) tun plan policy ks) Q (c, w)"
  by (rule sim_persist) (use assms in simp_all)

lemma sim_policy_stage:
  assumes "place js (applying_journal tun plan (Some p) ks) \<noteq> None" "calm w"
  shows "wp (policy_loop (sim_net js) tun plan p ks routes ops) (\<lambda>r s. r = Inr () \<and> calm (snd s)) (c, w)"
  using assms(2)
proof (induction ops arbitrary: c w)
  case (Cons op ops)
  have rule: "wp (apply_policy_rules sim_rules_quiet (pr_fwmark p) (pr_table_id p) v4 v6)
      (\<lambda>r w'. r = Inr () \<and> calm w') w" for v4 v6
    using Cons.prems
    by (simp add: apply_policy_rules_def apply_policy_rules_family_def sim_rules_quiet_def wp_rules)
  show ?case
    unfolding policy_loop.simps wp_withS wp_state sim_net_fields
    by (rule wp_mono [OF rule])
      (auto simp: wp_state reporting_def wp_rules intro!: sim_persist_applying [OF assms(1)] Cons.IH)
qed (simp add: wp_rules)

lemma sim_route_stage:
  assumes "place js (applying_journal tun plan policy ks) \<noteq> None" "calm w"
  shows "wp (route_loop (sim_net js) i tun plan policy ks routes) (\<lambda>r s. r = Inr () \<and> calm (snd s)) (c, w)"
  using assms(2)
proof (induction routes arbitrary: c w)
  case (Cons r routes)
  then show ?case
    by (auto simp: wp_state reporting_def wp_rules intro!: sim_persist_applying [OF assms(1)])
qed (simp add: wp_rules)


lemma sim_configure:
  assumes "calm w"
  shows "wp (configure_link (sim_net js) i iface) (\<lambda>r w'. r = Inr () \<and> calm w') w"
proof -
  have "wp (add_addresses (sim_net js) i as) (\<lambda>r w'. r = Inr () \<and> calm w') w" if "calm w" for as w
    using that by (induction as arbitrary: w) (simp_all add: wp_rules)
  with assms show ?thesis by (simp add: configure_link_def wp_rules split: option.split)
qed

definition calm_kept :: "net_sim \<Rightarrow> net_sim \<Rightarrow> bool" where
  "calm_kept w w' = (calm w \<longrightarrow> calm w')"

lemma calm_kept_simps [simp]: "calm_kept w w" "calm_kept w (w\<lparr>nm_resolv := t\<rparr>)"
  "keeps calm_kept (faulty e x)"
  unfolding calm_kept_def calm_def bare_def keeps_def faulty_def Let_def
  by (simp_all del: calm_faults)

interpretation calm_frame: net_frame "sim_net js" calm_kept for js
  by unfold_locales
    (simp_all add: reflp_def transp_def sim_net_def sim_resolv_def sim_rules_quiet_def,
     simp_all add: keeps_def returnS_def throwS_def, simp_all add: calm_kept_def)

lemma wp_calm_once:
  assumes "keeps calm_kept m" "calm w"
  shows "wp (cleanup_once get put m) (\<lambda>_ s. calm (snd s)) (c, w)"
  by (rule wp_keeps [OF sim_platform.keeps_once [OF calm_frame.reflp calm_frame.transp assms(1)]])
    (use assms(2) in \<open>simp add: on_world_def calm_kept_def\<close>)

lemma armed_simps [simp]: "both_armed w \<Longrightarrow> fs_faults w = []"
  "both_armed w \<Longrightarrow> both_armed (w\<lparr>fs_faults := [], nm_text := t\<rparr>)"
  by (auto simp: both_armed_def armed_def)

lemma sim_dns_finish:
  assumes "place js (running_journal tun st) \<noteq> None" "both_armed w"
    and "if_dns_servers iface = []" "if_dns_search iface = []"
  shows "wp (dns_step (sim_net js) tun plan iface (as_routes st) st) (\<lambda>r s. r = Inr st \<and> both_armed (snd s)) (c, w)"
  using assms sim_journal_write [OF assms(1)]
  by (auto simp: dns_step_def stage_def apply_dns_stage_def finish_apply_def reporting_def persist_running_def
      persist_running_recovery_state_def write_persisted_apply_report_def write_running_journal_def
      running_journal_def [symmetric] sim_encode_def wp_rules wp_state map_err_def)

text \<open>The switch that the stages ask for.\<close>

definition sim_switch :: "string \<Rightarrow> policy_routing \<Rightarrow> kill_switch" where
  "sim_switch tun p = \<lparr>kw_backend = Iptables, kw_tun_name = tun, kw_fwmark = pr_fwmark p,
     kw_ipv4 = True, kw_ipv6 = True\<rparr>"

lemma sim_apply:
  assumes plan: "build_apply_plan cfg plan (report_new PfLinux) = Inr ap" "lp_policy ap = Some p" "pr_v4 p" "pr_v6 p"
    and dns: "if_dns_servers (wc_interface cfg) = []" "if_dns_search (wc_interface cfg) = []"
    and st: "st = (apply_initial tun (wc_interface cfg) ap)\<lparr>as_kill_switch := Some (sim_switch tun p)\<rparr>"
    and js: "place js (applying_journal tun plan (Some p) None) \<noteq> None"
      "place js (applying_journal tun plan (Some p) (Some (sim_switch tun p))) \<noteq> None"
      "place js (running_journal tun st) \<noteq> None"
    and w: "calm w"
  shows "wp (apply_network_config (sim_net js) tun cfg plan True) (\<lambda>r s. r = Inr st \<and> both_armed (snd s)) (c, w)"
proof -
  let ?iface = "wc_interface cfg"
  let ?st = "apply_initial tun ?iface ap"
  have f: "as_policy ?st = Some p" "as_kill_switch ?st = None" "as_routes st = lp_route_ops ap"
    "as_policy st = Some p" "as_kill_switch st = Some (sim_switch tun p)"
    using plan(2) by (simp_all add: st apply_initial_def)
  have ks: "wp (kill_switch_step (sim_net js) tun plan ?iface True (lp_route_ops ap) ?st)
      (\<lambda>r s. r = Inr st \<and> both_armed (snd s)) (c, w)" if "calm w" for c w
  proof -
    have w: "bare w ''/usr/sbin/iptables''" "bare w ''/usr/sbin/ip6tables''" using that by (simp_all add: calm_def)
    have up: "wp (apply_kill_switch sim_fw tun (pr_fwmark p) (pr_v4 p) (pr_v6 p))
       (\<lambda>r w'. both_armed w' \<and> r = Inr (sim_switch tun p)) w"
      using sim_kill_switch [OF w] plan(3,4) by (simp add: sim_switch_def)
    have rest: "wp (dns_step (sim_net js) tun plan ?iface (lp_route_ops ap) st) (\<lambda>r s. r = Inr st \<and> both_armed (snd s)) (c', w')"
      if "both_armed w'" for c' w'
      using sim_dns_finish [OF js(3) that dns] by (simp add: f)
    show ?thesis
      unfolding kill_switch_step_def stage_def apply_kill_switch_stage_def f option.case wp_withS wp_state
        not_True_eq_False if_False sim_net_fields Let_def
      by (rule wp_mono [OF up])
        (auto simp: wp_state reporting_def wp_rules f st [symmetric] intro!: sim_persist [OF js(2)] rest)
  qed
  have route: "wp (stage (sim_net js) tun plan ?st (apply_route_stage (sim_net js) i tun plan (if_table ?iface)
          (Some p) None (lp_route_ops ap)) (\<lambda>_.
      kill_switch_step (sim_net js) tun plan ?iface True (lp_route_ops ap) ?st)) (\<lambda>r s. r = Inr st \<and> both_armed (snd s)) (c, w)"
    if "calm w" for i c w
    unfolding stage_def wp_withS apply_route_stage_def
    by (cases "if_table ?iface = Some RtOff")
      (auto simp: wp_rules that intro!: ks wp_mono [OF sim_route_stage [OF js(1) that]])
  have policy: "wp (stage (sim_net js) tun plan ?st (apply_policy_stage (sim_net js) tun plan (Some p) None
          (lp_policy_rule_ops ap) (lp_route_ops ap)) (\<lambda>_.
      stage (sim_net js) tun plan ?st (apply_route_stage (sim_net js) i tun plan (if_table ?iface)
          (Some p) None (lp_route_ops ap)) (\<lambda>_.
      kill_switch_step (sim_net js) tun plan ?iface True (lp_route_ops ap) ?st))) (\<lambda>r s. r = Inr st \<and> both_armed (snd s)) (c, w)"
    if "calm w" for i c w
    unfolding stage_def [of _ _ _ _ "apply_policy_stage _ _ _ _ _ _ _"] wp_withS
    unfolding apply_policy_stage_def option.case wp_ignoreS cleanup_rules_once_def
  proof (rule wp_mono [OF wp_calm_once [OF calm_frame.keeps_cleanup_rules that]], goal_cases)
    case (1 r s)
    then show ?case
      by (cases s) (auto simp: f intro!: route wp_mono [OF sim_policy_stage [OF js(1)]])
  qed
  show ?thesis
    using plan w
    by (auto simp: apply_network_config_def wp_state reporting_def wp_rules Let_def f apply_stages_def
        link_index_def cleanup_stale_default_routes_once_def
        intro!: sim_persist_applying [OF js(1)] policy wp_mono [OF sim_configure]
          wp_mono [OF wp_calm_once [OF calm_frame.keeps_stale]])
qed

subsection \<open>Without faults the repair succeeds\<close>

definition armed_kept :: "recovery_journal list \<Rightarrow> net_sim \<Rightarrow> net_sim \<Rightarrow> bool" where
  "armed_kept js w w' = (both_armed w \<longrightarrow> both_armed w' \<and> sim_journal js w' = sim_journal js w)"

lemma armed_kept_simps [simp]: "armed_kept js w w" "armed_kept js w (w\<lparr>nm_resolv := t\<rparr>)"
  "keeps (armed_kept js) (faulty e x)"
  unfolding armed_kept_def both_armed_def armed_def keeps_def faulty_def Let_def sim_journal_def
  by (simp_all del: armed_simps)

interpretation armed_frame: net_frame "sim_net js" "armed_kept js" for js
  by unfold_locales
    (simp_all add: reflp_def transp_def sim_net_def sim_resolv_def sim_rules_quiet_def,
     simp_all add: keeps_def returnS_def throwS_def, auto simp: armed_kept_def)

lemma sim_load:
  "sim_journal js w = Some j \<Longrightarrow> wp (load_recovery_journal (sim_net js)) (\<lambda>r w'. r = Inr (Some j) \<and> w' = w) w"
  by (auto simp: sim_journal_def load_recovery_journal_def sim_net_def wp_def withS_def bindS_def map_errS_def
      liftS_def returnS_def split: option.splits sum.splits)

lemma sim_clear: "wp (clear_recovery_journal (sim_net js)) (\<lambda>r _. r = Inr ()) w"
  by (simp add: clear_recovery_journal_def ignore_not_found_def sim_net_def wp_def withS_def returnS_def
      split: option.split)

lemma sim_repair:
  assumes j: "sim_journal js w = Some j" "rj_kill_switch j = Some k" "kw_backend k = Iptables" "rj_dns j = None"
    and w: "both_armed w"
  shows "wp (attempt_startup_repair (sim_net js)) (\<lambda>r _. r = Inr ()) (c, w)"
proof -
  have exact: "journal_requires_exact_cleanup j" by (simp add: journal_requires_exact_cleanup_def j)
  have lift: "wp (cleanup_kill_switch sim_fw k) (\<lambda>r w'. r = Inr ()) w'" if "both_armed w'" for w'
    by (rule wp_mono [OF sim_lift [OF that j(3)]]) simp
  have cleanup: "wp (cleanup_exact_snapshot (sim_net js) (rj_routes j) (rj_policy j)) (\<lambda>_. both_armed) w"
    by (rule wp_keeps [OF armed_frame.keeps_exact]) (use w in \<open>simp add: armed_kept_def\<close>)
  have clear: "wp (clear_recovery_journal (sim_net js)) (\<lambda>r v'. r = Inr ()) w'" for w'
    by (rule sim_clear)
  show ?thesis
    unfolding attempt_startup_repair_def wp_bindS [of "onW (load_recovery_journal _)"] wp_state
  proof (rule wp_mono [OF sim_load [OF j(1)]], goal_cases)
    case (1 r w')
    then show ?case
      by (auto simp: wp_rules wp_state exact j intro!: wp_mono [OF cleanup] wp_mono [OF lift] clear)
  qed
qed

lemma wp_each_ignored: "(\<And>w'. Q (Inr ()) w') \<Longrightarrow> wp (each_ignored f xs) Q w"
  by (induction xs arbitrary: w) (auto simp: wp_rules intro: wp_any)

lemma sim_link_part:
  assumes w: "both_armed w" and dns: "as_dns st = None"
  shows "wp (bindS (returnS ()) (\<lambda>_. cleanup_link_dependent (sim_net js) st)) (\<lambda>r w'. both_armed w' \<and> r = Inr ()) w"
proof (rule wp_conj)
  show "wp (bindS (returnS ()) (\<lambda>_. cleanup_link_dependent (sim_net js) st)) (\<lambda>_. both_armed) w"
    unfolding wp_bindS wp_pure sum.case
    by (rule wp_keeps [OF armed_frame.keeps_link_dependent]) (use w in \<open>simp add: armed_kept_def\<close>)
  show "wp (bindS (returnS ()) (\<lambda>_. cleanup_link_dependent (sim_net js) st)) (\<lambda>r _. r = Inr ()) w"
    using w dns
    by (auto simp: cleanup_link_dependent_def link_index_def wp_rules
        intro!: wp_each_ignored, simp_all add: wp_def)
qed

lemma sim_cleanup_config:
  assumes k: "as_kill_switch st = Some k" "kw_backend k = Iptables" and w: "both_armed w" and dns: "as_dns st = None"
  shows "wp (cleanup_network_config (sim_net js) st) (\<lambda>r _. r = Inr ()) w"
proof -
  have rest: "wp (bindS (clear_recovery_journal (sim_net js)) (\<lambda>_. clear_persisted_apply_report (sim_net js)))
      (\<lambda>r w''. r = Inr ()) w'" for w'
    by (cases "nm_text w'")
      (simp_all add: wp_def clear_recovery_journal_def clear_persisted_apply_report_def ignore_not_found_def
        sim_net_def bindS_def withS_def returnS_def throwS_def)
  show ?thesis
    unfolding cleanup_network_config_def cleanup_network_config_impl_def sim_net_fields k option.case if_True
    unfolding wp_withS
    by (rule wp_mono [OF sim_link_part [OF w dns]], rule wp_mono [OF sim_lift [OF _ k(2)]])
      (simp_all add: merge_cleanup_results_def bindE_def wp_rules rest [unfolded wp_bindS])
qed

end
