(* ===== verification/Net_Apply_Properties.thy ===== *)
theory Net_Apply_Properties
  imports Net_Apply_Sim Config_Sample
begin

text \<open>
  The properties of the Linux pipelines. The host is any that satisfies \<open>net_platform\<close>; the
  witnesses run on \<open>sim_net\<close>, which is interpreted there.
\<close>

subsection \<open>A full tunnel for both families\<close>

definition full_config :: wireguard_config where
  "full_config = sample_config
     \<lparr>wc_interface := (wc_interface sample_config)\<lparr>if_fwmark := Some 51820\<rparr>,
      wc_peers := map (\<lambda>p. p\<lparr>pc_allowed_ips := [AllowedIp (V4 0) 0, AllowedIp (V6 0) 0]\<rparr>)
        (wc_peers sample_config)\<rparr>"

definition full_plan :: route_plan where
  "full_plan = build PfLinux full_config"

definition full_policy :: policy_routing where
  "full_policy = \<lparr>pr_table_id = 200, pr_fwmark = 51820, pr_v4 = True, pr_v6 = True\<rparr>"

definition full_apply :: linux_apply_plan where
  "full_apply =
     \<lparr>lp_route_ops = filter (\<lambda>r. ro_kind r = RkAllowed) (rp_route_ops full_plan),
      lp_policy_rule_ops = rp_policy_rule_ops full_plan, lp_policy = Some full_policy\<rparr>"

definition full_switch :: kill_switch where
  "full_switch = sim_switch ''wg0'' full_policy"

definition full_state :: applied_state where
  "full_state = (apply_initial ''wg0'' (wc_interface full_config) full_apply)
     \<lparr>as_kill_switch := Some full_switch\<rparr>"

definition full_journals :: "recovery_journal list" where
  "full_journals =
     [applying_journal ''wg0'' full_plan (Some full_policy) None,
      applying_journal ''wg0'' full_plan (Some full_policy) (Some full_switch),
      running_journal ''wg0'' full_state]"

definition idle_net :: "bool list \<Rightarrow> net_sim" where
  "idle_net faults = \<lparr>fs_tables = fs_tables bare_tables, fs_faults = faults, nm_text = None,
     nm_resolv = ''nameserver 9.9.9.9''\<rparr>"

definition idle_ctx :: net_ctx where
  "idle_ctx = \<lparr>nc_report = report_new PfLinux, nc_policy_once = 0, nc_stale_once = 0\<rparr>"

lemma full_build: "build_apply_plan full_config full_plan (report_new PfLinux) = Inr full_apply"
proof -
  have "resolve_policy_state full_config full_plan (report_new PfLinux) = Inr (Some full_policy)"
    by code_simp
  then show ?thesis by (simp add: build_apply_plan_def bindE_def full_apply_def)
qed




text \<open>C34: when an application fails, the journal is the one that was there before, or one of this
  tunnel, from which the next start can repair; a journal that is there is never lost. (The
  phase may even be \<open>Running\<close>: writing it can fail after the file was replaced.)\<close>

theorem apply_failure_journaled:
  assumes "net_platform sys tables journal"
    and "apply_network_config sys tun cfg plan enabled (c, w) = (Inl e, (c', w'))"
  shows "journal w' = journal w
    \<or> (\<exists>policy ks. journal w' = Some (applying_journal tun plan policy ks))
    \<or> (\<exists>st. journal w' = Some (running_journal tun st))"
proof -
  have "net_platform.applied tables journal tun cfg plan enabled (journal w) (Inl e) (c', w')"
    by (rule wpD [OF net_platform.wp_apply_network_config [OF assms(1)] assms(2)])
  then show ?thesis
    unfolding net_platform.applied_def [OF assms(1)] net_platform.left_behind_def [OF assms(1)] by auto
qed

text \<open>The link cannot be looked up: the error comes back without a rollback, the report does not
  say that the application failed, and the journal stays.\<close>

lemma wp_faults: "wp (faulty e x) Q w =
   (let w' = w\<lparr>fs_faults := tl (fs_faults w)\<rparr> in
    if fs_faults w \<noteq> [] \<and> hd (fs_faults w) then Q (Inl e) w' else Q (Inr x) w')"
  by (simp add: wp_def faulty_def Let_def)

lemma unlinked_run:
  "wp (apply_network_config (sim_net full_journals) ''wg0'' full_config full_plan True)
     (\<lambda>r s. r = Inl (NetNetlink ''link'') \<and> rr_attempt_state (nc_report (fst s)) = Applying
        \<and> nm_text (snd s) = Some [])
     (idle_ctx, idle_net [False, True])"
proof -
  let ?J = "applying_journal ''wg0'' full_plan (Some full_policy) None"
  have J: "ns_encode_journal (sim_net full_journals) ?J = Inr []"
    by (simp add: sim_encode_def full_journals_def)
  have disk: "wp (ns_write_journal (sim_net full_journals) t) Q w =
      wp (faulty ''disk'' ()) (\<lambda>r w'. Q r (if is_ok r then w'\<lparr>nm_text := Some t\<rparr> else w')) w" for t Q w
    by (simp add: sim_net_def wp_def faulty_def Let_def)
  have p: "lp_policy full_apply = Some full_policy" by (simp add: full_apply_def)
  have new: "rr_attempt_state (report_new PfLinux) = Applying" by (simp add: report_new_def)
  show ?thesis
    by (simp add: apply_network_config_def reporting_def wp_state wp_rules full_build Let_def p
        apply_initial_def persist_applying_def persist_applying_recovery_state_def
        write_persisted_apply_report_def write_applying_journal_def applying_journal_def [symmetric]
        write_recovery_journal_def map_err_def J [simplified] disk wp_faults idle_net_def
        apply_stages_def link_index_def new)
qed


theorem apply_failure_journaled_witness:
  "\<exists>c' w'. apply_network_config (sim_net full_journals) ''wg0'' full_config full_plan True
       (idle_ctx, idle_net [False, True]) = (Inl (NetNetlink ''link''), (c', w'))
     \<and> rj_tun_name (the (sim_journal full_journals w')) = ''wg0'' \<and> sim_journal full_journals w' \<noteq> None"
proof -
  let ?a = "apply_network_config (sim_net full_journals) ''wg0'' full_config full_plan True
    (idle_ctx, idle_net [False, True])"
  obtain r c' w' where a: "?a = (r, (c', w'))" by (metis surj_pair)
  from wpD [OF unlinked_run a] have r: "r = Inl (NetNetlink ''link'')" "nm_text w' = Some []" by simp_all
  have "sim_journal full_journals w' \<noteq> sim_journal full_journals (idle_net [False, True])"
    using r(2) by (simp add: sim_journal_def sim_decode_journal_def full_journals_def idle_net_def)
  with apply_failure_journaled [OF sim_platform.net_platform_axioms a [unfolded r(1)]]
  show ?thesis using a r(1) by (auto simp: applying_journal_def running_journal_def)
qed

text \<open>What a service leaves that dies with the kill switch up and journaled.\<close>

definition left_net :: net_sim where
  "left_net = \<lparr>fs_tables = fs_tables guarded_tables, fs_faults = [], nm_text = Some ''1'',
     nm_resolv = ''nameserver 9.9.9.9''\<rparr>"

lemma left_net_armed: "both_armed left_net"
  by (simp add: both_armed_def armed_def left_net_def guarded_tables_def jump_def IPTABLES_CHAIN_NAME_def)

lemma left_net_journal: "sim_journal full_journals left_net
    = Some (applying_journal ''wg0'' full_plan (Some full_policy) (Some full_switch))"
  by (simp add: sim_journal_def left_net_def sim_decode_journal_def full_journals_def)

text \<open>A successful cleanup has removed the journal and lifted the kill switch of the state;
  a failed one has either not touched the journal or removed it.\<close>

theorem cleanup_clears:
  assumes "net_platform sys tables journal"
    and "cleanup_network_config sys st w = (r, w')"
  shows "(journal w' = journal w \<or> journal w' = None)
    \<and> (r = Inr () \<longrightarrow> journal w' = None
         \<and> (\<forall>k. as_kill_switch st = Some k \<and> kw_backend k = Iptables \<longrightarrow>
              (kw_ipv4 k \<longrightarrow> (\<exists>p. path_of ''iptables'' p
                 \<and> without_chain IPTABLES_CHAIN_NAME (tables w' p)))
            \<and> (kw_ipv6 k \<longrightarrow> (\<exists>p. path_of ''ip6tables'' p
                 \<and> without_chain IPTABLES_CHAIN_NAME (tables w' p)))))"
  using wpD [OF net_platform.wp_cleanup [OF assms(1)] assms(2)]
  unfolding net_platform.freed_by_def [OF assms(1)]
    iptables.freed_families_def [OF net_platform.axioms(1) [OF assms(1)]]
  by auto

theorem cleanup_clears_witness:
  "sim_journal full_journals (snd (cleanup_network_config (sim_net full_journals) full_state left_net)) = None
   \<and> sim_journal full_journals left_net \<noteq> None"
proof -
  let ?a = "cleanup_network_config (sim_net full_journals) full_state left_net"
  have a: "?a = (fst ?a, snd ?a)" by simp
  have k: "as_kill_switch full_state = Some full_switch" "kw_backend full_switch = Iptables"
    by (simp_all add: full_state_def full_switch_def sim_switch_def)
  have "wp (cleanup_network_config (sim_net full_journals) full_state) (\<lambda>r _. r = Inr ()) left_net"
    by (rule sim_cleanup_config [OF k]) (simp_all add: left_net_armed full_state_def apply_initial_def)
  from wpD [OF this a] a have "?a = (Inr (), snd ?a)" by simp
  from cleanup_clears [OF sim_platform.net_platform_axioms this] show ?thesis
    by (simp add: left_net_journal)
qed









end
