(* ===== verification/Storage.thy ===== *)
theory Storage
  imports Op_Logic Rust_Str
begin

text \<open>
  \<open>storage\<close>: the atomic replacement of a file (\<open>atomic.rs\<close>), the repositories of
  configuration texts and of the JSON state, and the directories of the application. The
  calls of the file system are the operations of \<open>fs_sys\<close>; a path is the list of its
  components.
\<close>

type_synonym path = "string list"

datatype io_error = IoNotFound | IoAlreadyExists | IoOther string

record 'w fs_sys =
  fz_windows :: bool
  fz_pid :: "'w \<Rightarrow> nat"
  fz_fetch_add :: "'w \<Rightarrow> nat \<times> 'w"
  fz_create_new :: "path \<Rightarrow> nat \<Rightarrow> ('w, io_error, unit) op"
  fz_write_all :: "path \<Rightarrow> string \<Rightarrow> ('w, io_error, unit) op"
  fz_sync_all :: "path \<Rightarrow> ('w, io_error, unit) op"
  fz_rename :: "path \<Rightarrow> path \<Rightarrow> ('w, io_error, unit) op"
  fz_is_file :: "path \<Rightarrow> 'w \<Rightarrow> bool"
  fz_remove_file :: "path \<Rightarrow> ('w, io_error, unit) op"
  fz_sync_dir :: "path \<Rightarrow> ('w, io_error, unit) op"
  fz_read :: "path \<Rightarrow> ('w, io_error, string) op"
  fz_create_dir_all :: "path \<Rightarrow> ('w, io_error, unit) op"
  fz_set_mode :: "path \<Rightarrow> nat \<Rightarrow> ('w, io_error, unit) op"

subsection \<open>\<open>atomic.rs\<close>\<close>

definition file_name :: "path \<Rightarrow> string option" where
  "file_name p = (if p = [] then None else Some (last p))"

definition parent :: "path \<Rightarrow> path option" where
  "parent p = (if p = [] then None else Some (butlast p))"

definition temp_name :: "path \<Rightarrow> nat \<Rightarrow> nat \<Rightarrow> string" where
  "temp_name p pid counter =
     ''.'' @ (case file_name p of Some n \<Rightarrow> n | None \<Rightarrow> ''atomic'') @ ''.'' @ show_nat pid @ ''.''
     @ show_nat counter @ ''.tmp''"

definition unique_temp_path :: "'w fs_sys \<Rightarrow> path \<Rightarrow> 'w \<Rightarrow> path \<times> 'w" where
  "unique_temp_path sys p w =
     (case fz_fetch_add sys w of (n, w') \<Rightarrow> (butlast p @ [temp_name p (fz_pid sys w') n], w'))"

definition write_temp_file ::
  "'w fs_sys \<Rightarrow> path \<Rightarrow> string \<Rightarrow> nat \<Rightarrow> ('w, io_error, unit) op" where
  "write_temp_file sys tmp contents mode =
     bindS (fz_create_new sys tmp mode) (\<lambda>_.
     bindS (fz_write_all sys tmp contents) (\<lambda>_.
     fz_sync_all sys tmp))"

definition commit_temp_file :: "'w fs_sys \<Rightarrow> path \<Rightarrow> path \<Rightarrow> ('w, io_error, unit) op" where
  "commit_temp_file sys tmp p =
     withS (fz_rename sys tmp p) (\<lambda>r. askS (\<lambda>w. case r of
       Inr _ \<Rightarrow> returnS ()
     | Inl e \<Rightarrow>
         if fz_windows sys \<and> e = IoAlreadyExists \<and> fz_is_file sys p w
         then bindS (fz_remove_file sys p) (\<lambda>_. fz_rename sys tmp p)
         else throwS e))"

definition sync_parent_dir :: "'w fs_sys \<Rightarrow> path \<Rightarrow> ('w, io_error, unit) op" where
  "sync_parent_dir sys p = (case parent p of Some d \<Rightarrow> fz_sync_dir sys d | None \<Rightarrow> returnS ())"

definition write_atomic_with_options ::
  "'w fs_sys \<Rightarrow> path \<Rightarrow> string \<Rightarrow> nat \<Rightarrow> ('w, io_error, unit) op" where
  "write_atomic_with_options sys p contents mode w =
     (case unique_temp_path sys p w of (tmp, w') \<Rightarrow>
       withS (bindS (write_temp_file sys tmp contents mode) (\<lambda>_.
              bindS (commit_temp_file sys tmp p) (\<lambda>_.
              sync_parent_dir sys p)))
         (\<lambda>r. if is_ok r then liftS r else ignoreS (fz_remove_file sys tmp) (liftS r)) w')"

definition write_atomic :: "'w fs_sys \<Rightarrow> path \<Rightarrow> string \<Rightarrow> ('w, io_error, unit) op" where
  "write_atomic sys p contents = write_atomic_with_options sys p contents 384"

definition write_atomic_with_mode ::
  "'w fs_sys \<Rightarrow> path \<Rightarrow> string \<Rightarrow> nat \<Rightarrow> ('w, io_error, unit) op" where
  "write_atomic_with_mode sys p contents mode = write_atomic_with_options sys p contents mode"

subsection \<open>The repositories\<close>

definition read_text :: "'w fs_sys \<Rightarrow> path \<Rightarrow> ('w, io_error, string) op" where
  "read_text sys p = fz_read sys p"

definition write_text :: "'w fs_sys \<Rightarrow> path \<Rightarrow> string \<Rightarrow> ('w, io_error, unit) op" where
  "write_text sys p text = write_atomic sys p text"

fun delete_files :: "'w fs_sys \<Rightarrow> path list \<Rightarrow> ('w, io_error, unit) op" where
  "delete_files sys [] = returnS ()"
| "delete_files sys (p # ps) =
     withS (fz_remove_file sys p) (\<lambda>r. case r of
       Inr _ \<Rightarrow> delete_files sys ps
     | Inl e \<Rightarrow> if e = IoNotFound then delete_files sys ps else throwS e)"

datatype state_error = StRead io_error | StParse string | StSerialize string | StWrite io_error

definition load_json ::
  "'w fs_sys \<Rightarrow> (string \<Rightarrow> string + 'a) \<Rightarrow> path \<Rightarrow> ('w, state_error, 'a option) op" where
  "load_json sys from_str p =
     withS (fz_read sys p) (\<lambda>r. case r of
       Inl e \<Rightarrow> if e = IoNotFound then returnS None else throwS (StRead e)
     | Inr text \<Rightarrow> (case from_str text of Inl e \<Rightarrow> throwS (StParse e) | Inr x \<Rightarrow> returnS (Some x)))"

definition save_json ::
  "'w fs_sys \<Rightarrow> ('a \<Rightarrow> string + string) \<Rightarrow> path \<Rightarrow> 'a \<Rightarrow> ('w, state_error, unit) op" where
  "save_json sys to_vec p x =
     (case to_vec x of
        Inl e \<Rightarrow> throwS (StSerialize e)
      | Inr data \<Rightarrow> map_errS StWrite (write_atomic sys p data))"

subsection \<open>The directories of the application\<close>

record storage_paths =
  sp_root :: path
  sp_configs_dir :: path
  sp_state_path :: path

definition config_path :: "storage_paths \<Rightarrow> nat \<Rightarrow> path" where
  "config_path s i = sp_configs_dir s @ [show_nat i @ ''.conf'']"

definition ensure_private_dir :: "'w fs_sys \<Rightarrow> path \<Rightarrow> ('w, io_error, unit) op" where
  "ensure_private_dir sys p =
     bindS (fz_create_dir_all sys p) (\<lambda>_.
     if fz_windows sys then returnS () else fz_set_mode sys p 448)"

fun show_io_error :: "io_error \<Rightarrow> string" where
  "show_io_error IoNotFound = ''No such file or directory''"
| "show_io_error IoAlreadyExists = ''File exists''"
| "show_io_error (IoOther m) = m"

definition ensure_app_storage_dirs_at ::
  "'w fs_sys \<Rightarrow> path \<Rightarrow> ('w, string, storage_paths) op" where
  "ensure_app_storage_dirs_at sys root =
     (let s = \<lparr>sp_root = root, sp_configs_dir = root @ [''configs''], sp_state_path = root @ [''state.json'']\<rparr> in
      bindS (map_errS (\<lambda>e. ''Create storage root failed: '' @ show_io_error e) (ensure_private_dir sys root)) (\<lambda>_.
      bindS (map_errS (\<lambda>e. ''Create configs dir failed: '' @ show_io_error e)
        (ensure_private_dir sys (sp_configs_dir s))) (\<lambda>_.
      returnS s)))"

definition ensure_app_storage_dirs ::
  "'w fs_sys \<Rightarrow> path option \<Rightarrow> ('w, string, storage_paths) op" where
  "ensure_app_storage_dirs sys data_dir =
     bindS (liftS (case data_dir of Some d \<Rightarrow> Inr (d @ [''r-wg'']) | None \<Rightarrow> Inl ''No data directory available''))
       (\<lambda>root. ensure_app_storage_dirs_at sys root)"

subsection \<open>A file system\<close>

locale file_system =
  fixes sys :: "'w fs_sys" and content :: "'w \<Rightarrow> path \<Rightarrow> string option"
  assumes fetch_add: "content (snd (fz_fetch_add sys w)) = content w"
    and create_new: "wp (fz_create_new sys p m) (\<lambda>r w'. content w'
        = (if is_ok r then (content w)(p \<mapsto> []) else content w) \<and> (is_ok r \<longrightarrow> content w p = None)) w"
    and write_all: "wp (fz_write_all sys p t) (\<lambda>r w'. (\<forall>q. q \<noteq> p \<longrightarrow> content w' q = content w q)
        \<and> (is_ok r \<longrightarrow> content w' p = map_option (\<lambda>s. s @ t) (content w p))) w"
    and sync_all: "wp (fz_sync_all sys p) (\<lambda>r w'. content w' = content w) w"
    and sync_dir: "wp (fz_sync_dir sys p) (\<lambda>r w'. content w' = content w) w"
    and rename: "wp (fz_rename sys p q) (\<lambda>r w'. content w'
        = (if is_ok r then (content w)(p := None, q := content w p) else content w)) w"
    and remove_file: "wp (fz_remove_file sys p) (\<lambda>r w'. content w'
        = (if is_ok r then (content w)(p := None) else content w) \<and> (r = Inl IoNotFound \<longrightarrow> content w p = None)) w"
    and read: "wp (fz_read sys p) (\<lambda>r w'. content w' = content w
        \<and> (\<forall>t. r = Inr t \<longrightarrow> content w p = Some t) \<and> (r = Inl IoNotFound \<longrightarrow> content w p = None)) w"
begin

text \<open>What a write may leave at the target, at the temporary file and elsewhere.\<close>

definition replaced :: "path \<Rightarrow> path \<Rightarrow> string \<Rightarrow> 'w \<Rightarrow> bool \<Rightarrow> 'w \<Rightarrow> bool" where
  "replaced tmp p t w ok w' =
     ((\<forall>q. q \<noteq> p \<longrightarrow> q \<noteq> tmp \<longrightarrow> content w' q = content w q)
    \<and> (if ok then content w' p = Some t \<and> content w' tmp = None
       else content w' p = content w p \<or> content w' p = Some t \<or> (fz_windows sys \<and> content w' p = None)))"

lemma wp_temp:
  "tmp \<noteq> p \<Longrightarrow> wp (write_temp_file sys tmp t m) (\<lambda>r w'. (\<forall>q. q \<noteq> tmp \<longrightarrow> content w' q = content w q)
     \<and> (is_ok r \<longrightarrow> content w' tmp = Some t)) w"
  unfolding write_temp_file_def wp_bindS
proof (rule wp_mono [OF create_new], goal_cases)
  case (1 r w1)
  show ?case
  proof (cases r)
    case (Inr u)
    note w1 = 1 [unfolded Inr]
    show ?thesis
      unfolding Inr sum.case
    proof (rule wp_mono [OF write_all], goal_cases)
      case (1 r2 w2)
      then show ?case
        by (cases r2) (use w1 in \<open>auto intro!: wp_mono [OF sync_all]\<close>)
    qed
  qed (use 1 in auto)
qed

lemma wp_commit:
  assumes "tmp \<noteq> p" "content w tmp = Some t"
  shows "wp (commit_temp_file sys tmp p) (\<lambda>r w'. replaced tmp p t w (is_ok r) w') w"
  unfolding commit_temp_file_def wp_withS
proof (rule wp_mono [OF rename], goal_cases)
  case (1 r w1)
  show ?case
  proof (cases r)
    case (Inl e)
    have again: "wp (bindS (fz_remove_file sys p) (\<lambda>_. fz_rename sys tmp p))
        (\<lambda>r w'. replaced tmp p t w (is_ok r) w') w1" if win: "fz_windows sys"
      unfolding wp_bindS
    proof (rule wp_mono [OF remove_file], goal_cases)
      case (1 r2 w2)
      with \<open>content w1 = _\<close> Inl win assms show ?case
        by (cases r2) (auto simp: replaced_def intro!: wp_mono [OF rename])
    qed
    show ?thesis
    proof (cases "fz_windows sys \<and> e = IoAlreadyExists \<and> fz_is_file sys p w1")
      case True
      then show ?thesis unfolding Inl wp_askS sum.case if_P [OF True] by (intro again) simp
    next
      case False
      show ?thesis
        unfolding Inl wp_askS sum.case if_not_P [OF False] wp_pure using 1 Inl by (simp add: replaced_def)
    qed
  next
    case (Inr u)
    with 1 assms show ?thesis by (auto simp: wp_askS wp_rules replaced_def)
  qed
qed

lemma temp_name_longer: "file_name p = Some n \<Longrightarrow> temp_name p pid c \<noteq> n"
  by (rule notI, drule arg_cong [where f = length]) (simp add: temp_name_def)

lemma temp_differs: "fst (unique_temp_path sys p w) \<noteq> p"
proof -
  obtain n w' where "fz_fetch_add sys w = (n, w')" by fastforce
  then have u: "fst (unique_temp_path sys p w) = butlast p @ [temp_name p (fz_pid sys w') n]"
    by (simp add: unique_temp_path_def)
  have "butlast p @ [temp_name p (fz_pid sys w') n] \<noteq> p"
  proof (cases "p = []")
    case False
    then have "temp_name p (fz_pid sys w') n \<noteq> last p"
      by (intro temp_name_longer) (simp add: file_name_def)
    then show ?thesis by (metis last_snoc)
  qed simp
  with u show ?thesis by simp
qed

lemma wp_write_atomic:
  "wp (write_atomic_with_options sys p t m) (\<lambda>r w'. replaced (fst (unique_temp_path sys p w)) p t w (is_ok r) w') w"
proof -
  obtain tmp w0 where u: "unique_temp_path sys p w = (tmp, w0)" by fastforce
  have ne: "tmp \<noteq> p" using temp_differs [of p w] u by simp
  have w0: "content w0 = content w"
    using u fetch_add [of w] by (auto simp: unique_temp_path_def split: prod.splits)
  let ?body = "bindS (write_temp_file sys tmp t m) (\<lambda>_. bindS (commit_temp_file sys tmp p) (\<lambda>_. sync_parent_dir sys p))"
  have sync: "wp (sync_parent_dir sys p) (\<lambda>r w'. content w' = content w1) w1" for w1
    by (auto simp: sync_parent_dir_def wp_rules sync_dir split: option.split)
  have body: "wp ?body (\<lambda>r w'. replaced tmp p t w (is_ok r) w') w0"
    unfolding wp_bindS [of "write_temp_file sys tmp t m"]
  proof (rule wp_mono [OF wp_temp [OF ne]], goal_cases)
    case (1 r w1)
    show ?case
    proof (cases r)
      case (Inl e)
      with 1 w0 ne show ?thesis by (simp add: replaced_def)
    next
      case (Inr x)
      with 1 have tmp: "content w1 tmp = Some t" by simp
      show ?thesis
        unfolding Inr sum.case wp_bindS
      proof (rule wp_mono [OF wp_commit [OF ne tmp]], goal_cases)
        case (1 r2 w2)
        have r2: "replaced tmp p t w (is_ok r2) w2"
          using 1 \<open>(\<forall>q. _) \<and> _\<close> w0 ne by (auto simp: replaced_def split: if_splits)
        show ?case
        proof (cases r2)
          case (Inr y)
          then show ?thesis
            using r2 by (auto simp: replaced_def split: if_splits intro!: wp_mono [OF sync])
        qed (use r2 in simp)
      qed
    qed
  qed
  have "wp (withS ?body (\<lambda>r. if is_ok r then liftS r else ignoreS (fz_remove_file sys tmp) (liftS r)))
      (\<lambda>r w'. replaced tmp p t w (is_ok r) w') w0"
    unfolding wp_withS
  proof (rule wp_mono [OF body], goal_cases)
    case (1 r w1)
    then show ?case
      using ne by (auto simp: wp_rules replaced_def intro!: wp_mono [OF remove_file])
  qed
  then show ?thesis by (simp add: write_atomic_with_options_def u wp_def)
qed

lemma wp_delete:
  "wp (delete_files sys ps) (\<lambda>r w'. (\<forall>q. q \<notin> set ps \<longrightarrow> content w' q = content w q)
     \<and> (\<forall>q. content w' q = content w q \<or> content w' q = None)
     \<and> (is_ok r \<longrightarrow> (\<forall>q \<in> set ps. content w' q = None))) w"
proof (induction ps arbitrary: w)
  case (Cons p ps)
  show ?case
    unfolding delete_files.simps wp_withS
  proof (rule wp_mono [OF remove_file], goal_cases)
    case (1 r w1)
    have next_one: "wp (delete_files sys ps) (\<lambda>r w'. (\<forall>q. q \<notin> set (p # ps) \<longrightarrow> content w' q = content w q)
       \<and> (\<forall>q. content w' q = content w q \<or> content w' q = None)
       \<and> (is_ok r \<longrightarrow> (\<forall>q \<in> set (p # ps). content w' q = None))) w1"
      if "content w1 = (content w)(p := None)"
    proof (rule wp_mono [OF Cons.IH], goal_cases)
      case (1 r w')
      have w1: "content w1 q = (if q = p then None else content w q)" for q using that by simp
      from 1 show ?case unfolding w1 by (simp, metis)
    qed
    show ?case
    proof (cases r)
      case (Inl e)
      with 1 next_one show ?thesis by (auto simp: wp_rules fun_upd_idem)
    next
      case (Inr u)
      with 1 next_one show ?thesis by simp
    qed
  qed
qed (simp add: wp_rules)

end

subsection \<open>A disk with faults\<close>

record disk =
  dk_files :: "path \<Rightarrow> string option"
  dk_counter :: nat
  dk_faults :: "bool list"

text \<open>Each call takes a fault from the list; one that fails leaves the files as \<open>bad\<close> says.\<close>

definition disk_call :: "io_error \<Rightarrow> (disk \<Rightarrow> disk) \<Rightarrow> ('a \<times> disk) \<Rightarrow> disk \<Rightarrow> (io_error + 'a) \<times> disk" where
  "disk_call e bad good w =
     (if dk_faults w \<noteq> [] \<and> hd (dk_faults w)
      then (Inl e, (bad w)\<lparr>dk_faults := tl (dk_faults w)\<rparr>)
      else (Inr (fst good), (snd good)\<lparr>dk_faults := tl (dk_faults w)\<rparr>))"

definition put :: "path \<Rightarrow> string option \<Rightarrow> disk \<Rightarrow> disk" where
  "put p t w = w\<lparr>dk_files := (dk_files w)(p := t)\<rparr>"

definition full :: io_error where
  "full = IoOther ''No space left on device''"

definition disk_sys :: "bool \<Rightarrow> disk fs_sys" where
  "disk_sys windows =
     \<lparr>fz_windows = windows, fz_pid = (\<lambda>_. 7),
      fz_fetch_add = (\<lambda>w. (dk_counter w, w\<lparr>dk_counter := Suc (dk_counter w)\<rparr>)),
      fz_create_new = (\<lambda>p _ w. if dk_files w p \<noteq> None then (Inl IoAlreadyExists, w)
        else disk_call full id ((), put p (Some []) w) w),
      fz_write_all = (\<lambda>p t w. case dk_files w p of
          None \<Rightarrow> (Inl IoNotFound, w)
        | Some s \<Rightarrow> disk_call full (put p (Some (s @ take 1 t))) ((), put p (Some (s @ t)) w) w),
      fz_sync_all = (\<lambda>_ w. disk_call full id ((), w) w),
      fz_rename = (\<lambda>p q w. if p = q then (Inl full, w)
        else disk_call IoAlreadyExists id ((), put q (dk_files w p) (put p None w)) w),
      fz_is_file = (\<lambda>p w. dk_files w p \<noteq> None),
      fz_remove_file = (\<lambda>p w. if dk_files w p = None then (Inl IoNotFound, w)
        else disk_call full id ((), put p None w) w),
      fz_sync_dir = (\<lambda>_ w. disk_call full id ((), w) w),
      fz_read = (\<lambda>p w. case dk_files w p of None \<Rightarrow> (Inl IoNotFound, w) | Some t \<Rightarrow> disk_call full id (t, w) w),
      fz_create_dir_all = (\<lambda>_ w. disk_call full id ((), w) w),
      fz_set_mode = (\<lambda>_ _ w. disk_call full id ((), w) w)\<rparr>"

lemma put_files [simp]: "dk_files (put p t w) = (dk_files w)(p := t)"
  by (simp add: put_def)

interpretation disk_fs: file_system "disk_sys windows" dk_files for windows
  by unfold_locales
    (auto simp: disk_sys_def wp_def disk_call_def full_def split: option.split)

end
