(* ===== verification/Storage_Properties.thy ===== *)
theory Storage_Properties
  imports Storage
begin

text \<open>
  The properties of the storage layer, over every file system that satisfies \<open>file_system\<close>;
  the witnesses run on \<open>disk_sys\<close>.
\<close>

definition disk_with :: "bool list \<Rightarrow> disk" where
  "disk_with faults = \<lparr>dk_files = [[''state.json''] \<mapsto> ''old''], dk_counter = 0, dk_faults = faults\<rparr>"

text \<open>C38: outside Windows a write is all or nothing: afterwards the file has the new text, and that
  only, if the write succeeded, and the new or the old text if it failed; no other file than
  the temporary one changes, and a success leaves none.\<close>

theorem write_is_atomic:
  assumes "file_system sys content" "\<not> fz_windows sys"
    and "write_atomic_with_options sys p text mode w = (r, w')"
  shows "(if is_ok r then content w' p = Some text \<and> content w' (fst (unique_temp_path sys p w)) = None
      else content w' p = Some text \<or> content w' p = content w p)
    \<and> (\<forall>q. q \<noteq> p \<and> q \<noteq> fst (unique_temp_path sys p w) \<longrightarrow> content w' q = content w q)"
  using wpD [OF file_system.wp_write_atomic [OF assms(1)] assms(3)] assms(2)
  unfolding file_system.replaced_def [OF assms(1)] by (auto split: if_splits)

text \<open>The disk is full in the middle of the temporary file.\<close>

theorem write_is_atomic_witness:
  "\<not> is_ok (fst (write_atomic (disk_sys False) [''state.json''] ''new'' (disk_with [False, True])))
   \<and> dk_files (snd (write_atomic (disk_sys False) [''state.json''] ''new'' (disk_with [False, True])))
       [''state.json''] = Some ''old''"
proof -
  let ?a = "write_atomic_with_options (disk_sys False) [''state.json''] ''new'' 384 (disk_with [False, True])"
  have f: "fst ?a = Inl full" by code_simp
  have "?a = (Inl full, snd ?a)" using f by (metis prod.collapse)
  note this [THEN write_is_atomic [OF disk_fs.file_system_axioms, rotated]]
  then have "dk_files (snd ?a) [''state.json''] = Some ''new'' \<or> dk_files (snd ?a) [''state.json''] = Some ''old''"
    by (simp add: disk_sys_def disk_with_def)
  moreover have "dk_files (snd ?a) [''state.json''] \<noteq> Some ''new''" by code_simp
  ultimately show ?thesis using f by (simp add: write_atomic_def)
qed

text \<open>On Windows a rename that reports an existing file is tried again after the file was removed;
  when that fails too, neither the old nor the new text is there.\<close>

lemma windows_write_loses_file:
  "\<not> is_ok (fst (write_atomic (disk_sys True) [''state.json''] ''new''
       (disk_with [False, False, False, True, False, True])))
   \<and> dk_files (snd (write_atomic (disk_sys True) [''state.json''] ''new''
       (disk_with [False, False, False, True, False, True]))) [''state.json''] = None"
    by (intro conjI) code_simp+

text \<open>A state that was saved is the state that is loaded, when the codec reads what it writes.\<close>

theorem state_round_trip:
  assumes "file_system sys content" "\<forall>x t. to_vec x = Inr t \<longrightarrow> from_str t = Inr x"
    and "save_json sys to_vec p x w = (Inr (), w1)" "load_json sys from_str p w1 = (Inr y, w2)"
  shows "y = Some x"
proof -
  obtain t where t: "to_vec x = Inr t" "write_atomic sys p t w = (Inr (), w1)"
    using assms(3) by (auto simp: save_json_def map_errS_Inr_eq split: sum.splits)
  have "content w1 p = Some t"
    using wpD [OF file_system.wp_write_atomic [OF assms(1)] t(2) [unfolded write_atomic_def]]
    unfolding file_system.replaced_def [OF assms(1)] by simp
  obtain r w' where rd: "fz_read sys p w1 = (r, w')" by fastforce
  note R = wpD [OF file_system.read [OF assms(1)] rd]
  show ?thesis
    using assms(2,4) t(1) rd R \<open>content w1 p = Some t\<close>
    by (cases r) (auto simp: load_json_def withS_def split: if_splits sum.splits)
qed

theorem state_round_trip_witness:
  "load_json (disk_sys False) (\<lambda>t. Inr t) [''state.json'']
     (snd (save_json (disk_sys False) (\<lambda>t. Inr t) [''state.json''] ''new'' (disk_with [])))
   = (Inr (Some ''new''), snd (load_json (disk_sys False) (\<lambda>t. Inr t) [''state.json'']
       (snd (save_json (disk_sys False) (\<lambda>t. Inr t) [''state.json''] ''new'' (disk_with [])))))"
proof -
  let ?s = "save_json (disk_sys False) (\<lambda>t. Inr t) [''state.json''] ''new'' (disk_with [])"
  let ?l = "load_json (disk_sys False) (\<lambda>t. Inr t :: string + string) [''state.json''] (snd ?s)"
  have "fst ?s = Inr ()" by code_simp
  then have s: "?s = (Inr (), snd ?s)" by (metis prod.collapse)
  have "is_ok (fst ?l)" by code_simp
  then obtain y where l: "?l = (Inr y, snd ?l)" by (cases "fst ?l") (simp, metis prod.collapse)
  have "y = Some ''new''" by (rule state_round_trip [OF disk_fs.file_system_axioms _ s l]) simp
  with l show ?thesis by simp
qed

text \<open>Deleting files deletes all of them or reports an error, never touches any other file and
  does not mind the ones that are missing.\<close>

theorem delete_files_exact:
  assumes "file_system sys content" "delete_files sys ps w = (r, w')"
  shows "(\<forall>q. q \<notin> set ps \<longrightarrow> content w' q = content w q)
    \<and> (is_ok r \<longrightarrow> (\<forall>q \<in> set ps. content w' q = None))"
  using wpD [OF file_system.wp_delete [OF assms(1)] assms(2)] by simp

theorem delete_files_witness:
  "dk_files (snd (delete_files (disk_sys False) [[''missing''], [''state.json'']] (disk_with []))) [''state.json''] = None"
proof -
  let ?d = "delete_files (disk_sys False) [[''missing''], [''state.json'']] (disk_with [])"
  have "is_ok (fst ?d)" by code_simp
  moreover have "?d = (fst ?d, snd ?d)" by simp
  ultimately show ?thesis using delete_files_exact [OF disk_fs.file_system_axioms [of False]] by fastforce
qed

end
