(* ===== verification/Reachability.thy ===== *)
theory Reachability
  imports Cidr Op_Logic
begin

text \<open>
  \<open>backend/wg/tools/reachability.rs\<close>: the normalisation of a target, the choice of the
  addresses and the attempts. Resolving and connecting under the timeout of the runtime are
  the operations of \<open>reach_sys\<close>.
\<close>

datatype reach_mode = ResolveOnly | TcpConnect
datatype family_preference = FamSystem | PreferIpv4 | PreferIpv6

record reach_request =
  rq_target :: string
  rq_mode :: reach_mode
  rq_port_override :: "u16 option"
  rq_family :: family_preference
  rq_timeout_ms :: nat
  rq_max_addresses :: nat
  rq_stop_on_first :: bool

datatype attempt_result = AttResolved | AttConnected | AttRefused | AttTimedOut | AttFailed

record reach_attempt =
  ra_address :: socket_addr
  ra_result :: attempt_result
  ra_elapsed_ms :: nat
  ra_message :: string

datatype reach_verdict = VResolved | VReachable | VPartiallyReachable | VFailed

record reach_result =
  rz_target :: string
  rz_mode :: reach_mode
  rz_resolved :: "socket_addr list"
  rz_attempts :: "reach_attempt list"
  rz_verdict :: reach_verdict
  rz_summary :: string

record normalized_request =
  nq_host :: string
  nq_display :: string
  nq_port :: "u16 option"

text \<open>The outcome of a connection with the milliseconds it took; \<open>None\<close> is the timeout.\<close>

datatype connect_error = ConnRefused string | ConnFailed string

record 'w reach_sys =
  rs_lookup :: "nat \<Rightarrow> string \<Rightarrow> u16 \<Rightarrow> 'w \<Rightarrow> (string + socket_addr list) option \<times> 'w"
  rs_connect :: "nat \<Rightarrow> socket_addr \<Rightarrow> 'w \<Rightarrow> (nat \<times> (connect_error + unit)) option \<times> 'w"

subsection \<open>The target\<close>

definition format_endpoint_display_parts :: "string \<Rightarrow> u16 \<Rightarrow> string" where
  "format_endpoint_display_parts host port =
     (if CHR '':'' \<in> set host \<and> (case parse_ip host of Some ip \<Rightarrow> is_ipv6 ip | None \<Rightarrow> False)
      then ''['' @ host @ '']:'' @ show_nat (unat port)
      else host @ '':'' @ show_nat (unat port))"

definition format_endpoint_display :: "endpoint \<Rightarrow> string" where
  "format_endpoint_display e = format_endpoint_display_parts (ep_host e) (ep_port e)"

definition parse_endpoint_like :: "string \<Rightarrow> endpoint option" where
  "parse_endpoint_like target =
     (if parse_ip target \<noteq> None then None
      else if target \<noteq> [] \<and> hd target = CHR ''['' then
        (case endpoint_from_str target of Inr e \<Rightarrow> Some e | Inl _ \<Rightarrow> None)
      else case rsplit_once CHR '':'' target of
        None \<Rightarrow> None
      | Some (host, port_text) \<Rightarrow>
          if CHR '':'' \<in> set host then None
          else case parse_u16_value port_text of
            None \<Rightarrow> None
          | Some port \<Rightarrow> if port = 0 then None else Some \<lparr>ep_host = host, ep_port = port\<rparr>)"

definition normalize_request :: "reach_request \<Rightarrow> tool_error + normalized_request" where
  "normalize_request rq =
     (let target = trim (rq_target rq) in
      if target = [] then Inl (InvalidTarget ''target is empty'')
      else
        let inline = parse_endpoint_like target;
            host = (case inline of Some e \<Rightarrow> ep_host e | None \<Rightarrow> target);
            port = (case inline of Some e \<Rightarrow> Some (ep_port e) | None \<Rightarrow> rq_port_override rq)
        in if rq_mode rq = TcpConnect \<and> port = None then Inl MissingPort
           else Inr \<lparr>nq_host = host,
             nq_display = (case port of Some p \<Rightarrow> format_endpoint_display_parts host p | None \<Rightarrow> host),
             nq_port = port\<rparr>)"

subsection \<open>The addresses\<close>

text \<open>The first occurrence of each address, in order.\<close>

fun first_seen :: "'a set \<Rightarrow> 'a list \<Rightarrow> 'a list" where
  "first_seen seen [] = []"
| "first_seen seen (x # xs) =
     (if x \<in> seen then first_seen seen xs else x # first_seen (insert x seen) xs)"

definition family_rank :: "family_preference \<Rightarrow> socket_addr \<Rightarrow> nat" where
  "family_rank pref a =
     (case pref of
        FamSystem \<Rightarrow> 0
      | PreferIpv4 \<Rightarrow> if is_ipv4 (sock_ip a) then 0 else 1
      | PreferIpv6 \<Rightarrow> if is_ipv6 (sock_ip a) then 0 else 1)"

definition order_addresses :: "socket_addr list \<Rightarrow> family_preference \<Rightarrow> nat \<Rightarrow> socket_addr list" where
  "order_addresses addrs pref mx = take mx (sort_key (family_rank pref) (first_seen {} addrs))"

definition resolve_target ::
  "'w reach_sys \<Rightarrow> nat \<Rightarrow> normalized_request \<Rightarrow> reach_request \<Rightarrow> 'w
   \<Rightarrow> (string + socket_addr list) option \<times> 'w" where
  "resolve_target sys ms nq rq w =
     (let port = (case nq_port nq of Some p \<Rightarrow> p | None \<Rightarrow> 0);
          chosen = (\<lambda>addrs. if addrs = [] then [] else order_addresses addrs (rq_family rq) (max 1 (rq_max_addresses rq)))
      in case parse_ip (nq_host nq) of
        Some ip \<Rightarrow> (Some (Inr (chosen [SocketAddr ip port])), w)
      | None \<Rightarrow>
          (case rs_lookup sys ms (nq_host nq) port w of (out, w') \<Rightarrow>
            (case out of
               None \<Rightarrow> None
             | Some (Inl e) \<Rightarrow> Some (Inl (''Failed to resolve '' @ nq_host nq @ '': '' @ e))
             | Some (Inr addrs) \<Rightarrow> Some (Inr (chosen addrs)), w')))"

subsection \<open>The attempts\<close>

definition u64_max :: nat where
  "u64_max = 2 ^ 64 - 1"

definition attempt_of ::
  "nat \<Rightarrow> socket_addr \<Rightarrow> (nat \<times> (connect_error + unit)) option \<Rightarrow> reach_attempt" where
  "attempt_of ms a out =
     (case out of
        Some (t, Inr _) \<Rightarrow> \<lparr>ra_address = a, ra_result = AttConnected, ra_elapsed_ms = min t u64_max,
          ra_message = ''connected''\<rparr>
      | None \<Rightarrow> \<lparr>ra_address = a, ra_result = AttTimedOut, ra_elapsed_ms = ms,
          ra_message = ''timed out after '' @ show_nat ms @ '' ms''\<rparr>
      | Some (t, Inl (ConnRefused m)) \<Rightarrow> \<lparr>ra_address = a, ra_result = AttRefused,
          ra_elapsed_ms = min t u64_max, ra_message = m\<rparr>
      | Some (t, Inl (ConnFailed m)) \<Rightarrow> \<lparr>ra_address = a, ra_result = AttFailed,
          ra_elapsed_ms = min t u64_max, ra_message = m\<rparr>)"

fun attempt_loop ::
  "'w reach_sys \<Rightarrow> reach_request \<Rightarrow> socket_addr list \<Rightarrow> reach_attempt list \<Rightarrow> nat \<Rightarrow> 'w
   \<Rightarrow> (reach_attempt list \<times> nat) \<times> 'w" where
  "attempt_loop sys rq [] done ok w = ((done, ok), w)"
| "attempt_loop sys rq (a # as) done ok w =
     (case rs_connect sys (max 1 (rq_timeout_ms rq)) a w of (out, w') \<Rightarrow>
       let att = attempt_of (rq_timeout_ms rq) a out;
           ok' = (if ra_result att = AttConnected then ok + 1 else ok)
       in if rq_stop_on_first rq \<and> ok' > 0 then ((done @ [att], ok'), w')
          else attempt_loop sys rq as (done @ [att]) ok' w')"

definition connect_verdict :: "nat \<Rightarrow> nat \<Rightarrow> reach_verdict" where
  "connect_verdict ok n =
     (if ok = 0 then VFailed else if ok = n then VReachable else VPartiallyReachable)"

definition connect_summary :: "string \<Rightarrow> nat \<Rightarrow> nat \<Rightarrow> string" where
  "connect_summary target ok n =
     (case connect_verdict ok n of
        VReachable \<Rightarrow> ''Connected to '' @ target @ '' on '' @ show_nat ok @ '' address(es).''
      | VPartiallyReachable \<Rightarrow> ''Connected to '' @ target @ '' on '' @ show_nat ok @ '' of '' @ show_nat n
          @ '' attempt(s).''
      | VFailed \<Rightarrow> ''No TCP connection to '' @ target @ '' succeeded across '' @ show_nat n @ '' attempt(s).''
      | VResolved \<Rightarrow> [])"

definition failed_result :: "normalized_request \<Rightarrow> reach_request \<Rightarrow> string \<Rightarrow> reach_result" where
  "failed_result nq rq summary =
     \<lparr>rz_target = nq_display nq, rz_mode = rq_mode rq, rz_resolved = [], rz_attempts = [],
      rz_verdict = VFailed, rz_summary = summary\<rparr>"

definition resolved_result :: "normalized_request \<Rightarrow> reach_request \<Rightarrow> socket_addr list \<Rightarrow> reach_result" where
  "resolved_result nq rq resolved =
     \<lparr>rz_target = nq_display nq, rz_mode = rq_mode rq, rz_resolved = resolved,
      rz_attempts = map (\<lambda>a. \<lparr>ra_address = a, ra_result = AttResolved, ra_elapsed_ms = 0,
        ra_message = ''resolved''\<rparr>) resolved,
      rz_verdict = (if resolved = [] then VFailed else VResolved),
      rz_summary = (if resolved = [] then ''No addresses resolved for '' @ nq_display nq @ ''.''
        else ''Resolved '' @ show_nat (length resolved) @ '' address(es) for '' @ nq_display nq @ ''.'')\<rparr>"

definition probe_reachability ::
  "'w reach_sys \<Rightarrow> reach_request \<Rightarrow> 'w \<Rightarrow> (tool_error + reach_result) \<times> 'w" where
  "probe_reachability sys rq w =
     (case normalize_request rq of
        Inl e \<Rightarrow> (Inl e, w)
      | Inr nq \<Rightarrow>
          (case resolve_target sys (max 1 (rq_timeout_ms rq)) nq rq w of
             (None, w') \<Rightarrow> (Inr (failed_result nq rq (''Timed out resolving '' @ nq_display nq @ '' after ''
                @ show_nat (rq_timeout_ms rq) @ '' ms.'')), w')
           | (Some (Inl message), w') \<Rightarrow> (Inr (failed_result nq rq message), w')
           | (Some (Inr resolved), w') \<Rightarrow>
               if rq_mode rq = ResolveOnly then (Inr (resolved_result nq rq resolved), w')
               else (case attempt_loop sys rq resolved [] 0 w' of ((attempts, ok), w'') \<Rightarrow>
                 (Inr \<lparr>rz_target = nq_display nq, rz_mode = rq_mode rq, rz_resolved = resolved,
                    rz_attempts = attempts, rz_verdict = connect_verdict ok (length attempts),
                    rz_summary = connect_summary (nq_display nq) ok (length attempts)\<rparr>, w''))))"

subsection \<open>Laws\<close>

lemma first_seen_set: "set (first_seen seen xs) = set xs - seen"
  by (induction xs arbitrary: seen) auto

lemma first_seen_distinct: "distinct (first_seen seen xs)"
  by (induction xs arbitrary: seen) (auto simp: first_seen_set)

text \<open>The chosen addresses: without repetition, among those found, bounded, preferred family first.\<close>

lemma order_laws:
  "distinct (order_addresses xs pref n)" "set (order_addresses xs pref n) \<subseteq> set xs"
  "length (order_addresses xs pref n) \<le> n"
  "sorted (map (family_rank pref) (order_addresses xs pref n))"
  by (auto simp: order_addresses_def first_seen_distinct sorted_wrt_take simp flip: take_map
      dest!: in_set_takeD simp: first_seen_set)

lemma attempt_of_simps [simp]: "ra_address (attempt_of ms a out) = a"
  by (auto simp: attempt_of_def split: option.split prod.split sum.split connect_error.split)

definition connected :: "reach_attempt list \<Rightarrow> nat" where
  "connected as = length (filter (\<lambda>a. ra_result a = AttConnected) as)"

lemma attempt_loop_laws:
  assumes "attempt_loop sys rq as done ok w = ((out, n), w')" "ok = connected done"
  shows "\<exists>new. out = done @ new \<and> n = connected out \<and> map ra_address new = take (length new) as
    \<and> (rq_stop_on_first rq \<longrightarrow> ok = 0 \<longrightarrow> connected (butlast new) = 0)
    \<and> (length new < length as \<longrightarrow> rq_stop_on_first rq \<and> connected new + ok > 0)"
  using assms
proof (induction as arbitrary: "done" ok w)
  case Nil
  then show ?case by (intro exI [of _ "[]"]) (auto simp: connected_def)
next
  case (Cons a as)
  obtain res w1 where c: "rs_connect sys (max 1 (rq_timeout_ms rq)) a w = (res, w1)" by fastforce
  let ?att = "attempt_of (rq_timeout_ms rq) a res"
  let ?ok = "if ra_result ?att = AttConnected then ok + 1 else ok"
  have k: "?ok = connected (done @ [?att])" using Cons.prems(2) by (simp add: connected_def)
  show ?case
  proof (cases "rq_stop_on_first rq \<and> ?ok > 0")
    case True
    then have "out = done @ [?att]" "n = ?ok" using Cons.prems(1) c by (simp_all add: Let_def)
    then show ?thesis
      using k True Cons.prems(2) by (intro exI [of _ "[?att]"]) (auto simp: connected_def)
  next
    case False
    then have loop: "attempt_loop sys rq as (done @ [?att]) ?ok w1 = ((out, n), w')"
      using Cons.prems(1) c by (simp add: Let_def split: if_splits)
    note IH = Cons.IH [OF loop k]
    obtain new where new: "out = (done @ [?att]) @ new" "n = connected out"
      "map ra_address new = take (length new) as"
      "rq_stop_on_first rq \<longrightarrow> ?ok = 0 \<longrightarrow> connected (butlast new) = 0"
      "length new < length as \<longrightarrow> rq_stop_on_first rq \<and> connected new + ?ok > 0"
      by (insert IH, elim exE conjE) (rule that)
    have stop: "rq_stop_on_first rq \<Longrightarrow> ok = 0 \<and> ?ok = 0 \<and> ra_result ?att \<noteq> AttConnected"
      using False by (cases "ra_result ?att = AttConnected") simp_all
    have but: "connected (butlast (?att # new)) = 0" if "rq_stop_on_first rq"
      using stop [OF that] new(4) that by (cases new) (simp_all add: connected_def)
    have rest: "rq_stop_on_first rq \<and> connected (?att # new) + ok > 0" if "length (?att # new) < length (a # as)"
      using new(5) stop that by (simp add: connected_def)
    show ?thesis
      using new(1-3) but rest by (intro exI [of _ "?att # new"]) simp
  qed
qed

lemma resolve_laws:
  assumes "resolve_target sys ms nq rq w = (Some (Inr xs), w')"
  shows "distinct xs \<and> length xs \<le> max 1 (rq_max_addresses rq) \<and> sorted (map (family_rank (rq_family rq)) xs)"
proof -
  have "order_addresses [] pref n = []" for pref n by (simp add: order_addresses_def)
  with assms have "\<exists>ys. xs = order_addresses ys (rq_family rq) (max 1 (rq_max_addresses rq))"
    by (cases "parse_ip (nq_host nq)")
      (auto simp: resolve_target_def Let_def split: option.splits prod.splits sum.splits if_splits, metis+)
  then show ?thesis by (elim exE) (simp only: order_laws simp_thms)
qed

lemma attempt_elapsed: "ms \<le> u64_max \<Longrightarrow> ra_elapsed_ms (attempt_of ms a out) \<le> u64_max"
  by (auto simp: attempt_of_def split: option.split prod.split sum.split connect_error.split)

lemma loop_elapsed:
  assumes "attempt_loop sys rq as done ok w = ((out, n), w')" "rq_timeout_ms rq \<le> u64_max"
    and "\<forall>a \<in> set done. ra_elapsed_ms a \<le> u64_max"
  shows "\<forall>a \<in> set out. ra_elapsed_ms a \<le> u64_max"
  using assms
proof (induction as arbitrary: "done" ok w)
  case (Cons a as)
  obtain res w1 where c: "rs_connect sys (max 1 (rq_timeout_ms rq)) a w = (res, w1)" by fastforce
  let ?done = "done @ [attempt_of (rq_timeout_ms rq) a res]"
  have d: "\<forall>a \<in> set ?done. ra_elapsed_ms a \<le> u64_max"
    using Cons.prems(2,3) by (auto simp: attempt_elapsed)
  show ?case
    using Cons.prems(1) c d Cons.IH [OF _ Cons.prems(2) d] by (auto simp: Let_def split: if_splits)
qed simp

text \<open>The shape of every result.\<close>

definition well_probed :: "reach_request \<Rightarrow> reach_result \<Rightarrow> bool" where
  "well_probed rq z =
     (distinct (rz_resolved z) \<and> length (rz_resolved z) \<le> max 1 (rq_max_addresses rq)
    \<and> sorted (map (family_rank (rq_family rq)) (rz_resolved z))
    \<and> map ra_address (rz_attempts z) = take (length (rz_attempts z)) (rz_resolved z)
    \<and> length (rz_attempts z) \<le> length (rz_resolved z)
    \<and> (rq_mode rq = TcpConnect \<longrightarrow>
         rz_verdict z = connect_verdict (connected (rz_attempts z)) (length (rz_attempts z))
       \<and> (rq_stop_on_first rq \<longrightarrow> connected (butlast (rz_attempts z)) = 0)
       \<and> (length (rz_attempts z) < length (rz_resolved z) \<longrightarrow> rq_stop_on_first rq \<and> connected (rz_attempts z) > 0)))"

lemma probe_laws:
  assumes "probe_reachability sys rq w = (Inr z, w')"
  shows "well_probed rq z"
proof -
  obtain nq where nq: "normalize_request rq = Inr nq"
    using assms by (auto simp: probe_reachability_def split: sum.splits)
  obtain out w1 where r: "resolve_target sys (max 1 (rq_timeout_ms rq)) nq rq w = (out, w1)" by fastforce
  show ?thesis
  proof (cases "\<exists>xs. out = Some (Inr xs)")
    case False
    then obtain m where "z = failed_result nq rq m"
      using assms nq r by (cases out) (auto simp: probe_reachability_def split: sum.splits)
    then show ?thesis by (simp add: well_probed_def failed_result_def connected_def connect_verdict_def)
  next
    case True
    then obtain xs where xs: "out = Some (Inr xs)" by blast
    note R = resolve_laws [OF r [unfolded xs]]
    show ?thesis
    proof (cases "rq_mode rq")
      case ResolveOnly
      then have "z = resolved_result nq rq xs"
        using assms nq r xs by (simp add: probe_reachability_def)
      then show ?thesis using R ResolveOnly by (simp add: well_probed_def resolved_result_def comp_def)
    next
      case TcpConnect
      obtain as n w2 where l: "attempt_loop sys rq xs [] 0 w1 = ((as, n), w2)" by (metis surj_pair)
      have z: "rz_resolved z = xs" "rz_attempts z = as" "rz_verdict z = connect_verdict n (length as)"
        using assms nq r xs l TcpConnect by (auto simp: probe_reachability_def)
      have "map ra_address as = take (length as) xs \<and> n = connected as
          \<and> (rq_stop_on_first rq \<longrightarrow> connected (butlast as) = 0)
          \<and> (length as < length xs \<longrightarrow> rq_stop_on_first rq \<and> connected as > 0)"
        using attempt_loop_laws [OF l] by (auto simp: connected_def)
      moreover from this have "length as \<le> length xs" by (metis length_map length_take min.cobounded1)
      ultimately show ?thesis using R TcpConnect by (simp add: well_probed_def z)
    qed
  qed
qed

lemma probe_elapsed:
  assumes "probe_reachability sys rq w = (Inr z, w')" "rq_timeout_ms rq \<le> u64_max"
  shows "\<forall>a \<in> set (rz_attempts z). ra_elapsed_ms a \<le> u64_max"
proof -
  obtain nq where nq: "normalize_request rq = Inr nq"
    using assms by (auto simp: probe_reachability_def split: sum.splits)
  obtain out w1 where r: "resolve_target sys (max 1 (rq_timeout_ms rq)) nq rq w = (out, w1)" by fastforce
  show ?thesis
  proof (cases "\<exists>xs. out = Some (Inr xs) \<and> rq_mode rq = TcpConnect")
    case False
    then have "(\<exists>m. z = failed_result nq rq m) \<or> (\<exists>xs. z = resolved_result nq rq xs)"
      using assms nq r
      by (cases out; cases "rq_mode rq") (auto simp: probe_reachability_def split: sum.splits)
    then show ?thesis by (auto simp: failed_result_def resolved_result_def)
  next
    case True
    then obtain xs where xs: "out = Some (Inr xs)" "rq_mode rq = TcpConnect" by blast
    obtain as n w2 where l: "attempt_loop sys rq xs [] 0 w1 = ((as, n), w2)" by (metis surj_pair)
    have "rz_attempts z = as" using assms nq r xs l by (auto simp: probe_reachability_def)
    with loop_elapsed [OF l assms(2)] show ?thesis by simp
  qed
qed

end
