(* ===== verification/Tool_Properties.thy ===== *)
theory Tool_Properties
  imports Reachability
begin

text \<open>The properties of the reachability probe, for every resolver and every network.\<close>

text \<open>C39: a probe keeps its bounds: the addresses are distinct, no more than asked for (and one at
  least is allowed), the preferred family first; each attempt is for the next address, and
  the times fit into 64 bits.\<close>

theorem probe_bounds:
  assumes "probe_reachability sys rq w = (Inr z, w')" "rq_timeout_ms rq \<le> u64_max"
  shows "distinct (rz_resolved z) \<and> length (rz_resolved z) \<le> max 1 (rq_max_addresses rq)
    \<and> sorted (map (family_rank (rq_family rq)) (rz_resolved z))
    \<and> map ra_address (rz_attempts z) = take (length (rz_attempts z)) (rz_resolved z)
    \<and> (\<forall>a \<in> set (rz_attempts z). ra_elapsed_ms a \<le> 2 ^ 64 - 1)"
  using probe_laws [OF assms(1)] probe_elapsed [OF assms] by (simp add: well_probed_def u64_max_def)

text \<open>A name with three addresses, of which the second answers.\<close>

definition toy_net :: "unit reach_sys" where
  "toy_net =
     \<lparr>rs_lookup = (\<lambda>_ _ p w. (Some (Inr [SocketAddr (V6 1) p, SocketAddr (V4 1) p, SocketAddr (V6 1) p,
        SocketAddr (V4 2) p]), w)),
      rs_connect = (\<lambda>_ a w. (if a = SocketAddr (V4 2) 443 then Some (5, Inr ()) else None, w))\<rparr>"

definition toy_probe :: "nat \<Rightarrow> bool \<Rightarrow> reach_request" where
  "toy_probe mx stop =
     \<lparr>rq_target = ''relay'', rq_mode = TcpConnect, rq_port_override = Some 443, rq_family = PreferIpv4,
      rq_timeout_ms = 100, rq_max_addresses = mx, rq_stop_on_first = stop\<rparr>"

lemma toy_request: "normalize_request (toy_probe mx stop)
    = Inr \<lparr>nq_host = ''relay'', nq_display = ''relay:'' @ show_nat 443, nq_port = Some 443\<rparr>"
proof -
  have "parse_ip ''relay'' = None" "trim ''relay'' = ''relay''" "rsplit_once CHR '':'' ''relay'' = None"
    by (simp_all add: eval_simps)
  then show ?thesis
    by (simp add: normalize_request_def toy_probe_def parse_endpoint_like_def format_endpoint_display_parts_def
        Let_def)
qed

lemma toy_run:
  "\<exists>z. probe_reachability toy_net (toy_probe 8 True) () = (Inr z, ())
     \<and> map ra_result (rz_attempts z) = [AttTimedOut, AttConnected] \<and> rz_verdict z = VPartiallyReachable"
proof -
  have "parse_ip ''relay'' = None" by (simp add: eval_simps)
  moreover have "rq_mode (toy_probe 8 True) = TcpConnect" "rq_family (toy_probe 8 True) = PreferIpv4"
    "rq_timeout_ms (toy_probe 8 True) = 100" "rq_max_addresses (toy_probe 8 True) = 8"
    "rq_stop_on_first (toy_probe 8 True)"
    by (simp_all add: toy_probe_def)
  ultimately show ?thesis
    by (simp add: probe_reachability_def toy_request resolve_target_def toy_net_def order_addresses_def
        family_rank_def Let_def attempt_of_def connect_verdict_def)
qed

theorem probe_bounds_witness:
  "\<exists>z. probe_reachability toy_net (toy_probe 8 True) () = (Inr z, ()) \<and> distinct (rz_resolved z)
     \<and> length (rz_resolved z) \<le> 8"
proof -
  obtain z where z: "probe_reachability toy_net (toy_probe 8 True) () = (Inr z, ())" using toy_run by blast
  moreover have "rq_timeout_ms (toy_probe 8 True) \<le> u64_max" by (simp add: toy_probe_def u64_max_def)
  moreover have "rq_max_addresses (toy_probe 8 True) = 8" by (simp add: toy_probe_def)
  ultimately show ?thesis using z probe_bounds [OF z] by auto
qed

text \<open>C40: the verdict of a TCP probe is what the attempts say: reachable if all of them connected,
  partially if some did and failed if none; with the early stop nothing is tried after the
  first connection, and without it every address is tried.\<close>

theorem probe_verdict:
  assumes "probe_reachability sys rq w = (Inr z, w')" "rq_mode rq = TcpConnect"
  shows "(rz_verdict z = VFailed \<longleftrightarrow> (\<forall>a \<in> set (rz_attempts z). ra_result a \<noteq> AttConnected))
    \<and> (rz_verdict z = VReachable \<longleftrightarrow> rz_attempts z \<noteq> [] \<and> (\<forall>a \<in> set (rz_attempts z). ra_result a = AttConnected))
    \<and> (if rq_stop_on_first rq then \<forall>a \<in> set (butlast (rz_attempts z)). ra_result a \<noteq> AttConnected
       else length (rz_attempts z) = length (rz_resolved z))"
proof -
  note P = probe_laws [OF assms(1), unfolded well_probed_def]
  have none: "connected as = 0 \<longleftrightarrow> (\<forall>a \<in> set as. ra_result a \<noteq> AttConnected)" for as
    by (auto simp: connected_def filter_empty_conv)
  have all: "connected as = length as \<longleftrightarrow> (\<forall>a \<in> set as. ra_result a = AttConnected)" for as
  proof -
    have "filter (\<lambda>a. ra_result a \<noteq> AttConnected) as = [] \<longleftrightarrow> connected as = length as"
      using sum_length_filter_compl [of "\<lambda>a. ra_result a = AttConnected" as]
      unfolding connected_def length_0_conv [symmetric] by linarith
    then show ?thesis by (simp add: filter_empty_conv)
  qed
  have "rz_verdict z = connect_verdict (connected (rz_attempts z)) (length (rz_attempts z))"
    using P assms(2) by simp
  then have "rz_verdict z = VFailed \<longleftrightarrow> connected (rz_attempts z) = 0"
    "rz_verdict z = VReachable \<longleftrightarrow> connected (rz_attempts z) \<noteq> 0 \<and> connected (rz_attempts z) = length (rz_attempts z)"
    by (simp_all add: connect_verdict_def)
  then show ?thesis using P assms(2) none all by (auto simp: connected_def)
qed

theorem probe_verdict_witness:
  "\<exists>z. probe_reachability toy_net (toy_probe 8 True) () = (Inr z, ()) \<and> rz_verdict z = VPartiallyReachable
     \<and> \<not> (\<forall>a \<in> set (rz_attempts z). ra_result a \<noteq> AttConnected)"
proof -
  obtain z where z: "probe_reachability toy_net (toy_probe 8 True) () = (Inr z, ())"
    "rz_verdict z = VPartiallyReachable" using toy_run by blast
  have "rq_mode (toy_probe 8 True) = TcpConnect" by (simp add: toy_probe_def)
  then show ?thesis using z probe_verdict [OF z(1)] by auto
qed

end
