(* ===== verification/Spec2Isabelle.thy ===== *)
theory Spec2Isabelle
  imports Config_Properties Plan_Properties Cidr_Properties Service_Properties Backend_Properties
    Engine_Properties Net_Properties Net_Apply_Properties Storage_Properties Tool_Properties
begin

text \<open>
  A verification development of r-wg, a WireGuard desktop client written in Rust.
\<close>

end
